(* ===== verification/NetPrelude.thy ===== *)
theory NetPrelude imports
  "HOL-Library.Word"
  "HOL-Library.Monad_Syntax"
begin

text \<open>
  Machine types, generic facts and the collections of the development.

  A C++ \<open>char\<close>, an element of a \<open>std::string\<close> or of a \<open>std::vector<char>\<close>, is a \<open>char\<close> of
  HOL, which has exactly 256 values; a C++ \<open>int\<close> or \<open>unsigned int\<close> is a \<open>32 word\<close>, read with
  \<open>sint\<close> where the code compares signed values.  Signed arithmetic wraps, as on every
  platform the library targets.

  A memory read is an \<open>option\<close>: \<open>None\<close> says the code read outside the block it was given,
  which is undefined behaviour.  No property takes "it did not happen" for granted: the
  absence of such reads is proved.
\<close>

unbundle bit_operations_syntax

type_synonym byte = char
type_synonym cint = "32 word"
type_synonym u32 = "32 word"

named_theorems consts_simps "numeric constants of the protocol and the manager"
named_theorems frame_simps "which parts of the state an operation leaves alone"

section \<open>Signed 32 bit arithmetic\<close>

abbreviation INT_MAX :: int where
  "INT_MAX \<equiv> 2147483647"

lemma cint_range: "- 2147483648 \<le> sint (x :: cint) \<and> sint x \<le> INT_MAX"
  using sint_ge [of x] sint_lt [of x] by simp

lemma nat_sint_bound: "nat (sint (x :: cint)) \<le> 2147483647"
  using cint_range [of x] nat_mono [of "sint x" INT_MAX] by simp

lemma nat_neg_sint_bound: "nat (- sint (x :: cint)) \<le> 2147483648"
  using cint_range [of x] nat_mono [of "- sint x" 2147483648] by simp

lemma unat_u32_bound: "unat (x :: u32) < 4294967296"
proof -
  have "unat x < 2 ^ LENGTH(32)"
    by (rule unsigned_less)
  then show ?thesis by simp
qed

lemma signed_take_bit_31_id:
  "- 2147483648 \<le> k \<Longrightarrow> k \<le> INT_MAX \<Longrightarrow> signed_take_bit 31 k = (k :: int)"
  by (simp add: signed_take_bit_int_eq_self)

lemma sint_add_id:
  fixes a b :: cint
  assumes "- 2147483648 \<le> sint a + sint b" and "sint a + sint b \<le> INT_MAX"
  shows "sint (a + b) = sint a + sint b"
  using assms by (simp add: sint_word_add signed_take_bit_31_id)

lemma sint_diff_id:
  fixes a b :: cint
  assumes "- 2147483648 \<le> sint a - sint b" and "sint a - sint b \<le> INT_MAX"
  shows "sint (a - b) = sint a - sint b"
  using assms by (simp add: sint_word_diff signed_take_bit_31_id)

lemma cint_of_sint: "sint (w :: cint) = int n \<Longrightarrow> w = of_nat n"
  by (metis of_int_of_nat_eq of_int_sint scast_id)

lemma sint_of_nat_id:
  "int n \<le> INT_MAX \<Longrightarrow> sint (of_nat n :: cint) = int n"
  using sint_sbintrunc' [of "int n", where 'a = 32] by (simp add: signed_take_bit_31_id)

lemma sint_of_int_id:
  "- 2147483648 \<le> k \<Longrightarrow> k \<le> INT_MAX \<Longrightarrow> sint (of_int k :: cint) = k"
  by (simp add: sint_sbintrunc' signed_take_bit_31_id)

section \<open>Bytes and words\<close>

text \<open>\<open>(char)v\<close>: the low eight bits.\<close>

definition byte_of :: "cint \<Rightarrow> byte" where
  "byte_of v = char_of (unat v)"

text \<open>\<open>(unsigned int)(unsigned char)c\<close>.\<close>

definition word_of :: "byte \<Rightarrow> cint" where
  "word_of c = of_nat (of_char c)"

lemma word_of_byte_of: "word_of (byte_of w) = take_bit 8 w"
proof -
  have "word_of (byte_of w) = of_nat (unat w mod 256)"
    by (simp add: word_of_def byte_of_def)
  also have "\<dots> = of_nat (unat (take_bit 8 w))"
    by (simp add: unsigned_take_bit_eq take_bit_eq_mod [of 8 "unat w"])
  finally show ?thesis by simp
qed

lemma unat_word_of: "unat (word_of c) = of_char c"
proof -
  have "of_char c < (2 :: nat) ^ LENGTH(32)"
    using nat_of_char_less_256 [of c] by (rule less_trans) simp
  then show ?thesis
    by (simp only: word_of_def unat_of_nat) (simp only: mod_less)
qed

lemma word_of_less: "unat (word_of c) < 256"
  by (simp add: unat_word_of)

lemma byte_of_word_of [simp]: "byte_of (word_of c) = c"
  by (simp add: byte_of_def unat_word_of)

lemma byte_of_cong: "take_bit 8 v = take_bit 8 w \<Longrightarrow> byte_of v = byte_of w"
  by (metis byte_of_word_of word_of_byte_of)

lemma byte_of_mask [simp]: "byte_of (w AND 0xFF) = byte_of w"
proof (rule byte_of_cong)
  have "(0xFF :: cint) = mask 8"
    by (simp add: mask_eq_decr_exp)
  then show "take_bit 8 (w AND 0xFF) = take_bit 8 w"
    by (simp only: take_bit_eq_mask [symmetric]) simp
qed

lemma bit_word_of_less: "bit (word_of c) n \<Longrightarrow> n < 8"
proof -
  have "word_of c = take_bit 8 (word_of c)"
    using word_of_byte_of [of "word_of c"] by simp
  then show "bit (word_of c) n \<Longrightarrow> n < 8"
    by (metis bit_take_bit_iff)
qed

section \<open>Blocks of memory\<close>

text \<open>Reading \<open>n\<close> bytes at \<open>off\<close> of a block; \<open>None\<close> past its end.\<close>

definition read_bytes :: "byte list \<Rightarrow> nat \<Rightarrow> nat \<Rightarrow> byte list option" where
  "read_bytes data off n = (if off + n \<le> length data then Some (take n (drop off data)) else None)"

text \<open>The same with a length held in an \<open>int\<close>; a negative one is no length at all.\<close>

definition read_cint_bytes :: "byte list \<Rightarrow> cint \<Rightarrow> cint \<Rightarrow> byte list option" where
  "read_cint_bytes data off n =
     (if sint off < 0 \<or> sint n < 0 then None
      else read_bytes data (nat (sint off)) (nat (sint n)))"

lemma read_bytes_append [simp]:
  "read_bytes (pre @ xs @ post) (length pre) (length xs) = Some xs"
  by (simp add: read_bytes_def)

lemma read_bytes_Some_iff: "read_bytes data off n \<noteq> None \<longleftrightarrow> off + n \<le> length data"
  by (simp add: read_bytes_def)

lemma read_bytes_SomeD:
  "read_bytes data off n = Some xs \<Longrightarrow> off + n \<le> length data \<and> xs = take n (drop off data) \<and> length xs = n"
  by (auto simp: read_bytes_def split: if_splits)

lemma read_bytes_prefix:
  "off + n \<le> length data \<Longrightarrow> read_bytes (data @ more) off n = read_bytes data off n"
  by (simp add: read_bytes_def)

section \<open>Lists\<close>

lemma drop_take_append_exact:
  "length a = n \<Longrightarrow> drop n (a @ b) = b" "length a = n \<Longrightarrow> take n (a @ b) = a"
  by simp_all

lemma map_update_image:
  "ran (m(k \<mapsto> v)) \<subseteq> insert v (ran m)"
  by (auto simp: ran_def)

end
