(* ===== verification/NetOs.thy ===== *)
theory NetOs imports NetPrelude "HOL-Library.AList"
begin

text \<open>
  The operating system as the library sees it: clocks, sockets and files.

  The system's side of every call is data of the record \<open>os\<close>: a script of answers for each
  kind of call, used up in order.  A property that is proved for every \<open>os\<close> holds for every
  behaviour of the server, the network and the disk.  A script that is used up answers "nothing
  to report" (no data, would block), so a script describes a finite run.  The system keeps
  its documented promises: \<open>send\<close> takes a prefix of the buffer, \<open>recv\<close> returns at most the
  bytes asked for and keeps the rest, a new descriptor is not one in use.

  Errors are the Linux numbers; the code only compares them with \<open>EWOULDBLOCK\<close>, \<open>EINPROGRESS\<close>
  and \<open>EINTR\<close>.
\<close>

section \<open>Answers\<close>

definition NN_EINTR :: cint where [consts_simps]: "NN_EINTR = 4"
definition NN_EWOULDBLOCK :: cint where [consts_simps]: "NN_EWOULDBLOCK = 11"
definition NN_EINPROGRESS :: cint where [consts_simps]: "NN_EINPROGRESS = 115"

text \<open>One attempt to connect: how far \<open>gethostbyname\<close>, \<open>socket\<close>, \<open>fcntl\<close>, \<open>connect\<close> get.\<close>

datatype connect_answer =
    HostUnknown cint
  | NoSocket cint
  | NoNonBlocking cint
  | ConnectedAtOnce
  | ConnectError cint

record select_answer =
  sel_result :: int
  sel_errno :: cint
  sel_in_error_set :: bool
  sel_in_write_set :: bool
  sel_so_error :: cint

text \<open>\<open>SendAnswer n e\<close>: the kernel takes \<open>n\<close> bytes (as far as there are any), or fails with \<open>e\<close>.\<close>

datatype send_answer = SendAnswer nat cint

text \<open>\<open>Received []\<close> is the orderly shutdown by the peer.\<close>

datatype recv_answer = Received "byte list" | RecvError cint

text \<open>\<open>IoFail k\<close>: the call fails, a transfer having moved \<open>k\<close> bytes.\<close>

datatype io_answer = IoOk | IoFail nat

section \<open>The system\<close>

record os =
  osClock :: "nat \<Rightarrow> u32"
  osClockReads :: nat
  osTime :: "nat \<Rightarrow> u32"
  osTimeReads :: nat
  osConnects :: "connect_answer list"
  osDialled :: "(string \<times> cint) list"
  osSelects :: "select_answer list"
  osSends :: "send_answer list"
  osWire :: "byte list"
  osRecvs :: "recv_answer list"
  osWaits :: "bool list"
  osFds :: "nat list"
  osNextFd :: nat
  osFiles :: "(string \<times> byte list) list"
  osIo :: "io_answer list"

definition NowMs :: "os \<Rightarrow> u32 \<times> os" where
  "NowMs w = (osClock w (osClockReads w), w\<lparr>osClockReads := Suc (osClockReads w)\<rparr>)"

definition os_time :: "os \<Rightarrow> u32 \<times> os" where
  "os_time w = (osTime w (osTimeReads w), w\<lparr>osTimeReads := Suc (osTimeReads w)\<rparr>)"

text \<open>Wrap-around safe "has deadline passed".\<close>

definition TimeAfter :: "u32 \<Rightarrow> u32 \<Rightarrow> bool" where
  "TimeAfter now deadline \<longleftrightarrow> sint (now - deadline) \<ge> 0"

section \<open>Sockets\<close>

definition os_connect_answer :: "os \<Rightarrow> connect_answer \<times> os" where
  "os_connect_answer w = (case osConnects w of
     [] \<Rightarrow> (HostUnknown 0, w) | a # as \<Rightarrow> (a, w\<lparr>osConnects := as\<rparr>))"

definition os_socket :: "os \<Rightarrow> nat \<times> os" where
  "os_socket w = (osNextFd w, w\<lparr>osFds := osNextFd w # osFds w, osNextFd := Suc (osNextFd w)\<rparr>)"

definition os_close :: "nat \<Rightarrow> os \<Rightarrow> os" where
  "os_close fd w = w\<lparr>osFds := removeAll fd (osFds w)\<rparr>"

definition os_dial :: "string \<Rightarrow> cint \<Rightarrow> os \<Rightarrow> os" where
  "os_dial host port w = w\<lparr>osDialled := osDialled w @ [(host, port AND 0xFFFF)]\<rparr>"

definition os_select :: "os \<Rightarrow> select_answer \<times> os" where
  "os_select w = (case osSelects w of
     [] \<Rightarrow> (\<lparr>sel_result = 0, sel_errno = 0, sel_in_error_set = False,
             sel_in_write_set = False, sel_so_error = 0\<rparr>, w)
   | a # as \<Rightarrow> (a, w\<lparr>osSelects := as\<rparr>))"

definition os_send :: "byte list \<Rightarrow> os \<Rightarrow> nat \<times> cint \<times> os" where
  "os_send buf w = (case osSends w of
     [] \<Rightarrow> (0, NN_EWOULDBLOCK, w)
   | SendAnswer n e # as \<Rightarrow>
       (min n (length buf), e, w\<lparr>osSends := as, osWire := osWire w @ take n buf\<rparr>))"

definition os_recv :: "nat \<Rightarrow> os \<Rightarrow> recv_answer \<times> os" where
  "os_recv n w = (case osRecvs w of
     [] \<Rightarrow> (RecvError NN_EWOULDBLOCK, w)
   | Received xs # as \<Rightarrow>
       (if length xs \<le> n then (Received xs, w\<lparr>osRecvs := as\<rparr>)
        else (Received (take n xs), w\<lparr>osRecvs := Received (drop n xs) # as\<rparr>))
   | RecvError e # as \<Rightarrow> (RecvError e, w\<lparr>osRecvs := as\<rparr>))"

definition os_wait :: "os \<Rightarrow> bool \<times> os" where
  "os_wait w = (case osWaits w of [] \<Rightarrow> (False, w) | b # bs \<Rightarrow> (b, w\<lparr>osWaits := bs\<rparr>))"

text \<open>The bytes the kernel still has for us, and a measure that every \<open>recv\<close> of data lowers.\<close>

fun answer_bytes :: "recv_answer \<Rightarrow> byte list" where
  "answer_bytes (Received xs) = xs"
| "answer_bytes (RecvError e) = []"

definition os_incoming :: "os \<Rightarrow> byte list" where
  "os_incoming w = concat (map answer_bytes (osRecvs w))"

definition recv_measure :: "os \<Rightarrow> nat" where
  "recv_measure w = (\<Sum>a\<leftarrow>osRecvs w. Suc (length (answer_bytes a)))"

lemma os_recv_incoming:
  "os_recv n w = (a, w') \<Longrightarrow> answer_bytes a @ os_incoming w' = os_incoming w"
  by (auto simp: os_recv_def os_incoming_def split: list.splits recv_answer.splits if_splits)

lemma os_recv_measure:
  "os_recv n w = (Received xs, w') \<Longrightarrow> 0 < n \<Longrightarrow> recv_measure w' < recv_measure w"
  by (auto simp: os_recv_def recv_measure_def split: list.splits recv_answer.splits if_splits)

lemma os_send_stream:
  "os_send buf w = (n, e, w') \<Longrightarrow> osWire w' = osWire w @ take n buf \<and> n \<le> length buf"
  by (auto simp: os_send_def min_def split: list.splits send_answer.splits)

text \<open>What no socket call touches: the clocks and the disk.\<close>

definition os_rest :: "os \<Rightarrow> (nat \<Rightarrow> u32) \<times> nat \<times> (nat \<Rightarrow> u32) \<times> nat \<times> (string \<times> byte list) list \<times> io_answer list" where
  "os_rest w = (osClock w, osClockReads w, osTime w, osTimeReads w, osFiles w, osIo w)"

lemma os_rest_calls [frame_simps]:
  "os_rest (os_close fd w) = os_rest w"
  "os_rest (os_dial host port w) = os_rest w"
  "os_connect_answer w = (a, w') \<Longrightarrow> os_rest w' = os_rest w"
  "os_socket w = (fd, w') \<Longrightarrow> os_rest w' = os_rest w"
  "os_select w = (sa, w') \<Longrightarrow> os_rest w' = os_rest w"
  "os_send buf w = (n, e, w') \<Longrightarrow> os_rest w' = os_rest w"
  "os_recv k w = (ra, w') \<Longrightarrow> os_rest w' = os_rest w"
  "os_wait w = (b, w') \<Longrightarrow> os_rest w' = os_rest w"
  by (auto simp: os_rest_def os_close_def os_dial_def os_connect_answer_def os_socket_def os_select_def
      os_send_def os_recv_def os_wait_def
      split: list.splits send_answer.splits recv_answer.splits if_splits)

section \<open>Files\<close>

definition os_io :: "os \<Rightarrow> io_answer \<times> os" where
  "os_io w = (case osIo w of [] \<Rightarrow> (IoOk, w) | a # as \<Rightarrow> (a, w\<lparr>osIo := as\<rparr>))"

definition os_put :: "string \<Rightarrow> byte list \<Rightarrow> os \<Rightarrow> os" where
  "os_put path contents w = w\<lparr>osFiles := AList.update path contents (osFiles w)\<rparr>"

definition os_file :: "os \<Rightarrow> string \<Rightarrow> byte list option" where
  "os_file w path = map_of (osFiles w) path"

definition os_fopen_rb :: "string \<Rightarrow> os \<Rightarrow> byte list option \<times> os" where
  "os_fopen_rb path w = (case os_io w of
     (IoOk, w) \<Rightarrow> (os_file w path, w) | (IoFail _, w) \<Rightarrow> (None, w))"

definition os_remove :: "string \<Rightarrow> os \<Rightarrow> os" where
  "os_remove path w = (case os_io w of
     (IoOk, w) \<Rightarrow> w\<lparr>osFiles := AList.delete path (osFiles w)\<rparr> | (IoFail _, w) \<Rightarrow> w)"

definition os_rename :: "string \<Rightarrow> string \<Rightarrow> os \<Rightarrow> bool \<times> os" where
  "os_rename a b w = (case os_io w of
     (IoOk, w) \<Rightarrow> (case os_file w a of
         None \<Rightarrow> (False, w)
       | Some contents \<Rightarrow> (True, w\<lparr>osFiles := AList.update b contents (AList.delete a (osFiles w))\<rparr>))
   | (IoFail _, w) \<Rightarrow> (False, w))"

definition os_list_directory :: "string \<Rightarrow> os \<Rightarrow> string list option \<times> os" where
  "os_list_directory dir w = (case os_io w of
     (IoOk, w) \<Rightarrow> (Some (map (drop (length dir)) (filter (\<lambda>p. take (length dir) p = dir
                      \<and> CHR ''/'' \<notin> set (drop (length dir) p)) (map fst (osFiles w)))), w)
   | (IoFail _, w) \<Rightarrow> (None, w))"

lemma os_io_files [simp]: "os_io w = (a, w') \<Longrightarrow> osFiles w' = osFiles w"
  by (auto simp: os_io_def split: list.splits)

lemma os_file_put [simp]: "os_file (os_put p c w) q = (if q = p then Some c else os_file w q)"
  by (simp add: os_file_def os_put_def update_conv')

lemma os_file_fopen [simp]: "os_file (snd (os_fopen_rb p w)) q = os_file w q"
  by (auto simp: os_fopen_rb_def os_file_def split: prod.split io_answer.split)

lemma os_fopen_rb_Some: "os_fopen_rb p w = (Some c, w') \<Longrightarrow> os_file w p = Some c"
  by (auto simp: os_fopen_rb_def os_file_def split: prod.splits io_answer.splits)

lemma os_file_remove:
  "os_file (os_remove p w) q = os_file w q \<or> (q = p \<and> os_file (os_remove p w) q = None)"
  by (auto simp: os_remove_def os_file_def delete_conv' split: prod.split io_answer.split)

lemma os_file_remove_other [simp]: "q \<noteq> p \<Longrightarrow> os_file (os_remove p w) q = os_file w q"
  using os_file_remove [of p w q] by auto

lemma os_file_rename:
  "os_rename a b w = (ok, w') \<Longrightarrow> a \<noteq> b \<Longrightarrow> os_file w' q =
     (if ok then (if q = b then os_file w a else if q = a then None else os_file w q) else os_file w q)"
  by (auto simp: os_rename_def os_file_def update_conv' delete_conv'
      split: prod.splits io_answer.splits option.splits)

text \<open>What no clock or file call touches: the network.\<close>

definition os_net where
  "os_net w = (osFds w, osNextFd w, osRecvs w, osWire w, osConnects w, osDialled w, osSelects w, osSends w, osWaits w)"

lemma os_net_upd [simp]:
  "os_net (w\<lparr>osClockReads := n\<rparr>) = os_net w" "os_net (w\<lparr>osTimeReads := n\<rparr>) = os_net w"
  "os_net (w\<lparr>osFiles := fs\<rparr>) = os_net w" "os_net (w\<lparr>osIo := as\<rparr>) = os_net w"
  by (simp_all add: os_net_def)

lemma os_net_io [frame_simps]: "os_io w = (a, w') \<Longrightarrow> os_net w' = os_net w"
  by (auto simp: os_io_def split: list.splits)

lemma os_net_calls [frame_simps]:
  "NowMs w = (t, w') \<Longrightarrow> os_net w' = os_net w"
  "os_time w = (t, w') \<Longrightarrow> os_net w' = os_net w"
  "os_net (os_put p c w) = os_net w"
  "os_fopen_rb p w = (c', w') \<Longrightarrow> os_net w' = os_net w"
  "os_net (os_remove p w) = os_net w"
  "os_rename p q w = (b, w') \<Longrightarrow> os_net w' = os_net w"
  "os_list_directory p w = (l, w') \<Longrightarrow> os_net w' = os_net w"
  by (auto simp: NowMs_def os_time_def os_put_def os_fopen_rb_def os_remove_def frame_simps
      os_rename_def os_list_directory_def split: io_answer.splits option.splits prod.splits)

text \<open>The millisecond clock, which only \<open>NowMs\<close> reads.\<close>

definition os_clock :: "os \<Rightarrow> (nat \<Rightarrow> u32) \<times> nat" where
  "os_clock w = (osClock w, osClockReads w)"

lemma os_clock_upd [simp]:
  "os_clock (w\<lparr>osTimeReads := n\<rparr>) = os_clock w"
  "os_clock (w\<lparr>osFiles := fs\<rparr>) = os_clock w" "os_clock (w\<lparr>osIo := as\<rparr>) = os_clock w"
  by (simp_all add: os_clock_def)

lemma os_rest_clock: "os_rest w = os_rest w' \<Longrightarrow> os_clock w = os_clock w'"
  by (simp add: os_rest_def os_clock_def)

lemma os_clock_io [frame_simps]: "os_io w = (a, w') \<Longrightarrow> os_clock w' = os_clock w"
  by (auto simp: os_io_def split: list.splits)

lemma os_clock_calls [frame_simps]:
  "os_time w = (t, w') \<Longrightarrow> os_clock w' = os_clock w"
  "os_clock (os_put p c w) = os_clock w"
  "os_fopen_rb p w = (c', w') \<Longrightarrow> os_clock w' = os_clock w"
  "os_clock (os_remove p w) = os_clock w"
  "os_rename p q w = (b, w') \<Longrightarrow> os_clock w' = os_clock w"
  "os_list_directory p w = (l, w') \<Longrightarrow> os_clock w' = os_clock w"
  by (auto simp: os_time_def os_put_def os_fopen_rb_def os_remove_def frame_simps
      os_rename_def os_list_directory_def split: io_answer.splits option.splits prod.splits)

end
