(* ===== verification/NetSocket.thy ===== *)
theory NetSocket imports NetOs
begin

text \<open>
  \<open>NetNatsueSocket\<close>: the non-blocking client socket with its input and output buffers, one
  definition per method, as the non-Windows build compiles them.  A method takes the socket
  and the system and returns its result with both.

  The lemmas: the bytes handed to the kernel and the output buffer together are always what was
  written, in order; the input buffer grows by exactly what the kernel delivered; a
  descriptor is open exactly while the socket is connecting or connected.  The interface
  \<open>transport\<close> states what a client of \<open>Write\<close> may rely on.
\<close>

section \<open>State\<close>

datatype sock_state = STATE_CLOSED | STATE_RESOLVING | STATE_CONNECTING | STATE_CONNECTED | STATE_FAILED

record nnsock =
  myHandle :: "nat option"
  myState :: sock_state
  myInput :: "byte list"
  myOutput :: "byte list"
  myBytesSent :: cint
  myBytesReceived :: cint
  myLastSystemError :: cint

definition NetNatsueSocket_new :: nnsock where
  "NetNatsueSocket_new = \<lparr>myHandle = None, myState = STATE_CLOSED, myInput = [], myOutput = [],
     myBytesSent = 0, myBytesReceived = 0, myLastSystemError = 0\<rparr>"

definition IsConnected :: "nnsock \<Rightarrow> bool" where
  "IsConnected s \<longleftrightarrow> myState s = STATE_CONNECTED"

definition InputSize :: "nnsock \<Rightarrow> cint" where
  "InputSize s = of_nat (length (myInput s))"

section \<open>Methods\<close>

definition Close :: "nnsock \<Rightarrow> os \<Rightarrow> nnsock \<times> os" where
  "Close s w =
     (let w = (case myHandle s of Some fd \<Rightarrow> os_close fd w | None \<Rightarrow> w)
      in (s\<lparr>myHandle := None, myState := STATE_CLOSED, myOutput := []\<rparr>, w))"

definition BeginConnect :: "string \<Rightarrow> cint \<Rightarrow> nnsock \<Rightarrow> os \<Rightarrow> bool \<times> nnsock \<times> os" where
  "BeginConnect host port s w =
     (let (s, w) = Close s w;
          (answer, w) = os_connect_answer w
      in (case answer of
        HostUnknown e \<Rightarrow> (False, s\<lparr>myState := STATE_FAILED, myLastSystemError := e\<rparr>, w)
      | NoSocket e \<Rightarrow> (False, s\<lparr>myState := STATE_FAILED, myLastSystemError := e\<rparr>, w)
      | _ \<Rightarrow>
        (let (fd, w) = os_socket w;
             s = s\<lparr>myHandle := Some fd\<rparr>
         in (case answer of
          NoNonBlocking e \<Rightarrow>
            (let s = s\<lparr>myLastSystemError := e\<rparr>;
                 (s, w) = Close s w
             in (False, s\<lparr>myState := STATE_FAILED\<rparr>, w))
        | _ \<Rightarrow>
          (let s = s\<lparr>myInput := [], myOutput := []\<rparr>;
               w = os_dial host port w
           in (case answer of
            ConnectError e \<Rightarrow>
              (if e = NN_EINPROGRESS \<or> e = NN_EWOULDBLOCK
               then (True, s\<lparr>myState := STATE_CONNECTING\<rparr>, w)
               else let s = s\<lparr>myLastSystemError := e\<rparr>;
                        (s, w) = Close s w
                    in (False, s\<lparr>myState := STATE_FAILED\<rparr>, w))
          | _ \<Rightarrow> (True, s\<lparr>myState := STATE_CONNECTED\<rparr>, w)))))))"

definition PumpConnect :: "nnsock \<Rightarrow> os \<Rightarrow> sock_state \<times> nnsock \<times> os" where
  "PumpConnect s w =
     (if myState s \<noteq> STATE_CONNECTING then (myState s, s, w)
      else let (a, w) = os_select w in
        if sel_result a < 0 then
          let (s, w) = Close (s\<lparr>myLastSystemError := sel_errno a\<rparr>) w
          in (STATE_FAILED, s\<lparr>myState := STATE_FAILED\<rparr>, w)
        else if sel_result a = 0 then (myState s, s, w)
        else if sel_in_error_set a \<or> sel_so_error a \<noteq> 0 then
          let s = s\<lparr>myLastSystemError := (if sel_so_error a \<noteq> 0 then sel_so_error a else sel_errno a)\<rparr>;
              (s, w) = Close s w
          in (STATE_FAILED, s\<lparr>myState := STATE_FAILED\<rparr>, w)
        else let s = (if sel_in_write_set a then s\<lparr>myState := STATE_CONNECTED\<rparr> else s)
             in (myState s, s, w))"

text \<open>The destructor.\<close>

definition NetNatsueSocket_destroy :: "nnsock \<Rightarrow> os \<Rightarrow> os" where
  "NetNatsueSocket_destroy s w = snd (Close s w)"

text \<open>Every pass that goes round again has handed at least one byte of the buffer to the kernel.\<close>

function FlushOutput_loop :: "nnsock \<Rightarrow> os \<Rightarrow> bool \<times> nnsock \<times> os" where
  "FlushOutput_loop s w =
     (if myOutput s = [] then (True, s, w)
      else case os_send (myOutput s) w of (sent, err, w) \<Rightarrow>
        if sent > 0 then
          FlushOutput_loop (s\<lparr>myBytesSent := myBytesSent s + of_nat sent,
                             myOutput := drop sent (myOutput s)\<rparr>) w
        else if err = NN_EWOULDBLOCK \<or> err = NN_EINTR then (True, s, w)
        else let (s, w) = Close (s\<lparr>myLastSystemError := err\<rparr>) w in (False, s, w))"
  by pat_completeness auto
termination
  by (relation "measure (\<lambda>(s, w). length (myOutput s))") auto

definition FlushOutput :: "nnsock \<Rightarrow> os \<Rightarrow> bool \<times> nnsock \<times> os" where
  "FlushOutput s w = (if myState s \<noteq> STATE_CONNECTED then (False, s, w) else FlushOutput_loop s w)"

text \<open>
  The size a caller passes is that of its block, which is less than 2^31 bytes, so the guard
  against a negative size is never taken.
\<close>

definition Write :: "byte list \<Rightarrow> nnsock \<Rightarrow> os \<Rightarrow> bool \<times> nnsock \<times> os" where
  "Write data s w =
     (if myState s \<noteq> STATE_CONNECTED then (False, s, w)
      else if data = [] then (True, s, w)
      else FlushOutput (s\<lparr>myOutput := myOutput s @ data\<rparr>) w)"

function ReadInput_loop :: "nnsock \<Rightarrow> os \<Rightarrow> bool \<times> nnsock \<times> os" where
  "ReadInput_loop s w =
     (case os_recv 4096 w of (answer, w') \<Rightarrow>
       (case answer of
          Received chunk \<Rightarrow>
            if chunk \<noteq> [] then
              ReadInput_loop (s\<lparr>myBytesReceived := myBytesReceived s + of_nat (length chunk),
                               myInput := myInput s @ chunk\<rparr>) w'
            else let (s, w') = Close s w' in (False, s, w')
        | RecvError err \<Rightarrow>
            if err = NN_EWOULDBLOCK \<or> err = NN_EINTR then (True, s, w')
            else let (s, w') = Close (s\<lparr>myLastSystemError := err\<rparr>) w' in (False, s, w')))"
  by pat_completeness auto
termination
  by (relation "measure (\<lambda>(s, w). recv_measure w)") (auto dest: os_recv_measure [OF sym])

definition ReadInput :: "nnsock \<Rightarrow> os \<Rightarrow> bool \<times> nnsock \<times> os" where
  "ReadInput s w = (if myState s \<noteq> STATE_CONNECTED then (False, s, w) else ReadInput_loop s w)"

definition SocketPump :: "nnsock \<Rightarrow> os \<Rightarrow> bool \<times> nnsock \<times> os" where
  "SocketPump s w =
     (if myState s = STATE_CONNECTING then
        let (_, s, w) = PumpConnect s w
        in (myState s = STATE_CONNECTING \<or> myState s = STATE_CONNECTED, s, w)
      else if myState s \<noteq> STATE_CONNECTED then (False, s, w)
      else let (ok, s, w) = FlushOutput s w
           in if \<not> ok then (False, s, w) else ReadInput s w)"

definition WaitReadable :: "nnsock \<Rightarrow> os \<Rightarrow> bool \<times> os" where
  "WaitReadable s w = (if myState s \<noteq> STATE_CONNECTED then (False, w) else os_wait w)"

definition ConsumeInput :: "cint \<Rightarrow> nnsock \<Rightarrow> nnsock" where
  "ConsumeInput bytes s =
     (if sint bytes \<le> 0 then s
      else if sint bytes \<ge> sint (InputSize s) then s\<lparr>myInput := []\<rparr>
      else s\<lparr>myInput := drop (nat (sint bytes)) (myInput s)\<rparr>)"

declare FlushOutput_loop.simps [simp del] ReadInput_loop.simps [simp del]

section \<open>The output stream\<close>

text \<open>Everything accepted for sending: what the kernel has, then what is still buffered.\<close>

definition written :: "nnsock \<Rightarrow> os \<Rightarrow> byte list" where
  "written s w = osWire w @ myOutput s"

definition released :: "nnsock \<Rightarrow> os \<Rightarrow> nat list" where
  "released s w = filter (\<lambda>fd. myHandle s \<noteq> Some fd) (osFds w)"

lemma released_cong: "myHandle s = myHandle s' \<Longrightarrow> osFds w = osFds w' \<Longrightarrow> released s w = released s' w'"
  by (simp add: released_def)

lemma os_close_fields [simp]:
  "osWire (os_close fd w) = osWire w" "osRecvs (os_close fd w) = osRecvs w"
  "osNextFd (os_close fd w) = osNextFd w" "osFds (os_close fd w) = removeAll fd (osFds w)"
  by (simp_all add: os_close_def)

lemma Close_fields:
  "Close s w = (s', w') \<Longrightarrow> myState s' = STATE_CLOSED \<and> myHandle s' = None \<and> myOutput s' = []
     \<and> myInput s' = myInput s \<and> myLastSystemError s' = myLastSystemError s
     \<and> myBytesSent s' = myBytesSent s \<and> myBytesReceived s' = myBytesReceived s
     \<and> osWire w' = osWire w \<and> osRecvs w' = osRecvs w \<and> osNextFd w' = osNextFd w
     \<and> osFds w' = released s w
     \<and> os_rest w' = os_rest w"
  by (auto simp: Close_def Let_def frame_simps released_def removeAll_filter_not_eq intro!: filter_cong split: option.splits)

text \<open>
  A flush that succeeds leaves the stream as it was and the socket connected; one that fails
  closes the socket, and the kernel has a prefix of the stream.
\<close>

lemma FlushOutput_loop_spec:
  "FlushOutput_loop s w = (ok, s', w') \<Longrightarrow>
     myInput s' = myInput s \<and> osRecvs w' = osRecvs w \<and> os_rest w' = os_rest w
     \<and> (\<exists>k. osWire w' = osWire w @ take k (myOutput s))
     \<and> (if ok then written s' w' = written s w \<and> myState s' = myState s \<and> myHandle s' = myHandle s
          \<and> osFds w' = osFds w \<and> osNextFd w' = osNextFd w
        else myState s' = STATE_CLOSED \<and> myHandle s' = None \<and> myOutput s' = []
          \<and> osNextFd w' = osNextFd w
          \<and> osFds w' = released s w)"
proof (induction s w arbitrary: ok s' w' rule: FlushOutput_loop.induct)
  case (1 s w)
  show ?case
  proof (cases "myOutput s = []")
    case True
    with 1(2) show ?thesis by (auto simp: FlushOutput_loop.simps [of s w] intro: exI [of _ 0])
  next
    case False
    obtain sent err v where snd: "os_send (myOutput s) w = (sent, err, v)"
      by (metis prod_cases3)
    note st = os_send_stream [OF snd]
    have fr: "osRecvs v = osRecvs w \<and> os_rest v = os_rest w \<and> osFds v = osFds w \<and> osNextFd v = osNextFd w"
      using snd by (auto simp: os_send_def os_rest_def split: list.splits send_answer.splits)
    show ?thesis
    proof (cases "sent > 0")
      case True
      let ?s = "s\<lparr>myBytesSent := myBytesSent s + of_nat sent, myOutput := drop sent (myOutput s)\<rparr>"
      have "FlushOutput_loop ?s v = (ok, s', w')"
        using 1(2) False True by (simp add: FlushOutput_loop.simps [of s w] snd)
      note ih = 1(1) [OF False snd [symmetric] refl True this]
      then obtain k where "osWire w' = osWire v @ take k (drop sent (myOutput s))" by auto
      with st have "osWire w' = osWire w @ take (sent + k) (myOutput s)"
        by (simp add: take_add)
      with ih st fr released_cong [of ?s s v w] show ?thesis
        by (auto simp: written_def)
    next
      case False
      then have t0: "osWire v = osWire w" using st by simp
      show ?thesis
      proof (cases "err = NN_EWOULDBLOCK \<or> err = NN_EINTR")
        case True
        with 1(2) False \<open>myOutput s \<noteq> []\<close> t0 fr show ?thesis
          by (auto simp: FlushOutput_loop.simps [of s w] snd written_def intro: exI [of _ 0])
      next
        case err: False
        obtain s1 w1 where c: "Close (s\<lparr>myLastSystemError := err\<rparr>) v = (s1, w1)" by fastforce
        with 1(2) False err \<open>myOutput s \<noteq> []\<close> have "ok = False" "s' = s1" "w' = w1"
          by (auto simp: FlushOutput_loop.simps [of s w] snd)
        with Close_fields [OF c] t0 fr released_cong [of "s\<lparr>myLastSystemError := err\<rparr>" s v w] show ?thesis
          by (auto intro: exI [of _ 0])
      qed
    qed
  qed
qed

lemma Write_spec:
  assumes "Write data s w = (ok, s', w')"
  shows "myInput s' = myInput s \<and> osRecvs w' = osRecvs w \<and> os_rest w' = os_rest w
     \<and> (\<exists>k. osWire w' = osWire w @ take k (myOutput s @ data))
     \<and> (if ok then written s' w' = written s w @ data \<and> myState s' = STATE_CONNECTED
          \<and> myState s = STATE_CONNECTED \<and> myHandle s' = myHandle s
          \<and> osFds w' = osFds w \<and> osNextFd w' = osNextFd w
        else myState s' \<noteq> STATE_CONNECTED \<and> (s' = s \<and> w' = w
          \<or> myState s' = STATE_CLOSED \<and> myHandle s' = None \<and> myOutput s' = [] \<and> osNextFd w' = osNextFd w
          \<and> osFds w' = released s w))"
proof (cases "myState s = STATE_CONNECTED \<and> data \<noteq> []")
  case True
  with assms have "FlushOutput_loop (s\<lparr>myOutput := myOutput s @ data\<rparr>) w = (ok, s', w')"
    by (simp add: Write_def FlushOutput_def)
  from FlushOutput_loop_spec [OF this] True
    released_cong [of "s\<lparr>myOutput := myOutput s @ data\<rparr>" s w w] show ?thesis
    by (auto simp: written_def)
next
  case False
  with assms show ?thesis
    by (auto simp: Write_def written_def intro: exI [of _ 0] split: if_splits)
qed

section \<open>The input stream\<close>

text \<open>
  A read moves bytes from the kernel's queue to the end of the input buffer, none lost and
  none out of order, whether the connection survives it or not.
\<close>

lemma os_recv_frame:
  "os_recv n w = (a, w') \<Longrightarrow> osWire w' = osWire w \<and> osFds w' = osFds w \<and> osNextFd w' = osNextFd w
     \<and> os_rest w' = os_rest w"
  by (auto simp: os_recv_def os_rest_def split: list.splits recv_answer.splits if_splits)

lemma ReadInput_loop_spec:
  "ReadInput_loop s w = (ok, s', w') \<Longrightarrow>
     (\<exists>got. myInput s' = myInput s @ got \<and> os_incoming w = got @ os_incoming w')
     \<and> osWire w' = osWire w \<and> os_rest w' = os_rest w \<and> osNextFd w' = osNextFd w
     \<and> (if ok then myState s' = myState s \<and> myHandle s' = myHandle s \<and> myOutput s' = myOutput s
          \<and> osFds w' = osFds w
        else myState s' = STATE_CLOSED \<and> myHandle s' = None \<and> myOutput s' = []
          \<and> osFds w' = released s w)"
proof (induction s w arbitrary: ok s' w' rule: ReadInput_loop.induct)
  case (1 s w)
  obtain a v where rcv: "os_recv 4096 w = (a, v)" by fastforce
  note inc = os_recv_incoming [OF rcv] and fr = os_recv_frame [OF rcv]
  have incom: "os_incoming x = os_incoming y" if "osRecvs x = osRecvs y" for x y
    using that by (simp add: os_incoming_def)
  show ?case
  proof (cases a)
    case (Received chunk)
    show ?thesis
    proof (cases "chunk = []")
      case True
      obtain s1 w1 where c: "Close s v = (s1, w1)" by fastforce
      with 1(2) Received True rcv have "ok = False" "s' = s1" "w' = w1"
        by (auto simp: ReadInput_loop.simps [of s w])
      with Close_fields [OF c] fr inc Received True incom [of w1 v] released_cong [of s s v w] show ?thesis
        by (auto intro: exI [of _ "[]"])
    next
      case False
      let ?s = "s\<lparr>myBytesReceived := myBytesReceived s + of_nat (length chunk), myInput := myInput s @ chunk\<rparr>"
      have "ReadInput_loop ?s v = (ok, s', w')"
        using 1(2) False Received rcv by (simp add: ReadInput_loop.simps [of s w])
      note ih = 1(1) [OF rcv [symmetric] Received False this]
      then obtain got where "myInput s' = (myInput s @ chunk) @ got" "os_incoming v = got @ os_incoming w'"
        by auto
      with inc Received have "myInput s' = myInput s @ (chunk @ got)" "os_incoming w = (chunk @ got) @ os_incoming w'"
        by auto
      with ih fr released_cong [of ?s s v w] show ?thesis by (auto simp: exI)
    qed
  next
    case (RecvError err)
    show ?thesis
    proof (cases "err = NN_EWOULDBLOCK \<or> err = NN_EINTR")
      case True
      with 1(2) RecvError rcv fr inc show ?thesis
        by (auto simp: ReadInput_loop.simps [of s w] intro: exI [of _ "[]"])
    next
      case False
      obtain s1 w1 where c: "Close (s\<lparr>myLastSystemError := err\<rparr>) v = (s1, w1)" by fastforce
      with 1(2) RecvError False rcv have "ok = False" "s' = s1" "w' = w1"
        by (auto simp: ReadInput_loop.simps [of s w])
      with Close_fields [OF c] fr inc RecvError incom [of w1 v]
        released_cong [of "s\<lparr>myLastSystemError := err\<rparr>" s v w] show ?thesis
        by (auto intro: exI [of _ "[]"])
    qed
  qed
qed

section \<open>Descriptors\<close>

text \<open>
  The system holds open exactly the socket's own descriptor, which exists while it is
  connecting or connected, and nothing is buffered for output otherwise.
\<close>

definition sock_ok :: "nnsock \<Rightarrow> os \<Rightarrow> bool" where
  "sock_ok s w \<longleftrightarrow> osFds w = (case myHandle s of None \<Rightarrow> [] | Some fd \<Rightarrow> [fd])
     \<and> (myHandle s \<noteq> None \<longleftrightarrow> myState s = STATE_CONNECTING \<or> myState s = STATE_CONNECTED)
     \<and> (myState s \<noteq> STATE_CONNECTED \<longrightarrow> myOutput s = [])"

lemma sock_ok_closed:
  "sock_ok s w \<Longrightarrow> myHandle s' = None \<Longrightarrow> myState s' \<noteq> STATE_CONNECTING \<Longrightarrow> myState s' \<noteq> STATE_CONNECTED
   \<Longrightarrow> myOutput s' = [] \<Longrightarrow> osFds w' = released s w
   \<Longrightarrow> sock_ok s' w'"
  by (auto simp: sock_ok_def released_def split: option.splits)

lemma sock_ok_same:
  "sock_ok s w \<Longrightarrow> myHandle s' = myHandle s \<Longrightarrow> myState s' = myState s \<Longrightarrow> myState s = STATE_CONNECTED
   \<Longrightarrow> osFds w' = osFds w \<Longrightarrow> sock_ok s' w'"
  by (auto simp: sock_ok_def)

lemma sock_ok_new: "osFds w = [] \<Longrightarrow> sock_ok NetNatsueSocket_new w"
  by (simp add: sock_ok_def NetNatsueSocket_new_def)

lemma sock_ok_Close: "sock_ok s w \<Longrightarrow> Close s w = (s', w') \<Longrightarrow> sock_ok s' w'"
  by (rule sock_ok_closed) (auto dest: Close_fields)

lemma sock_ok_Write: "sock_ok s w \<Longrightarrow> Write data s w = (ok, s', w') \<Longrightarrow> sock_ok s' w'"
  using Write_spec [of data s w ok s' w'] sock_ok_closed [of s w s' w'] sock_ok_same [of s w s' w']
  by (cases ok) auto

lemma sock_ok_FlushOutput: "sock_ok s w \<Longrightarrow> FlushOutput s w = (ok, s', w') \<Longrightarrow> sock_ok s' w'"
  using FlushOutput_loop_spec [of s w ok s' w'] sock_ok_closed [of s w s' w'] sock_ok_same [of s w s' w']
  by (cases ok) (auto simp: FlushOutput_def split: if_splits)

lemma sock_ok_ReadInput: "sock_ok s w \<Longrightarrow> ReadInput s w = (ok, s', w') \<Longrightarrow> sock_ok s' w'"
  using ReadInput_loop_spec [of s w ok s' w'] sock_ok_closed [of s w s' w'] sock_ok_same [of s w s' w']
  by (cases ok) (auto simp: ReadInput_def split: if_splits)

lemma sock_ok_PumpConnect: "sock_ok s w \<Longrightarrow> PumpConnect s w = (st, s', w') \<Longrightarrow> sock_ok s' w'"
  by (auto simp: PumpConnect_def sock_ok_def Close_def os_select_def os_close_def Let_def
      split: if_splits list.splits option.splits prod.splits)

lemma sock_ok_BeginConnect: "sock_ok s w \<Longrightarrow> BeginConnect host port s w = (ok, s', w') \<Longrightarrow> sock_ok s' w'"
  by (auto simp: BeginConnect_def sock_ok_def Close_def os_connect_answer_def os_socket_def os_dial_def
      os_close_def Let_def split: if_splits list.splits option.splits prod.splits connect_answer.splits)

lemma sock_ok_SocketPump: "sock_ok s w \<Longrightarrow> SocketPump s w = (ok, s', w') \<Longrightarrow> sock_ok s' w'"
  by (auto simp: SocketPump_def Let_def
      dest: sock_ok_PumpConnect sock_ok_FlushOutput sock_ok_ReadInput split: if_splits prod.splits)

section \<open>What a writer relies on\<close>

text \<open>
  \<open>transport\<close> is the part of the socket that a sender of packets uses: a write that succeeds
  puts its bytes, and only them, at the end of the stream and leaves the line up; after a
  failed write the line is down.  A sender that stops at the first failure has therefore
  either sent everything in order, or lost the line.
\<close>

fun write_all :: "(byte list \<Rightarrow> 's \<Rightarrow> bool \<times> 's) \<Rightarrow> byte list list \<Rightarrow> 's \<Rightarrow> bool \<times> 's" where
  "write_all put [] s = (True, s)"
| "write_all put (p # ps) s = (case put p s of
     (ok, s) \<Rightarrow> if ok then write_all put ps s else (False, s))"

locale transport =
  fixes put :: "byte list \<Rightarrow> 's \<Rightarrow> bool \<times> 's"
    and up :: "'s \<Rightarrow> bool"
    and stream :: "'s \<Rightarrow> byte list"
  assumes write_True: "put data s = (True, s') \<Longrightarrow> up s \<and> up s' \<and> stream s' = stream s @ data"
    and write_False: "put data s = (False, s') \<Longrightarrow> \<not> up s'"
begin

lemma write_down: "\<not> up s \<Longrightarrow> fst (put data s) = False"
  using write_True [of data s] by (cases "put data s") auto

lemma write_all_True:
  "write_all put ps s = (True, s') \<Longrightarrow> stream s' = stream s @ concat ps \<and> (up s \<longrightarrow> up s')"
  by (induction ps arbitrary: s) (auto dest!: write_True split: prod.splits if_splits)

lemma write_all_False: "write_all put ps s = (False, s') \<Longrightarrow> \<not> up s'"
  by (induction ps arbitrary: s) (auto dest: write_False split: prod.splits if_splits)

lemma write_all_up:
  "write_all put ps s = (ok, s') \<Longrightarrow> up s' \<Longrightarrow> ok \<and> stream s' = stream s @ concat ps"
  using write_all_True [of ps s s'] write_all_False [of ps s s'] by (cases ok) auto

end

definition Write_at :: "byte list \<Rightarrow> nnsock \<times> os \<Rightarrow> bool \<times> nnsock \<times> os" where
  "Write_at data sw = Write data (fst sw) (snd sw)"

interpretation socket_transport: transport Write_at "\<lambda>sw. IsConnected (fst sw)" "\<lambda>sw. written (fst sw) (snd sw)"
  by unfold_locales (auto simp: Write_at_def IsConnected_def dest!: Write_spec)

section \<open>Properties\<close>

text \<open>C24: However often a send is cut short, and wherever the connection breaks, the kernel has been
  handed a prefix of what was written, in order; while the connection holds, nothing is missing
  between the kernel and the output buffer.\<close>

theorem output_in_order:
  assumes "write_all Write_at ps (s, w) = (ok, s', w')"
  shows "(\<exists>rest. written s w @ concat ps = osWire w' @ rest)
    \<and> (if ok then written s' w' = written s w @ concat ps else \<not> IsConnected s')"
proof -
  have "\<exists>rest. written s w @ concat ps = osWire w' @ rest"
    using assms
  proof (induction ps arbitrary: s w)
    case Nil
    then show ?case by (auto simp: written_def)
  next
    case (Cons p ps)
    obtain ok1 s1 w1 where p: "Write p s w = (ok1, s1, w1)" by (metis prod_cases3)
    have at: "Write_at p (s, w) = (ok1, s1, w1)" using p by (simp add: Write_at_def)
    note sp = Write_spec [OF p]
    show ?case
    proof (cases ok1)
      case True
      then have "write_all Write_at ps (s1, w1) = (ok, s', w')" using Cons.prems at by simp
      from Cons.IH [OF this] obtain rest where "written s1 w1 @ concat ps = osWire w' @ rest" by blast
      moreover have "written s1 w1 = written s w @ p" using sp True by simp
      ultimately show ?thesis by (intro exI [of _ rest]) simp
    next
      case False
      then have "w' = w1" using Cons.prems at by simp
      moreover obtain k where "osWire w1 = osWire w @ take k (myOutput s @ p)" using sp by blast
      moreover have "written s w @ concat (p # ps) = osWire w @ (take k (myOutput s @ p) @ drop k (myOutput s @ p)) @ concat ps"
        unfolding append_take_drop_id by (simp add: written_def)
      ultimately have "written s w @ concat (p # ps) = osWire w' @ drop k (myOutput s @ p) @ concat ps"
        by (simp del: take_append drop_append)
      then show ?thesis ..
    qed
  qed
  then show ?thesis
    using socket_transport.write_all_True [of ps "(s, w)" "(s', w')"]
      socket_transport.write_all_False [of ps "(s, w)" "(s', w')"] assms by (cases ok) auto
qed

definition example_system :: os where
  "example_system = \<lparr>osClock = (\<lambda>i. of_nat (min i 40) * 1000), osClockReads = 0, osTime = (\<lambda>_. 0), osTimeReads = 0,
     osConnects = [], osDialled = [], osSelects = [], osSends = [], osWire = [], osRecvs = [], osWaits = [],
     osFds = [3], osNextFd = 4, osFiles = [], osIo = []\<rparr>"

definition example_socket :: nnsock where
  "example_socket = NetNatsueSocket_new\<lparr>myHandle := Some 3, myState := STATE_CONNECTED\<rparr>"

theorem output_in_order_witness:
  "let w = example_system\<lparr>osSends := [SendAnswer 2 0, SendAnswer 0 NN_EWOULDBLOCK, SendAnswer 9 0]\<rparr>;
       s' = example_socket\<lparr>myBytesSent := 6, myOutput := []\<rparr>;
       w' = w\<lparr>osSends := [], osWire := ''abcdef''\<rparr> in
   (\<exists>rest. written example_socket w @ concat [''abc'', ''def''] = osWire w' @ rest)
    \<and> (if True then written s' w' = written example_socket w @ concat [''abc'', ''def''] else \<not> IsConnected s')"
  unfolding Let_def
  by (rule output_in_order)
    (simp add: Write_at_def Write_def FlushOutput_def FlushOutput_loop.simps os_send_def example_system_def
      example_socket_def NetNatsueSocket_new_def consts_simps)

text \<open>C25: A pump moves the bytes the kernel holds for us to the end of the input buffer: what is
  buffered followed by what is still to come does not change, whether the connection survives.\<close>

theorem input_in_order:
  "case SocketPump s w of (alive, s', w') \<Rightarrow>
     myInput s' @ os_incoming w' = myInput s @ os_incoming w \<and> (\<exists>k. osWire w' = osWire w @ take k (myOutput s))"
proof -
  have i: "os_incoming x = os_incoming y" if "osRecvs x = osRecvs y" for x y
    using that by (simp add: os_incoming_def)
  have p: "myInput s' = myInput s \<and> osRecvs w' = osRecvs w \<and> osWire w' = osWire w" if "PumpConnect s w = (st, s', w')" for st s' w'
    using that by (auto simp: PumpConnect_def Close_def os_select_def os_close_def Let_def
        split: if_splits list.splits option.splits prod.splits)
  show ?thesis
  proof (cases "IsConnected s")
    case False
    obtain st s1 w1 where c: "PumpConnect s w = (st, s1, w1)" by (metis prod_cases3)
    have "SocketPump s w = (if myState s = STATE_CONNECTING
        then (myState s1 = STATE_CONNECTING \<or> myState s1 = STATE_CONNECTED, s1, w1) else (False, s, w))"
      using False c by (simp add: SocketPump_def IsConnected_def)
    then show ?thesis using p [OF c] i [of w1 w] by (cases "myState s = STATE_CONNECTING") (simp_all add: exI [of _ 0])
  next
    case True
    obtain ok s1 w1 where f: "FlushOutput_loop s w = (ok, s1, w1)" by (metis prod_cases3)
    obtain al s2 w2 where r: "ReadInput_loop s1 w1 = (al, s2, w2)" by (metis prod_cases3)
    have "SocketPump s w = (if ok then (al, s2, w2) else (False, s1, w1))"
      using True f r FlushOutput_loop_spec [OF f]
      by (auto simp: SocketPump_def IsConnected_def FlushOutput_def ReadInput_def)
    moreover note FlushOutput_loop_spec [OF f] ReadInput_loop_spec [OF r] i [of w1 w]
    ultimately show ?thesis by (cases ok) auto
  qed
qed

text \<open>The methods a client may call on a socket, in any order.\<close>

datatype sock_call = CallClose | CallBeginConnect string cint | CallPumpConnect | CallFlushOutput
  | CallWrite "byte list" | CallReadInput | CallPump | CallConsumeInput cint

fun sock_do :: "sock_call \<Rightarrow> nnsock \<times> os \<Rightarrow> nnsock \<times> os" where
  "sock_do CallClose (s, w) = Close s w"
| "sock_do (CallBeginConnect host port) (s, w) = snd (BeginConnect host port s w)"
| "sock_do CallPumpConnect (s, w) = snd (PumpConnect s w)"
| "sock_do CallFlushOutput (s, w) = snd (FlushOutput s w)"
| "sock_do (CallWrite data) (s, w) = snd (Write data s w)"
| "sock_do CallReadInput (s, w) = snd (ReadInput s w)"
| "sock_do CallPump (s, w) = snd (SocketPump s w)"
| "sock_do (CallConsumeInput n) (s, w) = (ConsumeInput n s, w)"

lemma snd_eqD: "snd x = y \<Longrightarrow> \<exists>r. x = (r, y)"
  by (cases x) simp

lemma ConsumeInput_frame: "ConsumeInput n s = s\<lparr>myInput := myInput (ConsumeInput n s)\<rparr>"
  by (simp add: ConsumeInput_def)

lemma sock_ok_do:
  assumes "sock_ok s w" "sock_do c (s, w) = (s', w')"
  shows "sock_ok s' w'"
proof (cases c)
  case (CallConsumeInput n)
  then have w: "w' = w" "s' = ConsumeInput n s" using assms(2) by auto
  have "sock_ok (ConsumeInput n s) w" by (subst ConsumeInput_frame) (use assms(1) in \<open>simp add: sock_ok_def\<close>)
  then show ?thesis using w by simp
qed (use assms in \<open>auto intro: sock_ok_Close sock_ok_BeginConnect sock_ok_PumpConnect sock_ok_FlushOutput
    sock_ok_Write sock_ok_ReadInput sock_ok_SocketPump dest!: snd_eqD\<close>)

text \<open>C26: Whatever methods are called in whatever order, no descriptor leaks and none is used after
  it was closed: the system holds open exactly the socket's own, and it has one exactly while
  connecting or connected.\<close>

theorem one_descriptor:
  assumes "osFds w = []" "fold sock_do calls (NetNatsueSocket_new, w) = (s', w')"
  shows "osFds w' = (case myHandle s' of None \<Rightarrow> [] | Some fd \<Rightarrow> [fd])
    \<and> (myHandle s' \<noteq> None \<longleftrightarrow> myState s' = STATE_CONNECTING \<or> myState s' = STATE_CONNECTED)"
proof -
  have "sock_ok s' w'" if "sock_ok s w" "fold sock_do calls (s, w) = (s', w')" for s w
    using that
  proof (induction calls arbitrary: s w)
    case (Cons c calls)
    obtain s1 w1 where c: "sock_do c (s, w) = (s1, w1)" by fastforce
    then show ?case using Cons.IH [OF sock_ok_do [OF Cons.prems(1) c]] Cons.prems(2) by simp
  qed simp
  then show ?thesis using sock_ok_new [OF assms(1)] assms(2) by (simp add: sock_ok_def)
qed

theorem one_descriptor_witness:
  "let w = example_system\<lparr>osFds := [], osConnects := [ConnectedAtOnce, ConnectedAtOnce]\<rparr>;
       run = fold sock_do [CallBeginConnect ''heart'' 49152, CallBeginConnect ''heart'' 49152] (NetNatsueSocket_new, w) in
   osFds (snd run) = [5] \<and> myHandle (fst run) = Some 5 \<and> IsConnected (fst run)"
proof -
  let ?w = "example_system\<lparr>osFds := [], osConnects := [ConnectedAtOnce, ConnectedAtOnce]\<rparr>"
  let ?run = "fold sock_do [CallBeginConnect ''heart'' 49152, CallBeginConnect ''heart'' 49152] (NetNatsueSocket_new, ?w)"
  have st: "myState (fst ?run) = STATE_CONNECTED" "myHandle (fst ?run) = Some 5"
    by (simp_all add: BeginConnect_def Close_def os_connect_answer_def os_socket_def os_dial_def os_close_def Let_def
        example_system_def NetNatsueSocket_new_def)
  have "osFds (snd ?run) = (case myHandle (fst ?run) of None \<Rightarrow> [] | Some fd \<Rightarrow> [fd])"
    using one_descriptor [where w = ?w and calls = "[CallBeginConnect ''heart'' 49152, CallBeginConnect ''heart'' 49152]"
        and s' = "fst ?run" and w' = "snd ?run"] by (simp add: example_system_def)
  then show ?thesis using st by (simp add: Let_def IsConnected_def)
qed

end
