(* ===== verification/NetUin.thy ===== *)
theory NetUin imports NetPrelude
begin

text \<open>
  The operations of \<open>std::string\<close> and of the C library that the code uses on text
  (\<open>find\<close>, \<open>rfind\<close>, \<open>find_last_of\<close>, \<open>substr\<close>, \<open>sprintf\<close> with \<open>%d\<close> and \<open>%u\<close>, \<open>atoi\<close>), and
  \<open>BabelUIN\<close> of \<open>NetNatsueProtocol\<close>: the user identity and its text form \<open>uid+hid\<close>.

  The lemmas say that the text form is injective, fits the 32 byte buffer it is printed to,
  and is read back unchanged when both halves are non-negative.
\<close>

section \<open>Strings\<close>

definition find_char :: "char \<Rightarrow> string \<Rightarrow> nat option" where
  "find_char c s = (if c \<in> set s then Some (length (takeWhile (\<lambda>x. x \<noteq> c) s)) else None)"

definition rfind_char :: "char \<Rightarrow> string \<Rightarrow> nat option" where
  "rfind_char c s = (if c \<in> set s then Some (length s - 1 - length (takeWhile (\<lambda>x. x \<noteq> c) (rev s))) else None)"

definition find_last_of :: "string \<Rightarrow> string \<Rightarrow> nat option" where
  "find_last_of cs s = (if \<exists>c\<in>set cs. c \<in> set s
     then Some (length s - 1 - length (takeWhile (\<lambda>x. x \<notin> set cs) (rev s))) else None)"

definition substr :: "string \<Rightarrow> nat \<Rightarrow> nat \<Rightarrow> string" where
  "substr s pos n = take n (drop pos s)"

lemma takeWhile_neq_append: "c \<notin> set a \<Longrightarrow> takeWhile (\<lambda>x. x \<noteq> c) (a @ c # b) = a"
  by (induction a) auto

lemma find_char_append: "c \<notin> set a \<Longrightarrow> find_char c (a @ c # b) = Some (length a)"
  by (simp add: find_char_def takeWhile_neq_append)

lemma find_char_SomeD:
  assumes "find_char c s = Some i"
  obtains a b where "s = a @ c # b" "c \<notin> set a" "i = length a"
proof -
  from assms have "c \<in> set s" by (simp add: find_char_def split: if_splits)
  then obtain a b where "s = a @ c # b" "c \<notin> set a"
    by (auto dest: split_list_first)
  with assms that show thesis by (simp add: find_char_append)
qed

lemma find_char_None: "c \<notin> set s \<Longrightarrow> find_char c s = None"
  by (simp add: find_char_def)

lemma rfind_char_append: "c \<notin> set b \<Longrightarrow> rfind_char c (a @ c # b) = Some (length a)"
proof -
  assume "c \<notin> set b"
  then have "takeWhile (\<lambda>x. x \<noteq> c) (rev b @ c # rev a) = rev b"
    by (intro takeWhile_neq_append) simp
  then show ?thesis by (simp add: rfind_char_def)
qed

lemma find_last_of_append:
  assumes "c \<in> set cs" and "set b \<inter> set cs = {}"
  shows "find_last_of cs (a @ c # b) = Some (length a)"
proof -
  have "takeWhile (\<lambda>x. x \<notin> set cs) (rev b @ c # rev a) = rev b"
    using assms by (subst takeWhile_append2) auto
  with assms(1) show ?thesis by (auto simp: find_last_of_def)
qed

section \<open>Decimal numbers\<close>

definition digit :: "nat \<Rightarrow> char" where
  "digit d = char_of (48 + d)"

definition is_digit :: "char \<Rightarrow> bool" where
  "is_digit c \<longleftrightarrow> 48 \<le> (of_char c :: nat) \<and> (of_char c :: nat) \<le> 57"

fun show_nat :: "nat \<Rightarrow> string" where
  "show_nat n = (if n < 10 then [digit n] else show_nat (n div 10) @ [digit (n mod 10)])"

declare show_nat.simps [simp del]

text \<open>\<open>%d\<close> and \<open>%u\<close>.\<close>

definition show_int :: "int \<Rightarrow> string" where
  "show_int i = (if i < 0 then ''-'' @ show_nat (nat (- i)) else show_nat (nat i))"

definition show_d :: "cint \<Rightarrow> string" where
  "show_d v = show_int (sint v)"

definition show_u :: "u32 \<Rightarrow> string" where
  "show_u v = show_nat (unat v)"

definition digits_value :: "string \<Rightarrow> nat" where
  "digits_value s = foldl (\<lambda>acc c. 10 * acc + (of_char c - 48)) 0 s"

text \<open>
  \<open>atoi\<close> of a run of digits, as the C library of a 64 bit Linux does it: \<open>strtol\<close> saturates
  at \<open>LONG_MAX\<close>, and the cast to \<open>int\<close> keeps the low 32 bits.
\<close>

definition atoi :: "string \<Rightarrow> cint" where
  "atoi s = of_nat (min (digits_value (takeWhile is_digit s)) (2 ^ 63 - 1))"

lemma of_char_digit: "d < 10 \<Longrightarrow> (of_char (digit d) :: nat) = 48 + d"
  by (simp add: digit_def)

lemma digit_eval:
  "digit 0 = CHR ''0''" "digit 1 = CHR ''1''" "digit (Suc 0) = CHR ''1''" "digit 2 = CHR ''2''" "digit 3 = CHR ''3''" "digit 4 = CHR ''4''"
  "digit 5 = CHR ''5''" "digit 6 = CHR ''6''" "digit 7 = CHR ''7''" "digit 8 = CHR ''8''" "digit 9 = CHR ''9''"
  by code_simp+

lemma is_digit_digit [simp]: "d < 10 \<Longrightarrow> is_digit (digit d)"
  by (simp add: is_digit_def of_char_digit)

lemma show_nat_digits: "c \<in> set (show_nat n) \<Longrightarrow> is_digit c"
proof (induction n rule: show_nat.induct)
  case (1 n)
  then show ?case
    by (auto simp: show_nat.simps [of n] split: if_splits)
qed

lemma show_nat_nonempty [simp]: "show_nat n \<noteq> []"
  by (subst show_nat.simps) simp

lemma digits_value_snoc: "digits_value (s @ [c]) = 10 * digits_value s + (of_char c - 48)"
  by (simp add: digits_value_def)

lemma digits_value_show_nat [simp]: "digits_value (show_nat n) = n"
proof (induction n rule: show_nat.induct)
  case (1 n)
  show ?case
  proof (cases "n < 10")
    case True
    then show ?thesis
      by (simp add: show_nat.simps [of n] digits_value_def of_char_digit)
  next
    case False
    with 1 show ?thesis
      by (simp add: show_nat.simps [of n] digits_value_snoc of_char_digit)
  qed
qed

lemma digits_value_zeros: "digits_value (replicate i (CHR ''0'') @ s) = digits_value s"
proof -
  have "foldl (\<lambda>acc c. 10 * acc + (of_char c - 48)) 0 (replicate i (CHR ''0'')) = (0 :: nat)"
    by (induction i) simp_all
  then show ?thesis by (simp add: digits_value_def)
qed

lemma length_show_nat: "n < 10 ^ k \<Longrightarrow> 0 < k \<Longrightarrow> length (show_nat n) \<le> k"
proof (induction n arbitrary: k rule: show_nat.induct)
  case (1 n)
  show ?case
  proof (cases "n < 10")
    case True
    with 1 show ?thesis by (simp add: show_nat.simps [of n])
  next
    case False
    then obtain j where k: "k = Suc j" "0 < j"
      using 1(2,3) by (cases k; cases "k - 1") auto
    with 1(2) have "n div 10 < 10 ^ j"
      by (simp add: less_mult_imp_div_less mult.commute)
    with 1(1) False k have "length (show_nat (n div 10)) \<le> j" by blast
    with False k show ?thesis by (simp add: show_nat.simps [of n])
  qed
qed

lemma show_nat_inj: "show_nat m = show_nat n \<Longrightarrow> m = n"
  by (metis digits_value_show_nat)

lemma not_digit_special:
  "\<not> is_digit CHR ''+''" "\<not> is_digit CHR ''-''" "\<not> is_digit CHR ''.''"
  "\<not> is_digit CHR ''/''" "\<not> is_digit CHR 0x5C" "\<not> is_digit CHR ''T''"
  by (simp_all add: is_digit_def)

lemma show_int_chars: "c \<in> set (show_int i) \<Longrightarrow> is_digit c \<or> c = CHR ''-''"
  by (auto simp: show_int_def dest: show_nat_digits split: if_splits)

lemma show_d_chars: "c \<in> set (show_d v) \<Longrightarrow> is_digit c \<or> c = CHR ''-''"
  by (simp add: show_d_def show_int_chars)

lemma show_int_inj: "show_int i = show_int j \<Longrightarrow> i = j"
proof -
  have "\<not> is_digit (hd (''-'' @ s))" for s
    by (simp add: not_digit_special)
  moreover have "is_digit (hd (show_nat n))" for n
    using show_nat_digits [of "hd (show_nat n)" n] by simp
  ultimately have neq: "''-'' @ s \<noteq> show_nat n" for s n by metis
  assume "show_int i = show_int j"
  then show ?thesis
    using neq neq [symmetric] by (auto simp: show_int_def dest: show_nat_inj split: if_splits)
qed

lemma length_show_d: "length (show_d v) \<le> 11"
proof -
  have "nat (sint v) < 10 ^ 10" "nat (- sint v) < 10 ^ 10"
    using nat_sint_bound [of v] nat_neg_sint_bound [of v] by simp_all
  then show ?thesis
    using length_show_nat [of "nat (sint v)" 10] length_show_nat [of "nat (- sint v)" 10]
    by (auto simp: show_d_def show_int_def)
qed

lemma length_show_u: "length (show_u v) \<le> 10"
proof -
  have "unat v < 10 ^ 10"
    using unat_u32_bound [of v] by simp
  then show ?thesis by (simp add: show_u_def length_show_nat)
qed

lemma show_d_nonneg: "0 \<le> sint v \<Longrightarrow> show_d v = show_nat (nat (sint v))"
  by (simp add: show_d_def show_int_def)

lemma atoi_show_d: "0 \<le> sint v \<Longrightarrow> atoi (show_d v) = v"
proof -
  assume v: "0 \<le> sint v"
  have "takeWhile is_digit (show_nat n) = show_nat n" for n
    unfolding takeWhile_eq_all_conv by (simp add: show_nat_digits)
  then have "atoi (show_d v) = of_nat (min (nat (sint v)) (2 ^ 63 - 1))"
    unfolding atoi_def show_d_nonneg [OF v] by (simp only: digits_value_show_nat)
  also have "min (nat (sint v)) (2 ^ 63 - 1) = nat (sint v)"
    using nat_sint_bound [of v] by (intro min_absorb1) simp
  finally show ?thesis
    using v by simp
qed

section \<open>BabelUIN\<close>

record BabelUIN =
  uid :: cint
  hid :: cint

definition BabelUIN_zero :: BabelUIN where
  "BabelUIN_zero = \<lparr>uid = 0, hid = 0\<rparr>"

definition BabelUIN_IsSet :: "BabelUIN \<Rightarrow> bool" where
  "BabelUIN_IsSet u \<longleftrightarrow> uid u \<noteq> 0 \<or> hid u \<noteq> 0"

definition BabelUIN_ToString :: "BabelUIN \<Rightarrow> string" where
  "BabelUIN_ToString u = show_d (uid u) @ ''+'' @ show_d (hid u)"

text \<open>The result and the identity it leaves: zeroed first, so zero on every refusal.\<close>

definition BabelUIN_FromString :: "string \<Rightarrow> bool \<times> BabelUIN" where
  "BabelUIN_FromString str =
     (case find_char CHR ''+'' str of
        None \<Rightarrow> (False, BabelUIN_zero)
      | Some i \<Rightarrow>
          if i = 0 \<or> length str \<le> i + 1 then (False, BabelUIN_zero)
          else if list_ex (\<lambda>k. k \<noteq> i \<and> \<not> is_digit (str ! k)) [0..<length str]
          then (False, BabelUIN_zero)
          else (True, \<lparr>uid = atoi (take i str), hid = atoi (drop (i + 1) str)\<rparr>))"

lemma FromString_shape:
  assumes "a \<noteq> []" "b \<noteq> []" "\<forall>c\<in>set a. is_digit c" "\<forall>c\<in>set b. is_digit c"
  shows "BabelUIN_FromString (a @ ''+'' @ b) = (True, \<lparr>uid = atoi a, hid = atoi b\<rparr>)"
proof -
  have "CHR ''+'' \<notin> set a"
    using assms(3) not_digit_special by auto
  then have "find_char CHR ''+'' (a @ ''+'' @ b) = Some (length a)"
    by (simp add: find_char_append)
  moreover have "\<not> list_ex (\<lambda>i. i \<noteq> length a \<and> \<not> is_digit ((a @ ''+'' @ b) ! i))
      [0..<length (a @ ''+'' @ b)]"
    using assms(3,4) by (auto simp: list_ex_iff nth_append nth_Cons split: nat.split)
  ultimately show ?thesis
    using assms(1,2) by (simp add: BabelUIN_FromString_def)
qed

lemma FromString_True_shape:
  assumes "BabelUIN_FromString s = (True, u)"
  obtains a b where "s = a @ ''+'' @ b" "a \<noteq> []" "b \<noteq> []"
    "\<forall>c\<in>set a. is_digit c" "\<forall>c\<in>set b. is_digit c" "u = \<lparr>uid = atoi a, hid = atoi b\<rparr>"
proof -
  from assms obtain i where f: "find_char CHR ''+'' s = Some i"
    and p: "i \<noteq> 0" "i + 1 < length s"
    and d: "\<forall>k<length s. k \<noteq> i \<longrightarrow> is_digit (s ! k)"
    and u: "u = \<lparr>uid = atoi (take i s), hid = atoi (drop (i + 1) s)\<rparr>"
    by (auto simp: BabelUIN_FromString_def list_ex_iff Ball_def split: option.splits if_splits)
  from f have "s ! i = CHR ''+''"
    by (auto elim!: find_char_SomeD)
  with p have "s = take i s @ ''+'' @ drop (i + 1) s"
    using id_take_nth_drop [of i s] by simp
  moreover have "\<forall>c\<in>set (take i s). is_digit c" "\<forall>c\<in>set (drop (i + 1) s). is_digit c"
    using d p by (auto simp: in_set_conv_nth)
  ultimately show thesis
    using that [of "take i s" "drop (i + 1) s"] p u by auto
qed

lemma FromString_False: "BabelUIN_FromString s = (False, u) \<Longrightarrow> u = BabelUIN_zero"
  by (auto simp: BabelUIN_FromString_def split: option.splits if_splits)

lemma FromString_ToString:
  "0 \<le> sint (uid u) \<Longrightarrow> 0 \<le> sint (hid u) \<Longrightarrow> BabelUIN_FromString (BabelUIN_ToString u) = (True, u)"
proof -
  assume nonneg: "0 \<le> sint (uid u)" "0 \<le> sint (hid u)"
  then have "show_d (uid u) \<noteq> []" "show_d (hid u) \<noteq> []"
    "\<forall>c\<in>set (show_d (uid u)). is_digit c" "\<forall>c\<in>set (show_d (hid u)). is_digit c"
    by (auto simp: show_d_nonneg dest: show_nat_digits)
  with nonneg show ?thesis
    by (simp add: BabelUIN_ToString_def FromString_shape atoi_show_d del: append.simps)
qed

lemma length_ToString: "length (BabelUIN_ToString u) \<le> 23"
  using length_show_d [of "uid u"] length_show_d [of "hid u"] by (simp add: BabelUIN_ToString_def)

lemma ToString_inj: "BabelUIN_ToString u = BabelUIN_ToString v \<Longrightarrow> u = v"
proof -
  assume eq: "BabelUIN_ToString u = BabelUIN_ToString v"
  have no_plus: "CHR ''+'' \<notin> set (show_d x)" for x
    using show_d_chars [of "CHR ''+''" x] not_digit_special by auto
  from eq have "takeWhile (\<lambda>x. x \<noteq> CHR ''+'') (BabelUIN_ToString u)
      = takeWhile (\<lambda>x. x \<noteq> CHR ''+'') (BabelUIN_ToString v)" by simp
  then have a: "show_d (uid u) = show_d (uid v)"
    by (simp add: BabelUIN_ToString_def takeWhile_neq_append no_plus)
  with eq have "show_d (hid u) = show_d (hid v)"
    by (simp add: BabelUIN_ToString_def)
  with a show ?thesis
    by (auto simp: show_d_def intro!: BabelUIN.equality dest!: show_int_inj signed_word_eqI)
qed

lemma FromString_no_plus: "CHR ''+'' \<notin> set s \<Longrightarrow> BabelUIN_FromString s = (False, BabelUIN_zero)"
  by (simp add: BabelUIN_FromString_def find_char_None)

lemma ToString_example: "BabelUIN_ToString \<lparr>uid = 5, hid = 1\<rparr> = ''5+1''"
  by code_simp

lemma FromString_example: "BabelUIN_FromString ''5+1'' = (True, \<lparr>uid = 5, hid = 1\<rparr>)"
  using FromString_ToString [of "\<lparr>uid = 5, hid = 1\<rparr>"] ToString_example by simp

section \<open>Properties\<close>

text \<open>C34: The text form of a user identity determines it, fits the 32 byte buffer \<open>sprintf\<close> prints
  it to, with its terminator, and is parsed back to it when both numbers are non-negative.\<close>

theorem ToString_identifies:
  "length (BabelUIN_ToString u) + 1 \<le> 32 \<and> inj BabelUIN_ToString
    \<and> {u. 0 \<le> sint (uid u) \<and> 0 \<le> sint (hid u)} \<subseteq> {u. BabelUIN_FromString (BabelUIN_ToString u) = (True, u)}"
proof (intro conjI)
  show "length (BabelUIN_ToString u) + 1 \<le> 32" using length_ToString [of u] by simp
  show "inj BabelUIN_ToString" by (rule injI) (rule ToString_inj)
  show "{u. 0 \<le> sint (uid u) \<and> 0 \<le> sint (hid u)} \<subseteq> {u. BabelUIN_FromString (BabelUIN_ToString u) = (True, u)}"
    using FromString_ToString by auto
qed

text \<open>C35: A string is accepted exactly when it is digits, a plus sign and digits, none of the runs
  empty; on anything else the identity is zeroed.\<close>

theorem FromString_accepts:
  "BabelUIN_FromString s =
    (if (\<exists>a b. s = a @ ''+'' @ b \<and> a \<noteq> [] \<and> b \<noteq> [] \<and> set (a @ b) \<subseteq> Collect is_digit)
     then (True, \<lparr>uid = atoi (takeWhile is_digit s), hid = atoi (tl (dropWhile is_digit s))\<rparr>)
     else (False, BabelUIN_zero))"
proof (cases "\<exists>a b. s = a @ ''+'' @ b \<and> a \<noteq> [] \<and> b \<noteq> [] \<and> set (a @ b) \<subseteq> Collect is_digit")
  case True
  then obtain a b where s: "s = a @ ''+'' @ b" "a \<noteq> []" "b \<noteq> []" "\<forall>c\<in>set a. is_digit c" "\<forall>c\<in>set b. is_digit c"
    by auto
  have "takeWhile is_digit s = a" "tl (dropWhile is_digit s) = b"
    using s not_digit_special by (simp_all add: takeWhile_append2 dropWhile_append2)
  then show ?thesis using True FromString_shape [OF s(2-5)] s(1) by simp
next
  case False
  obtain ok u where f: "BabelUIN_FromString s = (ok, u)" by fastforce
  have "\<not> ok"
  proof
    assume ok
    with f have "BabelUIN_FromString s = (True, u)" by simp
    then obtain a b where "s = a @ ''+'' @ b" "a \<noteq> []" "b \<noteq> []" "\<forall>c\<in>set a. is_digit c" "\<forall>c\<in>set b. is_digit c"
      by (rule FromString_True_shape)
    then have "\<exists>a b. s = a @ ''+'' @ b \<and> a \<noteq> [] \<and> b \<noteq> [] \<and> set (a @ b) \<subseteq> Collect is_digit"
      by (intro exI [of _ a] exI [of _ b]) auto
    with False show False ..
  qed
  then show ?thesis using False f FromString_False [of s u] by simp
qed

text \<open>C36: Leading zeros are skipped and a number out of range is accepted and wraps, so every identity
  has many texts: each number is read modulo 2^32 as long as it fits the C library's \<open>long\<close>, so
  the text a user was registered under need not be the one \<open>ToString\<close> prints for it.\<close>

theorem FromString_wraps:
  assumes "m < 2 ^ 63" "n < 2 ^ 63"
  shows "BabelUIN_FromString (replicate i (CHR ''0'') @ show_nat m @ ''+'' @ replicate j (CHR ''0'') @ show_nat n)
    = (True, \<lparr>uid = of_nat m, hid = of_nat n\<rparr>)"
proof -
  let ?z = "\<lambda>i n. replicate i (CHR ''0'') @ show_nat n"
  have d: "\<forall>c\<in>set (?z i n). is_digit c" "?z i n \<noteq> []" for i n
    by (auto simp: is_digit_def dest: show_nat_digits)
  have a: "atoi (?z i n) = of_nat n" if "n < 2 ^ 63" for i n
  proof -
    have tw: "takeWhile is_digit (?z i n) = ?z i n"
      unfolding takeWhile_eq_all_conv using d(1) by blast
    have "min n (2 ^ 63 - 1) = n" using that by (intro min_absorb1) simp
    then show ?thesis unfolding atoi_def tw digits_value_zeros digits_value_show_nat by simp
  qed
  show ?thesis using FromString_shape [OF d(2) d(2) d(1) d(1), of i m j n] a [OF assms(1)] a [OF assms(2)] by simp
qed

theorem FromString_wraps_witness:
  "BabelUIN_FromString ''04294967297+1'' = (True, \<lparr>uid = 1, hid = 1\<rparr>)
    \<and> BabelUIN_ToString \<lparr>uid = 1, hid = 1\<rparr> = ''1+1''"
proof -
  have "show_nat 4294967297 = ''4294967297''" "show_nat 1 = ''1''"
    by (simp_all add: show_nat.simps digit_eval)
  moreover have "BabelUIN_ToString \<lparr>uid = 1, hid = 1\<rparr> = ''1+1''" by code_simp
  ultimately show ?thesis using FromString_wraps [of 4294967297 1 1 0] by simp
qed

end
