(* ===== verification/NetFiles.thy ===== *)
theory NetFiles imports NetOs NetUin
begin

text \<open>
  The file helpers of \<open>DSNetManager.cpp\<close> and the names of spool files.

  A spool file is \<open><serial>T-<uid>+<hid>.warp\<close>.  The lemmas: the name gives back the identity
  it was made from; the search for an unused serial ends, by the pigeonhole argument of the
  interface \<open>fresh_search\<close>; and a file put in place atomically is never seen half written.
\<close>

section \<open>Reading, writing, listing\<close>

definition FileExists :: "string \<Rightarrow> os \<Rightarrow> bool \<times> os" where
  "FileExists path w = (case os_fopen_rb path w of (None, w) \<Rightarrow> (False, w) | (Some _, w) \<Rightarrow> (True, w))"

text \<open>The result, and what \<open>contents\<close> holds afterwards; \<open>ferror\<close> is an answer of its own.\<close>

definition ReadWholeFile :: "string \<Rightarrow> byte list \<Rightarrow> os \<Rightarrow> bool \<times> byte list \<times> os" where
  "ReadWholeFile path contents w = (case os_fopen_rb path w of
      (None, w) \<Rightarrow> (False, contents, w)
    | (Some bytes, w) \<Rightarrow> (case os_io w of
          (IoOk, w) \<Rightarrow> (True, bytes, w)
        | (IoFail k, w) \<Rightarrow> (False, take k bytes, w)))"

definition WriteWholeFileAtomic :: "string \<Rightarrow> byte list \<Rightarrow> os \<Rightarrow> bool \<times> os" where
  "WriteWholeFileAtomic path contents w =
     (let tempPath = path @ ''.tmp'' in
      case os_io w of
        (IoFail _, w) \<Rightarrow> (False, w)
      | (IoOk, w) \<Rightarrow>
        let w = os_put tempPath [] w;
            (ok, w) = (if contents \<noteq> [] then
                         (case os_io w of
                            (IoOk, w) \<Rightarrow> (True, os_put tempPath contents w)
                          | (IoFail k, w) \<Rightarrow> (False, os_put tempPath (take k contents) w))
                       else (True, w));
            (closed, w) = os_io w;
            ok = (ok \<and> closed = IoOk)
        in if \<not> ok then (False, os_remove tempPath w)
           else let w = os_remove path w;
                    (renamed, w) = os_rename tempPath path w
                in if \<not> renamed then (False, os_remove tempPath w) else (True, w))"

definition ListFilesWithExtension :: "string \<Rightarrow> string \<Rightarrow> os \<Rightarrow> string list \<times> os" where
  "ListFilesWithExtension directory extension w = (case os_list_directory directory w of
      (None, w) \<Rightarrow> ([], w)
    | (Some entries, w) \<Rightarrow>
        (filter (\<lambda>name. length name > length extension
                   \<and> drop (length name - length extension) name = extension) entries, w))"

section \<open>Paths and spool names\<close>

definition EnsureTrailingSeparator :: "string \<Rightarrow> string" where
  "EnsureTrailingSeparator directory =
     (if directory = [] then directory
      else if last directory = CHR ''/'' \<or> last directory = CHR 0x5C then directory
      else directory @ ''/'')"

definition BaseName :: "string \<Rightarrow> string" where
  "BaseName path = (case find_last_of [CHR ''/'', CHR 0x5C] path of
     None \<Rightarrow> path | Some slash \<Rightarrow> drop (slash + 1) path)"

definition UserFromSpoolName :: "string \<Rightarrow> string" where
  "UserFromSpoolName name =
     (case (rfind_char CHR ''.'' name, rfind_char CHR ''-'' name) of
        (Some lastDot, Some lastDash) \<Rightarrow>
          (if lastDash + 1 \<ge> lastDot then []
           else let user = substr name (lastDash + 1) (lastDot - lastDash - 1) in
                if fst (BabelUIN_FromString user) then user else [])
      | _ \<Rightarrow> [])"

definition spool_name :: "u32 \<Rightarrow> BabelUIN \<Rightarrow> string" where
  "spool_name serial u = show_u serial @ ''T-'' @ show_d (uid u) @ ''+'' @ show_d (hid u) @ ''.warp''"

text \<open>
  The loop that \<open>ReturnUniqueOutboxFilename\<close> and \<open>SpoolPrayFile\<close> share: the first serial whose
  file does not open.  The fuel is \<open>None\<close> when it does not suffice.
\<close>

fun unique_path :: "nat \<Rightarrow> string \<Rightarrow> BabelUIN \<Rightarrow> u32 \<Rightarrow> os \<Rightarrow> (string \<times> os) option" where
  "unique_path 0 dir u serial w = None"
| "unique_path (Suc n) dir u serial w =
     (let path = dir @ spool_name serial u in
      case FileExists path w of
        (False, w) \<Rightarrow> Some (path, w)
      | (True, w) \<Rightarrow> unique_path n dir u (serial + 1) w)"

section \<open>Names\<close>

lemma spool_name_eq: "spool_name serial u = (show_u serial @ ''T'') @ CHR ''-'' # BabelUIN_ToString u @ ''.warp''"
  by (simp add: spool_name_def BabelUIN_ToString_def)

lemma length_spool_name: "length (spool_name serial u) \<le> 40"
  using length_show_u [of serial] length_show_d [of "uid u"] length_show_d [of "hid u"]
  by (simp add: spool_name_def)

lemma spool_name_inj: "spool_name s u = spool_name t u \<Longrightarrow> s = t"
proof -
  assume "spool_name s u = spool_name t u"
  then have "show_u s = show_u t" by (simp add: spool_name_def)
  then show ?thesis by (auto simp: show_u_def intro: unsigned_word_eqI dest!: show_nat_inj)
qed

lemma ToString_nonneg_chars:
  "0 \<le> sint (uid u) \<Longrightarrow> 0 \<le> sint (hid u) \<Longrightarrow> c \<in> set (BabelUIN_ToString u) \<Longrightarrow> is_digit c \<or> c = CHR ''+''"
  by (auto simp: BabelUIN_ToString_def show_d_nonneg dest: show_nat_digits)

lemma UserFromSpoolName_at:
  assumes "CHR ''-'' \<notin> set user" "user \<noteq> []"
  shows "UserFromSpoolName (pre @ CHR ''-'' # user @ ''.warp'') = (if fst (BabelUIN_FromString user) then user else [])"
proof -
  let ?name = "pre @ CHR ''-'' # user @ ''.warp''"
  have dot: "rfind_char CHR ''.'' ?name = Some (length pre + 1 + length user)"
    using rfind_char_append [of "CHR ''.''" "''warp''" "pre @ CHR ''-'' # user"] by simp
  have dash: "rfind_char CHR ''-'' ?name = Some (length pre)"
    using rfind_char_append [of "CHR ''-''" "user @ ''.warp''" pre] assms(1) by simp
  have "substr ?name (length pre + 1) (length user) = user" by (simp add: substr_def)
  then show ?thesis using assms(2) by (simp add: UserFromSpoolName_def dot dash Let_def)
qed

lemma no_dash:
  "CHR ''-'' \<notin> set (show_nat n)" "0 \<le> sint v \<Longrightarrow> CHR ''-'' \<notin> set (show_d v)" "CHR ''+'' \<notin> set (show_nat n)"
  using not_digit_special by (auto simp: show_d_nonneg dest: show_nat_digits)

lemma FromString_digits: "0 \<le> sint v \<Longrightarrow> fst (BabelUIN_FromString (show_nat n @ ''+'' @ show_d v))"
  by (subst FromString_shape) (auto simp: show_d_nonneg dest: show_nat_digits)

text \<open>What is read back from a spool name: the sign of the first number is lost, and a negative
  second number makes the name unreadable.\<close>

lemma UserFromSpoolName_eq:
  "UserFromSpoolName (spool_name serial u) =
    (if sint (hid u) < 0 then [] else if sint (uid u) < 0 then tl (BabelUIN_ToString u) else BabelUIN_ToString u)"
proof -
  let ?n = "show_u serial @ ''T''"
  consider "sint (hid u) < 0" | "0 \<le> sint (hid u)" "sint (uid u) < 0" | "0 \<le> sint (hid u)" "0 \<le> sint (uid u)" by linarith
  then show ?thesis
  proof cases
    case 1
    then have "spool_name serial u = (?n @ ''-'' @ show_d (uid u) @ ''+'') @ CHR ''-'' # show_nat (nat (- sint (hid u))) @ ''.warp''"
      by (simp add: spool_name_def show_d_def show_int_def)
    moreover have "UserFromSpoolName (pre @ CHR ''-'' # show_nat n @ ''.warp'') = []" for pre n
      using UserFromSpoolName_at [OF no_dash(1) show_nat_nonempty] FromString_no_plus [OF no_dash(3)] by simp
    ultimately show ?thesis using 1 by (simp only: if_True)
  next
    case 2
    let ?user = "show_nat (nat (- sint (uid u))) @ ''+'' @ show_d (hid u)"
    have t: "BabelUIN_ToString u = CHR ''-'' # ?user" using 2 by (simp add: BabelUIN_ToString_def show_d_def show_int_def)
    have "CHR ''-'' \<notin> set ?user" using no_dash(1,2) 2 by simp
    from UserFromSpoolName_at [OF this, of "?n @ ''-''"] FromString_digits [OF 2(1)] 2 t
    show ?thesis by (simp add: spool_name_eq)
  next
    case 3
    let ?user = "show_nat (nat (sint (uid u))) @ ''+'' @ show_d (hid u)"
    have t: "BabelUIN_ToString u = ?user" using 3 by (simp add: BabelUIN_ToString_def show_d_nonneg)
    have "CHR ''-'' \<notin> set ?user" using no_dash(1,2) 3 by simp
    from UserFromSpoolName_at [OF this, of ?n] FromString_digits [OF 3(1)] 3 t
    show ?thesis by (simp add: spool_name_eq)
  qed
qed

lemma UserFromSpoolName_spool:
  "0 \<le> sint (uid u) \<Longrightarrow> 0 \<le> sint (hid u) \<Longrightarrow> UserFromSpoolName (spool_name serial u) = BabelUIN_ToString u"
  by (simp add: UserFromSpoolName_eq)

lemma spool_name_no_separator: "set (spool_name serial u) \<inter> set [CHR ''/'', CHR 0x5C] = {}"
proof -
  have "c \<noteq> CHR ''/'' \<and> c \<noteq> CHR 0x5C" if "c \<in> set (spool_name serial u)" for c
    using that not_digit_special
    by (auto simp: spool_name_def show_u_def dest!: show_nat_digits show_d_chars)
  then show ?thesis by auto
qed

lemma BaseName_no_separator: "set name \<inter> set [CHR ''/'', CHR 0x5C] = {} \<Longrightarrow> BaseName name = name"
  by (auto simp: BaseName_def find_last_of_def)

lemma BaseName_append:
  assumes "d = [] \<or> last d = CHR ''/'' \<or> last d = CHR 0x5C"
    and "set name \<inter> set [CHR ''/'', CHR 0x5C] = {}"
  shows "BaseName (d @ name) = name"
proof (cases "d = []")
  case True
  with assms(2) show ?thesis by (simp add: BaseName_no_separator)
next
  case False
  then have d: "d @ name = butlast d @ last d # name" by simp
  from assms False have "last d \<in> set [CHR ''/'', CHR 0x5C]" by simp
  then have "find_last_of [CHR ''/'', CHR 0x5C] (d @ name) = Some (length (butlast d))"
    unfolding d using assms(2) by (rule find_last_of_append)
  with False show ?thesis by (simp add: BaseName_def)
qed

lemma EnsureTrailingSeparator_last:
  "EnsureTrailingSeparator d = [] \<or> last (EnsureTrailingSeparator d) = CHR ''/''
     \<or> last (EnsureTrailingSeparator d) = CHR 0x5C"
  by (simp add: EnsureTrailingSeparator_def)

lemma EnsureTrailingSeparator_idem [simp]:
  "EnsureTrailingSeparator (EnsureTrailingSeparator d) = EnsureTrailingSeparator d"
  by (simp add: EnsureTrailingSeparator_def)

section \<open>The search for an unused name\<close>

text \<open>
  Numbered names that are all different cannot all be taken: among any \<open>n + 1\<close> consecutive
  numbers one is free, where \<open>n\<close> names are taken and the numbers have not wrapped.
\<close>

locale fresh_search =
  fixes name :: "u32 \<Rightarrow> 'n"
  assumes name_inj: "name a = name b \<Longrightarrow> a = b"
begin

lemma free_number:
  assumes fin: "finite taken" and few: "card taken < 4294967296"
  shows "\<exists>k \<le> card taken. name (start + of_nat k) \<notin> taken"
proof (rule ccontr)
  assume "\<not> ?thesis"
  then have all: "(\<lambda>k. name (start + of_nat k)) ` {0..card taken} \<subseteq> taken" by auto
  have "inj_on (\<lambda>k. name (start + of_nat k)) {0..card taken}"
  proof (rule inj_onI)
    fix j k
    assume jk: "j \<in> {0..card taken}" "k \<in> {0..card taken}"
      and "name (start + of_nat j) = name (start + of_nat k)"
    then have "(of_nat j :: u32) = of_nat k" using name_inj by force
    then have "unat (of_nat j :: u32) = unat (of_nat k :: u32)" by (rule arg_cong)
    with jk few show "j = k" by (simp add: unat_of_nat)
  qed
  then have "card {0..card taken} \<le> card taken"
    using all fin by (metis card_image card_mono)
  then show False by simp
qed

end

interpretation spool_search: fresh_search "\<lambda>serial. dir @ spool_name serial u" for dir u
  by unfold_locales (simp add: spool_name_inj)

lemma FileExists_file: "FileExists path w = (b, w') \<Longrightarrow> osFiles w' = osFiles w \<and> (b \<longrightarrow> os_file w path \<noteq> None)"
  by (auto simp: FileExists_def os_fopen_rb_def os_file_def split: prod.splits option.splits io_answer.splits)

lemma unique_path_fuel:
  "os_file w (dir @ spool_name (serial + of_nat k) u) = None \<Longrightarrow> k < n \<Longrightarrow>
   \<exists>r. unique_path n dir u serial w = Some r"
proof (induction n arbitrary: k serial w)
  case 0
  then show ?case by simp
next
  case (Suc n)
  obtain b w1 where ex: "FileExists (dir @ spool_name serial u) w = (b, w1)" by fastforce
  note files = FileExists_file [OF ex]
  show ?case
  proof (cases b)
    case False
    with ex show ?thesis by (simp add: Let_def)
  next
    case True
    with files Suc.prems have "k \<noteq> 0" by (cases k) auto
    then obtain j where k: "k = Suc j" by (cases k) auto
    have "os_file w1 (dir @ spool_name (serial + 1 + of_nat j) u) = None"
      using Suc.prems(1) files by (simp add: os_file_def k add.assoc)
    with Suc.IH [of w1 "serial + 1" j] Suc.prems(2) k ex True show ?thesis
      by (simp add: Let_def)
  qed
qed

lemma unique_path_ends:
  assumes "length (osFiles w) < 4294967296"
  shows "\<exists>r. unique_path (Suc (length (osFiles w))) dir u serial w = Some r"
proof -
  let ?taken = "dom (map_of (osFiles w))"
  have card: "card ?taken \<le> length (osFiles w)"
    by (metis card_length dom_map_of_conv_image_fst length_map set_map)
  with assms have "card ?taken < 4294967296" by simp
  from spool_search.free_number [OF finite_dom_map_of this, of dir serial u]
  obtain k where "k \<le> card ?taken" "dir @ spool_name (serial + of_nat k) u \<notin> ?taken" by blast
  with card show ?thesis
    by (intro unique_path_fuel [of w dir serial k]) (auto simp: os_file_def)
qed

lemma unique_path_result:
  "unique_path n dir u serial w = Some (path, w') \<Longrightarrow>
   osFiles w' = osFiles w \<and> (\<exists>k. path = dir @ spool_name (serial + of_nat k) u)
   \<and> (osIo w = [] \<longrightarrow> os_file w path = None)"
proof (induction n arbitrary: serial w)
  case (Suc n)
  obtain b w1 where ex: "FileExists (dir @ spool_name serial u) w = (b, w1)" by fastforce
  note files = FileExists_file [OF ex]
  show ?case
  proof (cases b)
    case False
    with ex Suc.prems have "path = dir @ spool_name (serial + of_nat 0) u" "w' = w1"
      by (auto simp: Let_def)
    moreover have "os_file w path = None" if "osIo w = []"
      using that ex False \<open>path = _\<close>
      by (auto simp: FileExists_def os_fopen_rb_def os_io_def split: option.splits)
    ultimately show ?thesis using files by blast
  next
    case True
    with ex Suc.prems have "unique_path n dir u (serial + 1) w1 = Some (path, w')"
      by (simp add: Let_def)
    from Suc.IH [OF this] obtain k where "osFiles w' = osFiles w1"
      "path = dir @ spool_name (serial + 1 + of_nat k) u" "osIo w1 = [] \<longrightarrow> os_file w1 path = None" by auto
    moreover have "osIo w1 = []" if "osIo w = []"
      using that ex by (auto simp: FileExists_def os_fopen_rb_def os_io_def split: option.splits)
    moreover have "serial + 1 + of_nat k = serial + of_nat (Suc k)" by simp
    ultimately show ?thesis using files by (metis os_file_def)
  qed
qed simp

section \<open>Atomic writes\<close>

lemma os_file_io [simp]: "os_io w = (a, w') \<Longrightarrow> os_file w' p = os_file w p"
  by (simp add: os_file_def)

text \<open>
  Whatever fails and wherever, the destination holds its old contents, all of the new ones, or
  nothing; the new ones exactly when the function reports success, and no other file but the
  temporary one changes.
\<close>

lemma append_neq_self: "path @ ''.tmp'' \<noteq> path" "path \<noteq> path @ ''.tmp''"
  by simp_all

lemma WriteWholeFileAtomic_spec:
  assumes "WriteWholeFileAtomic path contents w = (ok, w')"
  shows "(if ok then os_file w' path = Some contents \<and> os_file w' (path @ ''.tmp'') = None
          else os_file w' path = os_file w path \<or> os_file w' path = None)
    \<and> (\<forall>q. q \<noteq> path \<and> q \<noteq> path @ ''.tmp'' \<longrightarrow> os_file w' q = os_file w q)"
proof -
  let ?tmp = "path @ ''.tmp''"
  obtain a1 w1 where i1: "os_io w = (a1, w1)" by fastforce
  show ?thesis
  proof (cases a1)
    case (IoFail k)
    with assms i1 show ?thesis by (auto simp: WriteWholeFileAtomic_def)
  next
    case IoOk
    define put where "put = (if contents \<noteq> [] then
        (case os_io (os_put ?tmp [] w1) of (IoOk, w) \<Rightarrow> (True, os_put ?tmp contents w)
         | (IoFail k, w) \<Rightarrow> (False, os_put ?tmp (take k contents) w)) else (True, os_put ?tmp [] w1))"
    obtain ok1 w2 where p: "put = (ok1, w2)" by fastforce
    obtain a3 w3 where i3: "os_io w2 = (a3, w3)" by fastforce
    have f2: "q \<noteq> ?tmp \<Longrightarrow> os_file w2 q = os_file w q"
      "ok1 \<Longrightarrow> os_file w2 ?tmp = Some contents" for q
      using p i1 by (auto simp: put_def split: if_splits prod.splits io_answer.splits)
    have run: "WriteWholeFileAtomic path contents w =
        (if \<not> (ok1 \<and> a3 = IoOk) then (False, os_remove ?tmp w3)
         else case os_rename ?tmp path (os_remove path w3) of (renamed, w) \<Rightarrow>
           if \<not> renamed then (False, os_remove ?tmp w) else (True, w))"
      using i1 IoOk p i3 by (simp add: WriteWholeFileAtomic_def put_def [symmetric] Let_def)
    show ?thesis
    proof (cases "ok1 \<and> a3 = IoOk")
      case False
      with run assms have "ok = False" "w' = os_remove ?tmp w3" by auto
      with f2(1) i3 show ?thesis by simp
    next
      case True
      obtain r w4 where mv: "os_rename ?tmp path (os_remove path w3) = (r, w4)" by fastforce
      note f4 = os_file_rename [OF mv append_neq_self(1)]
      have f3: "q \<noteq> path \<Longrightarrow> os_file (os_remove path w3) q = os_file w2 q" for q
        using i3 by simp
      have "os_file w4 path = os_file w path \<or> os_file w4 path = None" if "\<not> r"
        using that f4 [of path] os_file_remove [of path w3 path] i3 f2(1) [of path] by auto
      with True run assms mv f3 f4 f2 os_file_remove_other [of _ ?tmp w4] show ?thesis
        by (auto split: if_splits)
    qed
  qed
qed

section \<open>The network and the clock are left alone\<close>

lemma file_net [frame_simps]:
  "FileExists p w = (b, w') \<Longrightarrow> os_net w' = os_net w \<and> os_clock w' = os_clock w"
  "ReadWholeFile p c w = (b, c', w') \<Longrightarrow> os_net w' = os_net w \<and> os_clock w' = os_clock w"
  "ListFilesWithExtension p e w = (l, w') \<Longrightarrow> os_net w' = os_net w \<and> os_clock w' = os_clock w"
  by (auto simp: FileExists_def ReadWholeFile_def ListFilesWithExtension_def frame_simps
      split: option.splits prod.splits io_answer.splits)

lemma WriteWholeFileAtomic_net [frame_simps]:
  "WriteWholeFileAtomic p c w = (b, w') \<Longrightarrow> os_net w' = os_net w \<and> os_clock w' = os_clock w"
  by (auto simp: WriteWholeFileAtomic_def Let_def frame_simps
      split: option.splits prod.splits io_answer.splits if_splits)

lemma unique_path_net [frame_simps]:
  "unique_path n d u serial w = Some (p, w') \<Longrightarrow> os_net w' = os_net w \<and> os_clock w' = os_clock w"
  by (induction n arbitrary: serial w) (auto simp: Let_def frame_simps split: prod.splits bool.splits)

declare unique_path.simps [simp del]

text \<open>A file from an identity with a negative UID is attributed to another user, the one with the
  same number without its sign.\<close>

lemma negative_sender_misread:
  assumes "- 2147483648 < sint (uid u)" "sint (uid u) < 0" "0 \<le> sint (hid u)"
  shows "UserFromSpoolName (spool_name serial u) = BabelUIN_ToString (u\<lparr>uid := - uid u\<rparr>) \<and> u\<lparr>uid := - uid u\<rparr> \<noteq> u"
proof -
  have s: "sint (- uid u) = - sint (uid u)"
    using assms(1,2) sint_diff_id [of 0 "uid u"] by simp
  then have "tl (BabelUIN_ToString u) = BabelUIN_ToString (u\<lparr>uid := - uid u\<rparr>)"
    using assms(2) by (simp add: BabelUIN_ToString_def show_d_def show_int_def)
  moreover have "u\<lparr>uid := - uid u\<rparr> \<noteq> u"
  proof
    assume "u\<lparr>uid := - uid u\<rparr> = u"
    then have "uid (u\<lparr>uid := - uid u\<rparr>) = uid u" by (rule arg_cong)
    then have "- uid u = uid u" by simp
    with s have "sint (uid u) = - sint (uid u)" by (simp only:)
    with assms(2) show False by simp
  qed
  ultimately show ?thesis using assms by (auto simp: UserFromSpoolName_eq)
qed

section \<open>Properties\<close>

text \<open>C27: Whatever fails and wherever, a file put in place atomically is never seen half written: its
  name holds the old contents, all of the new ones, or nothing; the new ones exactly when the
  function reports success, and then no temporary file is left.\<close>

theorem atomic_write:
  "case WriteWholeFileAtomic path contents w of (ok, w') \<Rightarrow>
     (if ok then os_file w' path = Some contents \<and> os_file w' (path @ ''.tmp'') = None
      else os_file w' path \<in> {os_file w path, None})
     \<and> {q. os_file w' q \<noteq> os_file w q} \<subseteq> {path, path @ ''.tmp''}"
proof -
  obtain ok w' where r: "WriteWholeFileAtomic path contents w = (ok, w')" by fastforce
  note sp = WriteWholeFileAtomic_spec [OF r]
  have "{q. os_file w' q \<noteq> os_file w q} \<subseteq> {path, path @ ''.tmp''}" using conjunct2 [OF sp] by blast
  then show ?thesis using sp r by (cases ok) simp_all
qed

text \<open>C28: With fewer than 2^32 files on a disk that can be read, the search for an unused spool name
  ends within one more try than there are files, with a name no file has.\<close>

theorem spool_name_found:
  assumes "length (osFiles w) < 4294967296" "osIo w = []"
  shows "\<exists>k w'. unique_path (Suc (length (osFiles w))) dir u serial w = Some (dir @ spool_name (serial + of_nat k) u, w')
    \<and> os_file w (dir @ spool_name (serial + of_nat k) u) = None \<and> osFiles w' = osFiles w"
proof -
  obtain path w' where up: "unique_path (Suc (length (osFiles w))) dir u serial w = Some (path, w')"
    using unique_path_ends [OF assms(1)] by fastforce
  from unique_path_result [OF up] assms(2) obtain k where
    "osFiles w' = osFiles w" "path = dir @ spool_name (serial + of_nat k) u" "os_file w path = None" by blast
  with up show ?thesis by blast
qed

definition full_disk :: os where
  "full_disk = \<lparr>osClock = (\<lambda>_. 0), osClockReads = 0, osTime = (\<lambda>_. 7), osTimeReads = 0,
     osConnects = [], osDialled = [], osSelects = [], osSends = [], osWire = [], osRecvs = [], osWaits = [],
     osFds = [], osNextFd = 3, osFiles = [(''in/7T-5+1.warp'', ''x''), (''in/8T-5+1.warp'', ''y'')], osIo = []\<rparr>"

theorem spool_name_found_witness:
  "\<exists>k w'. unique_path (Suc (length (osFiles full_disk))) ''in/'' \<lparr>uid = 5, hid = 1\<rparr> 7 full_disk = Some (''in/'' @ spool_name (7 + of_nat k) \<lparr>uid = 5, hid = 1\<rparr>, w')
    \<and> os_file full_disk (''in/'' @ spool_name (7 + of_nat k) \<lparr>uid = 5, hid = 1\<rparr>) = None \<and> osFiles w' = osFiles full_disk"
  by (rule spool_name_found) (simp_all add: full_disk_def)

text \<open>C29: A spool file name fits the 64 byte buffer it is printed to, and what is read back from it,
  behind whatever directory, is whom the file is from or to, except that the sign of a negative
  UID is lost and a negative HID makes the name unreadable.\<close>

theorem spool_name_names_user:
  "length (spool_name serial u) + 1 \<le> 64
    \<and> UserFromSpoolName (BaseName (EnsureTrailingSeparator dir @ spool_name serial u)) =
      (if sint (hid u) < 0 then [] else if sint (uid u) < 0 then tl (BabelUIN_ToString u) else BabelUIN_ToString u)"
  using length_spool_name [of serial u] BaseName_append [OF EnsureTrailingSeparator_last spool_name_no_separator, of dir serial u]
    UserFromSpoolName_eq by simp

end
