(* ===== verification/NetCodec.thy ===== *)
theory NetCodec imports NetPrelude
begin

text \<open>
  The little-endian primitives of \<open>NetNatsueProtocol.cpp\<close>, and the interface \<open>fixed_codec\<close>
  of an encoding of fixed width: appended to a buffer it can be read back at the place it was
  written, wherever that is.  \<open>PutInt\<close> and \<open>GetInt\<close> interpret it here, the packet header in
  \<open>NetPackets\<close>.
\<close>

section \<open>GetInt, PutInt, PutIntAt\<close>

definition GetInt :: "byte list \<Rightarrow> nat \<Rightarrow> cint option" where
  "GetInt data offset = (case drop offset data of
       b0 # b1 # b2 # b3 # _ \<Rightarrow>
         Some (word_of b0 OR push_bit 8 (word_of b1)
               OR push_bit 16 (word_of b2) OR push_bit 24 (word_of b3))
     | _ \<Rightarrow> None)"

definition le_bytes :: "cint \<Rightarrow> byte list" where
  "le_bytes v = [byte_of (v AND 0xFF), byte_of (drop_bit 8 v AND 0xFF),
                 byte_of (drop_bit 16 v AND 0xFF), byte_of (drop_bit 24 v AND 0xFF)]"

definition PutInt :: "byte list \<Rightarrow> cint \<Rightarrow> byte list" where
  "PutInt out v = out @ le_bytes v"

text \<open>\<open>out[offset]\<close> and the three after it must exist; otherwise the write is out of bounds.\<close>

definition PutIntAt :: "byte list \<Rightarrow> nat \<Rightarrow> cint \<Rightarrow> byte list option" where
  "PutIntAt out offset v =
     (if offset + 4 \<le> length out then
        Some (out[offset := byte_of (v AND 0xFF), offset + 1 := byte_of (drop_bit 8 v AND 0xFF),
                  offset + 2 := byte_of (drop_bit 16 v AND 0xFF),
                  offset + 3 := byte_of (drop_bit 24 v AND 0xFF)])
      else None)"

lemma length_le_bytes [simp]: "length (le_bytes v) = 4"
  by (simp add: le_bytes_def)

lemma length_PutInt [simp]: "length (PutInt out v) = length out + 4"
  by (simp add: PutInt_def)

lemma le_split:
  "take_bit 8 v OR push_bit 8 (take_bit 8 (drop_bit 8 v))
     OR push_bit 16 (take_bit 8 (drop_bit 16 v)) OR push_bit 24 (take_bit 8 (drop_bit 24 v))
   = (v :: cint)"
proof (rule bit_word_eqI)
  fix n
  assume "n < LENGTH(32)"
  then have "n < 8 \<or> (8 \<le> n \<and> n < 16) \<or> (16 \<le> n \<and> n < 24) \<or> (24 \<le> n \<and> n < 32)"
    by (simp add: not_less) linarith
  then show "bit (take_bit 8 v OR push_bit 8 (take_bit 8 (drop_bit 8 v))
     OR push_bit 16 (take_bit 8 (drop_bit 16 v)) OR push_bit 24 (take_bit 8 (drop_bit 24 v))) n
     = bit v n"
    by (elim disjE) (auto simp: bit_simps)
qed

lemma GetInt_at: "GetInt (pre @ le_bytes v @ post) (length pre) = Some v"
  using le_split [of v] by (simp add: GetInt_def le_bytes_def word_of_byte_of)

lemma GetInt_head: "GetInt (le_bytes v @ post) 0 = Some v"
  using GetInt_at [of "[]"] by simp

lemma GetInt_eq_None_iff: "GetInt data off = None \<longleftrightarrow> length data < off + 4"
proof -
  have "(case ys of b0 # b1 # b2 # b3 # _ \<Rightarrow> Some (f b0 b1 b2 b3) | _ \<Rightarrow> None) = None
      \<longleftrightarrow> length ys < 4" for ys :: "byte list" and f :: "byte \<Rightarrow> byte \<Rightarrow> byte \<Rightarrow> byte \<Rightarrow> cint"
    by (auto split: list.split)
  then have "GetInt data off = None \<longleftrightarrow> length (drop off data) < 4"
    unfolding GetInt_def .
  then show ?thesis by auto
qed

lemma GetInt_defined: "off + 4 \<le> length data \<Longrightarrow> \<exists>v. GetInt data off = Some v"
  using GetInt_eq_None_iff [of data off] by (cases "GetInt data off") auto

text \<open>The value read where a read is in bounds: a rewrite rule that decides the reads of a parser.\<close>

definition int_at :: "byte list \<Rightarrow> nat \<Rightarrow> cint" where
  "int_at data off = the (GetInt data off)"

lemma GetInt_int_at: "off + 4 \<le> length data \<Longrightarrow> GetInt data off = Some (int_at data off)"
  using GetInt_defined [of off data] by (auto simp: int_at_def)

lemma GetInt_SomeD: "GetInt data off = Some v \<Longrightarrow> off + 4 \<le> length data \<and> v = int_at data off"
  using GetInt_eq_None_iff [of data off] by (cases "length data < off + 4") (simp_all add: int_at_def)

lemma GetInt_skip: "length pre \<le> off \<Longrightarrow> GetInt (pre @ data) off = GetInt data (off - length pre)"
  by (simp add: GetInt_def)

lemma GetInt_prefix: "off + 4 \<le> length data \<Longrightarrow> GetInt (data @ more) off = GetInt data off"
proof -
  assume "off + 4 \<le> length data"
  then have "4 \<le> length (drop off data)" by simp
  then obtain a b c d xs where "drop off data = a # b # c # d # xs"
    by (auto simp: numeral_eq_Suc Suc_le_length_iff simp del: length_drop)
  with \<open>off + 4 \<le> length data\<close> show ?thesis
    by (simp add: GetInt_def)
qed

lemma GetInt_drop: "GetInt (drop k data) off = GetInt data (k + off)"
  by (simp add: GetInt_def add.commute)

lemma le_bytes_GetInt:
  assumes "GetInt data off = Some v"
  shows "take 4 (drop off data) = le_bytes v"
proof -
  obtain a b c d xs where abcd: "drop off data = a # b # c # d # xs"
    and v: "v = word_of a OR push_bit 8 (word_of b) OR push_bit 16 (word_of c) OR push_bit 24 (word_of d)"
    using assms by (auto simp: GetInt_def split: list.splits)
  have "take_bit 8 v = take_bit 8 (word_of a)"
    "take_bit 8 (drop_bit 8 v) = take_bit 8 (word_of b)"
    "take_bit 8 (drop_bit 16 v) = take_bit 8 (word_of c)"
    "take_bit 8 (drop_bit 24 v) = take_bit 8 (word_of d)"
    unfolding v by (rule bit_word_eqI, auto simp: bit_simps dest: bit_word_of_less)+
  then have "byte_of v = a" "byte_of (drop_bit 8 v) = b" "byte_of (drop_bit 16 v) = c"
    "byte_of (drop_bit 24 v) = d"
    by (auto dest: byte_of_cong)
  with abcd show ?thesis
    by (simp add: le_bytes_def)
qed

section \<open>Fixed-width encodings\<close>

locale fixed_codec =
  fixes enc :: "'a \<Rightarrow> byte list"
    and dec :: "byte list \<Rightarrow> nat \<Rightarrow> 'a option"
    and width :: nat
  assumes enc_width: "length (enc x) = width"
    and dec_enc: "dec (pre @ enc x @ post) (length pre) = Some x"
begin

lemma dec_enc_at: "length pre = off \<Longrightarrow> dec (pre @ enc x @ post) off = Some x"
  using dec_enc by blast

lemma dec_enc_0: "dec (enc x @ post) 0 = Some x"
  using dec_enc [of "[]"] by simp

lemma enc_inj: "enc x = enc y \<Longrightarrow> x = y"
  using dec_enc [of "[]" x "[]"] dec_enc [of "[]" y "[]"] by simp

lemma enc_append_inj: "enc x @ a = enc y @ b \<Longrightarrow> x = y \<and> a = b"
  using enc_width [of x] enc_width [of y] enc_inj by (auto simp: append_eq_append_conv)

lemma length_concat_enc: "length (concat (map enc xs)) = width * length xs"
  by (induction xs) (simp_all add: enc_width)

lemma dec_concat:
  "i < length xs \<Longrightarrow> dec (pre @ concat (map enc xs) @ post) (length pre + width * i) = Some (xs ! i)"
proof -
  assume i: "i < length xs"
  have "concat (map enc xs) = concat (map enc (take i xs)) @ enc (xs ! i) @ concat (map enc (drop (Suc i) xs))"
    using i by (subst id_take_nth_drop [OF i]) simp
  then have "pre @ concat (map enc xs) @ post =
      (pre @ concat (map enc (take i xs))) @ enc (xs ! i) @ (concat (map enc (drop (Suc i) xs)) @ post)"
    by simp
  moreover have "length (pre @ concat (map enc (take i xs))) = length pre + width * i"
    using i length_concat_enc [of "take i xs"] by simp
  ultimately show ?thesis
    by (metis dec_enc_at)
qed

end

interpretation int32: fixed_codec le_bytes GetInt 4
  by unfold_locales (simp_all add: GetInt_at)

section \<open>Properties\<close>

text \<open>An integer written over four bytes of a buffer is read back there, and every other byte
  of the buffer keeps its value.\<close>

lemma PutIntAt_GetInt:
  assumes "off + 4 \<le> length out"
  shows "\<exists>out'. PutIntAt out off v = Some out' \<and> length out' = length out \<and> GetInt out' off = Some v
    \<and> take off out' = take off out \<and> drop (off + 4) out' = drop (off + 4) out"
proof -
  obtain a b c d xs where d: "drop off out = a # b # c # d # xs"
  proof -
    have "4 \<le> length (drop off out)" using assms by simp
    then show thesis using that by (auto simp: numeral_eq_Suc Suc_le_length_iff simp del: length_drop)
  qed
  define pre where "pre = take off out"
  have out: "out = pre @ a # b # c # d # xs" "length pre = off"
    using d assms append_take_drop_id [of off out] by (simp_all add: pre_def)
  have "out[off := w, off + 1 := x, off + 2 := y, off + 3 := z] = pre @ w # x # y # z # xs" for w x y z
    unfolding out(1) by (simp add: out(2) [symmetric] list_update_append numeral_eq_Suc)
  then have "PutIntAt out off v = Some (pre @ le_bytes v @ xs)"
    using assms by (simp add: PutIntAt_def le_bytes_def)
  moreover have "GetInt (pre @ le_bytes v @ xs) off = Some v"
    using out(2) by (rule int32.dec_enc_at)
  ultimately show ?thesis using out by simp
qed

end
