(* ===== verification/NetPackets.thy ===== *)
theory NetPackets imports NetCodec NetUin
begin

text \<open>
  The packet layer of \<open>NetNatsueProtocol.h\<close> and \<open>.cpp\<close>: packet types, the 32 byte header,
  and one definition per packet builder.  The header is a second instance of \<open>fixed_codec\<close>,
  so what a builder writes first is what \<open>PacketHeader_Read\<close> finds in front of any stream
  that starts with the packet.
\<close>

section \<open>Constants\<close>

definition PACKET_MESSAGE :: cint where [consts_simps]: "PACKET_MESSAGE = 0x09"
definition PACKET_HANDSHAKE_RESPONSE :: cint where [consts_simps]: "PACKET_HANDSHAKE_RESPONSE = 0x0A"
definition PACKET_USER_ONLINE :: cint where [consts_simps]: "PACKET_USER_ONLINE = 0x0D"
definition PACKET_USER_OFFLINE :: cint where [consts_simps]: "PACKET_USER_OFFLINE = 0x0E"
definition PACKET_GET_CLIENT_INFO :: cint where [consts_simps]: "PACKET_GET_CLIENT_INFO = 0x0F"
definition PACKET_ADD_WWR_ENTRY :: cint where [consts_simps]: "PACKET_ADD_WWR_ENTRY = 0x10"
definition PACKET_REMOVE_WWR_ENTRY :: cint where [consts_simps]: "PACKET_REMOVE_WWR_ENTRY = 0x11"
definition PACKET_GET_CONNECTION_DETAIL :: cint where [consts_simps]: "PACKET_GET_CONNECTION_DETAIL = 0x13"
definition PACKET_CLIENT_COMMAND :: cint where [consts_simps]: "PACKET_CLIENT_COMMAND = 0x14"
definition PACKET_GET_STATUS :: cint where [consts_simps]: "PACKET_GET_STATUS = 0x18"
definition PACKET_ONLINE_CHANGE :: cint where [consts_simps]: "PACKET_ONLINE_CHANGE = 0x1D"
definition PACKET_VIRTUAL_CONNECT :: cint where [consts_simps]: "PACKET_VIRTUAL_CONNECT = 0x1E"
definition PACKET_VIRTUAL_CIRCUIT :: cint where [consts_simps]: "PACKET_VIRTUAL_CIRCUIT = 0x1F"
definition PACKET_VIRTUAL_CIRCUIT_CLOSE :: cint where [consts_simps]: "PACKET_VIRTUAL_CIRCUIT_CLOSE = 0x20"
definition PACKET_HANDSHAKE :: cint where [consts_simps]: "PACKET_HANDSHAKE = 0x25"
definition PACKET_MIGRATE :: cint where [consts_simps]: "PACKET_MIGRATE = 0x2A"
definition PACKET_DS_FETCH_RANDOM_USER :: cint where [consts_simps]: "PACKET_DS_FETCH_RANDOM_USER = 0x0221"
definition PACKET_DS_FEED_HISTORY :: cint where [consts_simps]: "PACKET_DS_FEED_HISTORY = 0x0321"
definition PACKET_HEADER_SIZE :: cint where [consts_simps]: "PACKET_HEADER_SIZE = 32"
definition CLIENT_COMMAND_VIRTUAL_CONNECT_ACCEPT :: cint where
  [consts_simps]: "CLIENT_COMMAND_VIRTUAL_CONNECT_ACCEPT = 0x0E"
definition HANDSHAKE_CLIENT_VERSION :: cint where [consts_simps]: "HANDSHAKE_CLIENT_VERSION = 1"
definition HANDSHAKE_PRODUCT_CODE :: cint where [consts_simps]: "HANDSHAKE_PRODUCT_CODE = 2"
definition HANDSHAKE_MAGIC_MODERN :: cint where [consts_simps]: "HANDSHAKE_MAGIC_MODERN = 20240219"

section \<open>The packet header\<close>

record PacketHeader =
  ptype :: cint
  fieldA :: cint
  fieldB :: cint
  fieldC :: cint
  fieldD :: cint
  pticket :: cint
  furtherData :: cint
  fieldE :: cint

definition PacketHeader_new :: PacketHeader where
  "PacketHeader_new = \<lparr>ptype = 0, fieldA = 0, fieldB = 0, fieldC = 0, fieldD = 0,
                       pticket = 0, furtherData = 0, fieldE = 0\<rparr>"

definition PacketHeader_Read :: "byte list \<Rightarrow> PacketHeader option" where
  "PacketHeader_Read data = do {
     t \<leftarrow> GetInt data 0;
     a \<leftarrow> GetInt data 4;
     b \<leftarrow> GetInt data 8;
     c \<leftarrow> GetInt data 12;
     d \<leftarrow> GetInt data 16;
     k \<leftarrow> GetInt data 20;
     f \<leftarrow> GetInt data 24;
     e \<leftarrow> GetInt data 28;
     Some \<lparr>ptype = t, fieldA = a, fieldB = b, fieldC = c, fieldD = d,
           pticket = k, furtherData = f, fieldE = e\<rparr> }"

definition PacketHeader_Write :: "byte list \<Rightarrow> PacketHeader \<Rightarrow> byte list" where
  "PacketHeader_Write out h =
     PutInt (PutInt (PutInt (PutInt (PutInt (PutInt (PutInt (PutInt out
       (ptype h)) (fieldA h)) (fieldB h)) (fieldC h)) (fieldD h)) (pticket h)) (furtherData h)) (fieldE h)"

definition header_bytes :: "PacketHeader \<Rightarrow> byte list" where
  "header_bytes h = PacketHeader_Write [] h"

lemma header_bytes_concat:
  "header_bytes h = concat (map le_bytes
     [ptype h, fieldA h, fieldB h, fieldC h, fieldD h, pticket h, furtherData h, fieldE h])"
  by (simp add: header_bytes_def PacketHeader_Write_def PutInt_def)

lemma PacketHeader_Write_eq: "PacketHeader_Write out h = out @ header_bytes h"
  by (simp add: header_bytes_def PacketHeader_Write_def PutInt_def)

lemma length_header_bytes [simp]: "length (header_bytes h) = 32"
  by (simp add: header_bytes_concat)

lemma GetInt_header:
  "i < 8 \<Longrightarrow> GetInt (header_bytes h @ post) (4 * i) =
     Some ([ptype h, fieldA h, fieldB h, fieldC h, fieldD h, pticket h, furtherData h, fieldE h] ! i)"
  using int32.dec_concat [of i "[ptype h, fieldA h, fieldB h, fieldC h, fieldD h, pticket h, furtherData h, fieldE h]" "[]" post]
  by (simp add: header_bytes_concat del: list.map concat.simps)

lemma PacketHeader_Read_header: "PacketHeader_Read (header_bytes h @ post) = Some h"
  using GetInt_header [of 0 h post] GetInt_header [of 1 h post] GetInt_header [of 2 h post]
    GetInt_header [of 3 h post] GetInt_header [of 4 h post] GetInt_header [of 5 h post]
    GetInt_header [of 6 h post] GetInt_header [of 7 h post]
  by (simp add: PacketHeader_Read_def)

lemma PacketHeader_Read_defined: "32 \<le> length data \<Longrightarrow> \<exists>h. PacketHeader_Read data = Some h"
  by (simp add: PacketHeader_Read_def GetInt_int_at)

lemma PacketHeader_Read_prefix:
  "32 \<le> length data \<Longrightarrow> PacketHeader_Read (data @ rest) = PacketHeader_Read data"
  by (simp add: PacketHeader_Read_def GetInt_prefix)

lemma PacketHeader_Read_furtherData:
  "PacketHeader_Read data = Some h \<Longrightarrow> GetInt data 24 = Some (furtherData h)"
  by (auto simp: PacketHeader_Read_def bind_eq_Some_conv)

interpretation packet_header: fixed_codec header_bytes "\<lambda>data off. PacketHeader_Read (drop off data)" 32
  by unfold_locales (simp_all add: PacketHeader_Read_header)

section \<open>Packet builders\<close>

definition BuildHandshake :: "BabelUIN \<Rightarrow> cint \<Rightarrow> string \<Rightarrow> string \<Rightarrow> cint \<Rightarrow> byte list" where
  "BuildHandshake user ticket nickname password magic =
     (let header = PacketHeader_new\<lparr>ptype := PACKET_HANDSHAKE, fieldC := uid user,
                                     fieldD := hid user, pticket := ticket\<rparr>;
          out = PacketHeader_Write [] header;
          out = PutInt out HANDSHAKE_CLIENT_VERSION;
          out = PutInt out HANDSHAKE_PRODUCT_CODE;
          out = PutInt out magic;
          out = PutInt out (of_nat (length nickname + 1));
          out = PutInt out (of_nat (length password + 1));
          out = out @ nickname;
          out = out @ [CHR 0x00];
          out = out @ password
      in out @ [CHR 0x00])"

definition BuildWWRModify :: "bool \<Rightarrow> BabelUIN \<Rightarrow> BabelUIN \<Rightarrow> byte list" where
  "BuildWWRModify add server target =
     PacketHeader_Write [] (PacketHeader_new\<lparr>
       ptype := (if add then PACKET_ADD_WWR_ENTRY else PACKET_REMOVE_WWR_ENTRY),
       fieldA := uid server, fieldB := hid server, fieldC := uid target, fieldD := hid target\<rparr>)"

definition BuildGetClientInfo :: "BabelUIN \<Rightarrow> BabelUIN \<Rightarrow> cint \<Rightarrow> byte list" where
  "BuildGetClientInfo server target ticket =
     PacketHeader_Write [] (PacketHeader_new\<lparr>ptype := PACKET_GET_CLIENT_INFO,
       fieldA := uid server, fieldB := hid server, fieldC := uid target, fieldD := hid target,
       pticket := ticket\<rparr>)"

definition BuildGetConnectionDetail :: "BabelUIN \<Rightarrow> BabelUIN \<Rightarrow> cint \<Rightarrow> byte list" where
  "BuildGetConnectionDetail server target ticket =
     PacketHeader_Write [] (PacketHeader_new\<lparr>ptype := PACKET_GET_CONNECTION_DETAIL,
       fieldA := uid server, fieldB := hid server, fieldC := uid target, fieldD := hid target,
       pticket := ticket\<rparr>)"

definition BuildGetStatus :: "BabelUIN \<Rightarrow> cint \<Rightarrow> byte list" where
  "BuildGetStatus server ticket =
     PacketHeader_Write [] (PacketHeader_new\<lparr>ptype := PACKET_GET_STATUS,
       fieldA := uid server, fieldB := hid server, pticket := ticket\<rparr>)"

definition BuildFetchRandomUser :: "BabelUIN \<Rightarrow> BabelUIN \<Rightarrow> cint \<Rightarrow> byte list" where
  "BuildFetchRandomUser server user ticket =
     PacketHeader_Write [] (PacketHeader_new\<lparr>ptype := PACKET_DS_FETCH_RANDOM_USER,
       fieldA := uid server, fieldB := hid server, fieldC := uid user, fieldD := hid user,
       pticket := ticket, fieldE := 3\<rparr>)"

definition BuildFeedHistory :: "BabelUIN \<Rightarrow> BabelUIN \<Rightarrow> cint \<Rightarrow> byte list \<Rightarrow> byte list" where
  "BuildFeedHistory server user ticket blob =
     PacketHeader_Write [] (PacketHeader_new\<lparr>ptype := PACKET_DS_FEED_HISTORY,
       fieldA := uid server, fieldB := hid server, fieldC := uid user, fieldD := hid user,
       pticket := ticket, furtherData := of_nat (length blob)\<rparr>) @ blob"

definition BuildMessage :: "BabelUIN \<Rightarrow> BabelUIN \<Rightarrow> BabelUIN \<Rightarrow> byte list \<Rightarrow> byte list" where
  "BuildMessage server user target payload =
     (let payloadSize = of_nat (length payload);
          packedHeaderSize = 24;
          packedSize = packedHeaderSize + payloadSize;
          header = PacketHeader_new\<lparr>ptype := PACKET_MESSAGE,
            fieldA := uid server, fieldB := hid server, fieldC := uid user, fieldD := hid user,
            furtherData := packedSize\<rparr>;
          out = PacketHeader_Write [] header;
          out = PutInt out (uid target);
          out = PutInt out (hid target);
          out = PutInt out packedSize;
          out = PutInt out (hid user);
          out = PutInt out (uid user);
          out = PutInt out payloadSize;
          out = PutInt out 0;
          out = PutInt out 1
      in out @ payload)"

definition BuildVirtualConnectAccept :: "BabelUIN \<Rightarrow> BabelUIN \<Rightarrow> cint \<Rightarrow> cint \<Rightarrow> byte list" where
  "BuildVirtualConnectAccept server initiator initiatorVSN localVSN =
     PutInt (PacketHeader_Write [] (PacketHeader_new\<lparr>ptype := PACKET_CLIENT_COMMAND,
       fieldA := uid server, fieldB := hid server, fieldC := uid initiator, fieldD := hid initiator,
       fieldE := push_bit 16 (initiatorVSN AND 0xFFFF) OR (localVSN AND 0xFFFF)\<rparr>))
       CLIENT_COMMAND_VIRTUAL_CONNECT_ACCEPT"

section \<open>What the builders put on the wire\<close>

lemmas builder_defs =
  BuildHandshake_def BuildWWRModify_def BuildGetClientInfo_def BuildGetConnectionDetail_def
  BuildGetStatus_def BuildFetchRandomUser_def BuildFeedHistory_def BuildMessage_def
  BuildVirtualConnectAccept_def

lemma builder_lengths [simp]:
  "length (BuildHandshake u k nick pass magic) = 52 + (length nick + 1) + (length pass + 1)"
  "length (BuildWWRModify b s t) = 32"
  "length (BuildGetClientInfo s t k) = 32"
  "length (BuildGetConnectionDetail s t k) = 32"
  "length (BuildGetStatus s k) = 32"
  "length (BuildFetchRandomUser s u k) = 32"
  "length (BuildFeedHistory s u k blob) = 32 + length blob"
  "length (BuildMessage s u t payload) = 64 + length payload"
  "length (BuildVirtualConnectAccept s i v w) = 36"
  by (simp_all add: builder_defs PacketHeader_Write_eq Let_def)

lemma BuildMessage_eq:
  "BuildMessage server user target payload =
     header_bytes (PacketHeader_new\<lparr>ptype := PACKET_MESSAGE,
        fieldA := uid server, fieldB := hid server, fieldC := uid user, fieldD := hid user,
        furtherData := 24 + of_nat (length payload)\<rparr>)
     @ le_bytes (uid target) @ le_bytes (hid target)
     @ (concat (map le_bytes [24 + of_nat (length payload), hid user, uid user,
                              of_nat (length payload), 0, 1]) @ payload)"
  by (simp add: BuildMessage_def PacketHeader_Write_eq PutInt_def Let_def)

lemma BuildHandshake_eq:
  "BuildHandshake user k nick pass magic =
     header_bytes (PacketHeader_new\<lparr>ptype := PACKET_HANDSHAKE, fieldC := uid user,
                                     fieldD := hid user, pticket := k\<rparr>)
     @ concat (map le_bytes [HANDSHAKE_CLIENT_VERSION, HANDSHAKE_PRODUCT_CODE, magic,
                             of_nat (length nick + 1), of_nat (length pass + 1)])
     @ nick @ [CHR 0x00] @ pass @ [CHR 0x00]"
  by (simp add: BuildHandshake_def PacketHeader_Write_eq PutInt_def Let_def)

lemma vsn_halves:
  fixes a b :: cint
  shows "drop_bit 16 (push_bit 16 (a AND 0xFFFF) OR (b AND 0xFFFF)) = a AND 0xFFFF"
    and "(push_bit 16 (a AND 0xFFFF) OR (b AND 0xFFFF)) AND 0xFFFF = b AND 0xFFFF"
proof -
  have m: "(0xFFFF :: cint) = mask 16"
    by (simp add: mask_eq_decr_exp)
  show "drop_bit 16 (push_bit 16 (a AND 0xFFFF) OR (b AND 0xFFFF)) = a AND 0xFFFF"
    unfolding m take_bit_eq_mask [symmetric] by (rule bit_word_eqI) (auto simp: bit_simps)
  show "(push_bit 16 (a AND 0xFFFF) OR (b AND 0xFFFF)) AND 0xFFFF = b AND 0xFFFF"
    unfolding m take_bit_eq_mask [symmetric] by (rule bit_word_eqI) (auto simp: bit_simps)
qed

section \<open>Properties\<close>

text \<open>C33: A packet header that was written is read back from the front of any stream that starts
  with it, and two headers never share their bytes.\<close>

theorem header_round_trip:
  "PacketHeader_Read (PacketHeader_Write [] h @ rest) = Some h \<and> inj header_bytes"
  using packet_header.enc_inj by (auto simp: PacketHeader_Write_eq PacketHeader_Read_header intro: injI)

text \<open>The two client modes send handshakes of equal length that differ in nothing but the
  extension field at offset 40, where the server finds the mode's magic number.\<close>

lemma handshake_modes:
  "let a = BuildHandshake user k nick pass magic; b = BuildHandshake user k nick pass 0 in
     length a = 52 + (length nick + 1) + (length pass + 1) \<and> length a = length b
     \<and> take 40 a = take 40 b \<and> drop 44 a = drop 44 b \<and> GetInt a 40 = Some magic \<and> GetInt b 40 = Some 0"
proof -
  have g: "GetInt (BuildHandshake user k nick pass x) 40 = Some x" for x
    using int32.dec_concat [of 2 "[HANDSHAKE_CLIENT_VERSION, HANDSHAKE_PRODUCT_CODE, x, of_nat (length nick + 1),
        of_nat (length pass + 1)]" "header_bytes (PacketHeader_new\<lparr>ptype := PACKET_HANDSHAKE, fieldC := uid user,
          fieldD := hid user, pticket := k\<rparr>)" "nick @ [CHR 0x00] @ pass @ [CHR 0x00]"]
    by (simp add: BuildHandshake_eq)
  show ?thesis unfolding Let_def
    by (intro conjI g) (simp_all add: BuildHandshake_eq le_bytes_def)
qed

text \<open>From the packet that accepts a virtual circuit the peer reads back its own socket number
  in the upper half of field E and ours in the lower half, behind the accepting subcommand.\<close>

lemma accept_carries_both_sockets:
  "let p = BuildVirtualConnectAccept server initiator a b in
     length p = 36 \<and> GetInt p 32 = Some CLIENT_COMMAND_VIRTUAL_CONNECT_ACCEPT
     \<and> (\<exists>h. PacketHeader_Read p = Some h \<and> ptype h = PACKET_CLIENT_COMMAND
          \<and> drop_bit 16 (fieldE h) = a AND 0xFFFF \<and> fieldE h AND 0xFFFF = b AND 0xFFFF
          \<and> \<lparr>uid = fieldC h, hid = fieldD h\<rparr> = initiator)"
proof -
  let ?h = "PacketHeader_new\<lparr>ptype := PACKET_CLIENT_COMMAND, fieldA := uid server, fieldB := hid server,
      fieldC := uid initiator, fieldD := hid initiator, fieldE := push_bit 16 (a AND 0xFFFF) OR (b AND 0xFFFF)\<rparr>"
  have p: "BuildVirtualConnectAccept server initiator a b = header_bytes ?h @ le_bytes CLIENT_COMMAND_VIRTUAL_CONNECT_ACCEPT"
    by (simp add: BuildVirtualConnectAccept_def PacketHeader_Write_eq PutInt_def)
  have "GetInt (header_bytes ?h @ le_bytes CLIENT_COMMAND_VIRTUAL_CONNECT_ACCEPT @ []) 32 = Some CLIENT_COMMAND_VIRTUAL_CONNECT_ACCEPT"
    by (rule int32.dec_enc_at) simp
  then show ?thesis
    unfolding p Let_def using PacketHeader_Read_header [of ?h] vsn_halves [of a b] by simp
qed

end
