(* ===== verification/NetParsers.thy ===== *)
theory NetParsers imports NetPackets
begin

text \<open>
  The two packet parsers of \<open>NetNatsueProtocol.cpp\<close>.  Each takes the block it may read and
  the size the caller claims for it.  The result is \<open>None\<close> for a read outside the block, and
  otherwise what the C++ function returns together with its out-parameters, which may have
  been written even when it returns \<open>false\<close>.

  The lemmas give the exact condition for success, that no read leaves a block which is at
  least as long as claimed, and that parsing undoes the packing.
\<close>

section \<open>ParsePackedBabelMessage\<close>

definition ParsePackedBabelMessage ::
  "byte list \<Rightarrow> cint \<Rightarrow> BabelUIN \<Rightarrow> cint \<Rightarrow> byte list \<Rightarrow> (bool \<times> BabelUIN \<times> cint \<times> byte list) option" where
  "ParsePackedBabelMessage data sz sender messageType payload =
     (let packedHeaderSize = (24 :: cint); c2eHeaderSize = (12 :: cint) in
      if sint sz < sint (packedHeaderSize + c2eHeaderSize)
      then Some (False, sender, messageType, payload)
      else do {
        h \<leftarrow> GetInt data 4;
        u \<leftarrow> GetInt data 8;
        let sender = \<lparr>uid = u, hid = h AND 0xFFFF\<rparr>;
        messageDataLen \<leftarrow> GetInt data 12;
        if sint messageDataLen < sint c2eHeaderSize
           \<or> sint messageDataLen > sint (sz - packedHeaderSize)
        then Some (False, sender, messageType, payload)
        else do {
          messageType \<leftarrow> GetInt data 28;
          payload \<leftarrow> read_cint_bytes data (packedHeaderSize + c2eHeaderSize)
                       (messageDataLen - c2eHeaderSize);
          Some (True, sender, messageType, payload) } })"

text \<open>
  For a block that holds the claimed bytes the parser is this total function: the message data
  length decides, and nothing outside the block is read.
\<close>

lemma ParsePackedBabelMessage_eq:
  assumes sz: "0 \<le> sint sz" "nat (sint sz) \<le> length data"
  shows "ParsePackedBabelMessage data sz sender messageType payload =
    (if sint sz < 36 then Some (False, sender, messageType, payload)
     else let s = \<lparr>uid = int_at data 8, hid = int_at data 4 AND 0xFFFF\<rparr>;
              len = sint (int_at data 12)
          in if len < 12 \<or> sint sz - 24 < len then Some (False, s, messageType, payload)
             else Some (True, s, int_at data 28, take (nat len - 12) (drop 36 data)))"
proof (cases "sint sz < 36")
  case True
  then show ?thesis by (simp add: ParsePackedBabelMessage_def Let_def)
next
  case False
  then have len: "36 \<le> length data" using sz by linarith
  have sub: "sint (sz - 24) = sint sz - 24"
    using False cint_range [of sz] by (subst sint_diff_id) simp_all
  have dl: "sint (int_at data 12 - 12) = sint (int_at data 12) - 12" if "12 \<le> sint (int_at data 12)"
    using that cint_range [of "int_at data 12"] by (subst sint_diff_id) simp_all
  have rd: "read_cint_bytes data 36 (int_at data 12 - 12) =
      Some (take (nat (sint (int_at data 12)) - 12) (drop 36 data))"
    if "12 \<le> sint (int_at data 12)" "sint (int_at data 12) \<le> sint sz - 24"
    using that sz by (simp add: read_cint_bytes_def read_bytes_def dl nat_diff_distrib)
  show ?thesis
    using False len rd
    by (simp add: ParsePackedBabelMessage_def GetInt_int_at Let_def sub not_less)
qed

lemma ParsePackedBabelMessage_in_bounds:
  "0 \<le> sint sz \<Longrightarrow> nat (sint sz) \<le> length data \<Longrightarrow>
   ParsePackedBabelMessage data sz sender messageType payload \<noteq> None"
  by (auto simp: ParsePackedBabelMessage_eq Let_def)

text \<open>The C2E header in front of the body of a message, which travels as it is, and its types.\<close>

record BinaryMessage =
  bm_length :: cint
  bm_type :: cint
  bm_reserved :: cint

definition MESG_PRAY_FILE :: cint where [consts_simps]: "MESG_PRAY_FILE = 0"
definition MESG_WRIT :: cint where [consts_simps]: "MESG_WRIT = 1"
definition TEXT_TEST :: cint where [consts_simps]: "TEXT_TEST = 2"

definition BinaryMessage_bytes :: "BinaryMessage \<Rightarrow> byte list" where
  "BinaryMessage_bytes header = concat (map le_bytes [bm_length header, bm_type header, bm_reserved header])"

text \<open>
  The part of a message packet from the packed header on, as \<open>BuildMessage\<close> lays it out, and a
  payload with its header.
\<close>

definition packed_message :: "BabelUIN \<Rightarrow> byte list \<Rightarrow> byte list" where
  "packed_message user payload =
     concat (map le_bytes [24 + of_nat (length payload), hid user, uid user,
                           of_nat (length payload), 0, 1]) @ payload"

definition c2e_payload :: "cint \<Rightarrow> byte list \<Rightarrow> byte list" where
  "c2e_payload messageType body =
     BinaryMessage_bytes \<lparr>bm_length = 12, bm_type = messageType, bm_reserved = 0\<rparr> @ body"

lemma c2e_payload_eq: "c2e_payload messageType body = concat (map le_bytes [12, messageType, 0]) @ body"
  by (simp add: c2e_payload_def BinaryMessage_bytes_def)

lemma length_packed_message [simp]: "length (packed_message user payload) = 24 + length payload"
  by (simp add: packed_message_def)

lemma length_c2e_payload [simp]: "length (c2e_payload messageType body) = 12 + length body"
  by (simp add: c2e_payload_eq)

lemma packed_message_ints:
  "int_at (packed_message user payload) 4 = hid user"
  "int_at (packed_message user payload) 8 = uid user"
  "int_at (packed_message user payload) 12 = of_nat (length payload)"
  using int32.dec_concat [of 1 "[24 + of_nat (length payload), hid user, uid user, of_nat (length payload), 0, 1]" "[]" payload]
    int32.dec_concat [of 2 "[24 + of_nat (length payload), hid user, uid user, of_nat (length payload), 0, 1]" "[]" payload]
    int32.dec_concat [of 3 "[24 + of_nat (length payload), hid user, uid user, of_nat (length payload), 0, 1]" "[]" payload]
  by (simp_all add: packed_message_def int_at_def del: list.map concat.simps)

lemma packed_message_type:
  "int_at (packed_message user (c2e_payload messageType body)) 28 = messageType"
proof -
  have "packed_message user (c2e_payload messageType body) =
     concat (map le_bytes [24 + of_nat (length (c2e_payload messageType body)), hid user, uid user,
       of_nat (length (c2e_payload messageType body)), 0, 1, 12, messageType, 0]) @ body"
    by (simp add: packed_message_def c2e_payload_eq)
  then show ?thesis
    using int32.dec_concat [of 7 "[24 + of_nat (length (c2e_payload messageType body)), hid user,
        uid user, of_nat (length (c2e_payload messageType body)), 0, 1, 12, messageType, 0]" "[]" body]
    by (simp add: int_at_def del: list.map concat.simps)
qed

lemma Parse_packed_message:
  assumes "int (length body) + 36 \<le> INT_MAX"
  shows "ParsePackedBabelMessage (packed_message user (c2e_payload messageType body) @ rest)
           (36 + of_nat (length body)) s0 t0 p0
         = Some (True, \<lparr>uid = uid user, hid = hid user AND 0xFFFF\<rparr>, messageType, body)"
proof -
  let ?d = "packed_message user (c2e_payload messageType body) @ rest"
  have sz: "sint (36 + of_nat (length body) :: cint) = 36 + int (length body)"
    using assms sint_of_nat_id [of "36 + length body"] by simp
  have len: "sint (of_nat (12 + length body) :: cint) = 12 + int (length body)"
    using assms sint_of_nat_id [of "12 + length body"] by simp
  have ints: "int_at ?d k = int_at (packed_message user (c2e_payload messageType body)) k" if "k \<le> 32" for k
    using that by (simp add: int_at_def GetInt_prefix)
  have "take (length body) (drop 36 ?d) = body"
    by (simp add: packed_message_def c2e_payload_eq)
  then show ?thesis
    by (simp add: ParsePackedBabelMessage_eq sz ints packed_message_ints packed_message_type
        len Let_def nat_add_distrib del: of_nat_add)
qed

section \<open>ParseShortUserData\<close>

record ShortUserData =
  suin :: BabelUIN
  firstName :: string
  lastName :: string
  nickName :: string

definition ShortUserData_new :: ShortUserData where
  "ShortUserData_new = \<lparr>suin = BabelUIN_zero, firstName = [], lastName = [], nickName = []\<rparr>"

definition ParseShortUserData ::
  "byte list \<Rightarrow> cint \<Rightarrow> ShortUserData \<Rightarrow> (bool \<times> ShortUserData) option" where
  "ParseShortUserData data sz out =
     (let fixedSize = (24 :: cint) in
      if sint sz < sint fixedSize then Some (False, out)
      else do {
        totalLen \<leftarrow> GetInt data 0;
        if sint totalLen > sint sz then Some (False, out)
        else do {
          u \<leftarrow> GetInt data 4;
          h \<leftarrow> GetInt data 8;
          let out = out\<lparr>suin := \<lparr>uid = u, hid = h AND 0xFFFF\<rparr>\<rparr>;
          firstNameLen \<leftarrow> GetInt data 12;
          lastNameLen \<leftarrow> GetInt data 16;
          nickNameLen \<leftarrow> GetInt data 20;
          if sint firstNameLen < 0 \<or> sint lastNameLen < 0 \<or> sint nickNameLen < 0
          then Some (False, out)
          else if sint firstNameLen > sint (sz - fixedSize)
               \<or> sint lastNameLen > sint (sz - fixedSize - firstNameLen)
               \<or> sint nickNameLen > sint (sz - fixedSize - firstNameLen - lastNameLen)
          then Some (False, out)
          else do {
            let offset = fixedSize;
            fst_name \<leftarrow> read_cint_bytes data offset firstNameLen;
            let offset = offset + firstNameLen;
            lst_name \<leftarrow> read_cint_bytes data offset lastNameLen;
            let offset = offset + lastNameLen;
            nck_name \<leftarrow> read_cint_bytes data offset nickNameLen;
            Some (True, out\<lparr>firstName := fst_name, lastName := lst_name, nickName := nck_name\<rparr>) } } })"

text \<open>The three lengths fit the claimed sz, none of the additions having wrapped.\<close>

definition name_lengths_fit :: "int \<Rightarrow> int \<Rightarrow> int \<Rightarrow> int \<Rightarrow> bool" where
  "name_lengths_fit sz f l n \<longleftrightarrow> 0 \<le> f \<and> 0 \<le> l \<and> 0 \<le> n \<and> 24 + f + l + n \<le> sz"

lemma name_guards:
  fixes sz f l n :: cint
  assumes "24 \<le> sint sz"
  shows "(0 \<le> sint f \<and> 0 \<le> sint l \<and> 0 \<le> sint n \<and> sint f \<le> sint (sz - 24)
      \<and> sint l \<le> sint (sz - 24 - f) \<and> sint n \<le> sint (sz - 24 - f - l))
    \<longleftrightarrow> name_lengths_fit (sint sz) (sint f) (sint l) (sint n)" (is "?L \<longleftrightarrow> ?R")
proof -
  have s1: "sint (sz - 24) = sint sz - 24"
    using assms cint_range [of sz] by (subst sint_diff_id) simp_all
  have s2: "sint (sz - 24 - f) = sint sz - 24 - sint f" if "0 \<le> sint f" "sint f \<le> sint sz - 24"
    using that cint_range [of sz] cint_range [of f] by (subst sint_diff_id) (simp_all add: s1)
  have s3: "sint (sz - 24 - f - l) = sint sz - 24 - sint f - sint l"
    if "0 \<le> sint f" "sint f \<le> sint sz - 24" "0 \<le> sint l" "sint l \<le> sint sz - 24 - sint f"
    using that cint_range [of sz] by (subst sint_diff_id) (simp_all add: s2)
  show ?thesis
  proof
    assume ?L
    then show ?R using s1 s2 s3 by (simp add: name_lengths_fit_def)
  next
    assume ?R
    then show ?L using s1 s2 s3 by (simp add: name_lengths_fit_def)
  qed
qed

lemma read_names:
  fixes f l n :: cint
  assumes "name_lengths_fit sz (sint f) (sint l) (sint n)"
    and "sz \<le> INT_MAX" and "nat sz \<le> length data"
  shows "read_cint_bytes data 24 f = Some (take (nat (sint f)) (drop 24 data))"
    and "read_cint_bytes data (24 + f) l = Some (take (nat (sint l)) (drop (24 + nat (sint f)) data))"
    and "read_cint_bytes data (24 + f + l) n =
      Some (take (nat (sint n)) (drop (24 + nat (sint f) + nat (sint l)) data))"
proof -
  have a: "sint (24 + f) = 24 + sint f"
    using assms by (subst sint_add_id) (simp_all add: name_lengths_fit_def)
  have b: "sint (24 + f + l) = 24 + sint f + sint l"
    using assms by (subst sint_add_id) (simp_all add: name_lengths_fit_def a)
  show "read_cint_bytes data 24 f = Some (take (nat (sint f)) (drop 24 data))"
    using assms by (simp add: name_lengths_fit_def read_cint_bytes_def read_bytes_def) linarith
  show "read_cint_bytes data (24 + f) l = Some (take (nat (sint l)) (drop (24 + nat (sint f)) data))"
    using assms by (simp add: name_lengths_fit_def read_cint_bytes_def read_bytes_def a nat_add_distrib) linarith
  show "read_cint_bytes data (24 + f + l) n =
      Some (take (nat (sint n)) (drop (24 + nat (sint f) + nat (sint l)) data))"
    using assms by (simp add: name_lengths_fit_def read_cint_bytes_def read_bytes_def b nat_add_distrib) linarith
qed

lemma ParseShortUserData_eq:
  assumes sz: "0 \<le> sint sz" "nat (sint sz) \<le> length data"
  shows "ParseShortUserData data sz out =
    (if sint sz < 24 \<or> sint sz < sint (int_at data 0) then Some (False, out)
     else let f = sint (int_at data 12); l = sint (int_at data 16); n = sint (int_at data 20);
              out' = out\<lparr>suin := \<lparr>uid = int_at data 4, hid = int_at data 8 AND 0xFFFF\<rparr>\<rparr>
          in if name_lengths_fit (sint sz) f l n
             then Some (True, out'\<lparr>firstName := take (nat f) (drop 24 data),
                    lastName := take (nat l) (drop (24 + nat f) data),
                    nickName := take (nat n) (drop (24 + nat f + nat l) data)\<rparr>)
             else Some (False, out'))"
proof (cases "sint sz < 24 \<or> sint sz < sint (int_at data 0)")
  case True
  moreover have "24 \<le> length data" if "24 \<le> sint sz"
    using that sz by linarith
  ultimately show ?thesis
    by (auto simp: ParseShortUserData_def GetInt_int_at Let_def not_less)
next
  case False
  then have len: "24 \<le> length data" using sz by linarith
  let ?f = "int_at data 12" and ?l = "int_at data 16" and ?n = "int_at data 20"
  have fit: "name_lengths_fit (sint sz) (sint ?f) (sint ?l) (sint ?n) \<longleftrightarrow>
      \<not> (sint ?f < 0 \<or> sint ?l < 0 \<or> sint ?n < 0) \<and>
      \<not> (sint ?f > sint (sz - 24) \<or> sint ?l > sint (sz - 24 - ?f)
          \<or> sint ?n > sint (sz - 24 - ?f - ?l))"
    using name_guards [of sz ?f ?l ?n] False by (auto simp: not_less)
  have reads: "name_lengths_fit (sint sz) (sint ?f) (sint ?l) (sint ?n) \<Longrightarrow>
      read_cint_bytes data 24 ?f = Some (take (nat (sint ?f)) (drop 24 data)) \<and>
      read_cint_bytes data (24 + ?f) ?l = Some (take (nat (sint ?l)) (drop (24 + nat (sint ?f)) data)) \<and>
      read_cint_bytes data (24 + ?f + ?l) ?n =
        Some (take (nat (sint ?n)) (drop (24 + nat (sint ?f) + nat (sint ?l)) data))"
    using read_names [of "sint sz" ?f ?l ?n data] sz cint_range [of sz] by blast
  show ?thesis
  proof (cases "name_lengths_fit (sint sz) (sint ?f) (sint ?l) (sint ?n)")
    case fits: True
    with fit have "\<not> (sint ?f < 0 \<or> sint ?l < 0 \<or> sint ?n < 0)"
      "\<not> (sint ?f > sint (sz - 24) \<or> sint ?l > sint (sz - 24 - ?f)
          \<or> sint ?n > sint (sz - 24 - ?f - ?l))" by blast+
    with False len fits reads show ?thesis
      by (simp add: ParseShortUserData_def GetInt_int_at Let_def)
  next
    case nofit: False
    with fit False len show ?thesis
      by (auto simp: ParseShortUserData_def GetInt_int_at Let_def)
  qed
qed

lemma ParseShortUserData_in_bounds:
  "0 \<le> sint sz \<Longrightarrow> nat (sint sz) \<le> length data \<Longrightarrow> ParseShortUserData data sz out \<noteq> None"
  by (auto simp: ParseShortUserData_eq Let_def)

text \<open>The blob as the server packs it: the layout the parser's comments describe.\<close>

definition short_user_bytes :: "ShortUserData \<Rightarrow> byte list" where
  "short_user_bytes u =
     concat (map le_bytes [24 + of_nat (length (firstName u) + length (lastName u) + length (nickName u)),
       uid (suin u), hid (suin u), of_nat (length (firstName u)), of_nat (length (lastName u)),
       of_nat (length (nickName u))]) @ firstName u @ lastName u @ nickName u"

lemma length_short_user_bytes [simp]:
  "length (short_user_bytes u) = 24 + (length (firstName u) + length (lastName u) + length (nickName u))"
  by (simp add: short_user_bytes_def)

lemma short_user_ints:
  "i < 6 \<Longrightarrow> int_at (short_user_bytes u @ rest) (4 * i) =
     [24 + of_nat (length (firstName u) + length (lastName u) + length (nickName u)),
       uid (suin u), hid (suin u), of_nat (length (firstName u)), of_nat (length (lastName u)),
       of_nat (length (nickName u))] ! i"
  using int32.dec_concat [of i "[24 + of_nat (length (firstName u) + length (lastName u) + length (nickName u)),
       uid (suin u), hid (suin u), of_nat (length (firstName u)), of_nat (length (lastName u)),
       of_nat (length (nickName u))]" "[]" "firstName u @ lastName u @ nickName u @ rest"]
  by (simp add: short_user_bytes_def int_at_def del: list.map concat.simps of_nat_add)

lemma Parse_short_user_bytes:
  assumes "int (length (short_user_bytes u)) \<le> INT_MAX"
  shows "ParseShortUserData (short_user_bytes u @ rest) (of_nat (length (short_user_bytes u))) out =
    Some (True, u\<lparr>suin := \<lparr>uid = uid (suin u), hid = hid (suin u) AND 0xFFFF\<rparr>\<rparr>)"
proof -
  let ?d = "short_user_bytes u @ rest"
  have ints: "int_at ?d 0 = of_nat (length (short_user_bytes u))" "int_at ?d 4 = uid (suin u)"
    "int_at ?d 8 = hid (suin u)" "int_at ?d 12 = of_nat (length (firstName u))"
    "int_at ?d 16 = of_nat (length (lastName u))" "int_at ?d 20 = of_nat (length (nickName u))"
    using short_user_ints [of 0 u rest] short_user_ints [of 1 u rest] short_user_ints [of 2 u rest]
      short_user_ints [of 3 u rest] short_user_ints [of 4 u rest] short_user_ints [of 5 u rest]
    by simp_all
  have lens: "sint (of_nat (length (short_user_bytes u)) :: cint) = int (length (short_user_bytes u))"
    "sint (of_nat (length (firstName u)) :: cint) = int (length (firstName u))"
    "sint (of_nat (length (lastName u)) :: cint) = int (length (lastName u))"
    "sint (of_nat (length (nickName u)) :: cint) = int (length (nickName u))"
    using assms by (intro sint_of_nat_id; simp)+
  have d: "?d = (concat (map le_bytes [24 + of_nat (length (firstName u) + length (lastName u)
        + length (nickName u)), uid (suin u), hid (suin u), of_nat (length (firstName u)),
        of_nat (length (lastName u)), of_nat (length (nickName u))]) @ firstName u @ lastName u)
      @ nickName u @ rest"
    by (simp add: short_user_bytes_def)
  have names: "take (length (firstName u)) (drop 24 ?d) = firstName u"
    "take (length (lastName u)) (drop (24 + length (firstName u)) ?d) = lastName u"
    "take (length (nickName u)) (drop (24 + length (firstName u) + length (lastName u)) ?d) = nickName u"
    by (subst d, simp)+
  have fits: "name_lengths_fit (int (length (short_user_bytes u))) (int (length (firstName u)))
      (int (length (lastName u))) (int (length (nickName u)))"
    by (simp add: name_lengths_fit_def)
  show ?thesis
    by (subst ParseShortUserData_eq)
      (simp_all only: ints lens names fits nat_int Let_def, simp_all)
qed

section \<open>Properties\<close>

text \<open>Whatever the bytes of a packet are, neither parser reads outside the block it was given,
  as long as the claimed size is not larger than the block.\<close>

lemma parsers_stay_in_bounds:
  assumes "nat (sint sz) \<le> length data"
  shows "ParsePackedBabelMessage data sz sender messageType payload \<noteq> None \<and> ParseShortUserData data sz out \<noteq> None"
proof (cases "0 \<le> sint sz")
  case True
  then show ?thesis
    using ParsePackedBabelMessage_in_bounds [OF _ assms] ParseShortUserData_in_bounds [OF _ assms] by simp
next
  case False
  then show ?thesis by (simp add: ParsePackedBabelMessage_def ParseShortUserData_def)
qed

text \<open>A user data blob in the documented layout is parsed back to its names and identity, whatever
  follows it.\<close>

lemma short_user_data_round_trip:
  assumes "int (length (short_user_bytes u)) \<le> INT_MAX"
  shows "ParseShortUserData (short_user_bytes u @ rest) (of_nat (length (short_user_bytes u))) out =
    Some (True, u\<lparr>suin := \<lparr>uid = uid (suin u), hid = hid (suin u) AND 0xFFFF\<rparr>\<rparr>)"
  using assms by (rule Parse_short_user_bytes)

end
