(* ===== verification/NetState.thy ===== *)
theory NetState imports NetSocket NetFiles NetParsers
begin

text \<open>
  The state of \<open>DSNetManager\<close> and its small operations: construction, accessors, the ticket
  and virtual socket counters, going offline.  One record holds every data member of the
  class (except the logger, to which nothing flows back), the static configuration, the
  socket, and the operating system.

  Two members are not in the source: \<open>myFault\<close> records that a step did something a C++
  program may not do, or that a loop of the model ran out of fuel, and \<open>myDeleted\<close> lists the
  queued messages that were deleted.
\<close>

section \<open>Data\<close>

datatype net_error = ERROR_UNKNOWN | ERROR_OK | ERROR_OFFLINE | ERROR_BAD_USER
  | ERROR_ALREADY_LOGGED_IN | ERROR_TOO_MANY_USERS | ERROR_INTERNAL | ERROR_NEEDS_UPDATE

datatype ClientMode = CLIENT_MODE_MODERN | CLIENT_MODE_ORIGINAL

datatype TransactionKind = TRANS_CLIENT_INFO | TRANS_CONNECTION_DETAIL | TRANS_STATUS
  | TRANS_RANDOM_USER | TRANS_FEED_HISTORY | TRANS_ABANDONED

datatype ConnectPhase = PHASE_IDLE | PHASE_CONNECTING | PHASE_AWAIT_HANDSHAKE | PHASE_ONLINE | PHASE_FAILED

record CBabelServerInfo =
  si_myHost :: string
  si_myFriendlyName :: string
  si_myPort :: cint
  si_myID :: cint

definition CBabelServerInfo_new :: CBabelServerInfo where
  "CBabelServerInfo_new = \<lparr>si_myHost = [], si_myFriendlyName = [], si_myPort = 0, si_myID = 0\<rparr>"

record Transaction =
  t_kind :: TransactionKind
  t_fixedExtra :: cint
  t_done :: bool
  t_success :: bool
  t_resultUIN :: BabelUIN
  t_resultString :: string
  t_resultInts :: "cint list"

definition Transaction_new :: Transaction where
  "Transaction_new = \<lparr>t_kind = TRANS_ABANDONED, t_fixedExtra = 0, t_done = False, t_success = False,
     t_resultUIN = BabelUIN_zero, t_resultString = [], t_resultInts = [0, 0, 0, 0]\<rparr>"

record Presence =
  pr_online :: bool
  pr_nickName :: string

definition Presence_new :: Presence where
  "Presence_new = \<lparr>pr_online = False, pr_nickName = []\<rparr>"

record IncomingMessage =
  im_user :: string
  im_type :: cint
  im_payload :: "byte list"

record PendingQuery =
  q_ticket :: cint
  q_deadline :: u32

definition PendingQuery_new :: PendingQuery where
  "PendingQuery_new = \<lparr>q_ticket = 0, q_deadline = 0\<rparr>"

datatype fault = OutOfBounds | FuelSpent | NoFreeName

text \<open>A queued message is the address of an object of the engine.\<close>

type_synonym qmsg = nat

record mgr =
  ourOverrideHost :: string
  ourOverridePort :: cint
  ourClientMode :: ClientMode
  mySocket :: nnsock
  myOs :: os
  myConnectPhase :: ConnectPhase
  myConnectDeadline :: u32
  myServerRotation :: cint
  myNickname :: string
  myPassword :: string
  myUserUIN :: BabelUIN
  myServerUIN :: BabelUIN
  myConnectedAtMs :: u32
  myLastError :: net_error
  myRawError :: cint
  myCurrentAction :: string
  myServers :: "CBabelServerInfo list"
  myConnectedHost :: string
  myConnectedPort :: cint
  myConnectedID :: cint
  myConnectedFriendlyName :: string
  myNextTicketNumber :: cint
  myNextVSN :: cint
  myTransactions :: "cint \<rightharpoonup> Transaction"
  myPresence :: "string \<rightharpoonup> Presence"
  myWWRMembers :: "string set"
  myChangedUsers :: "string list"
  myPendingWWRAdds :: "string \<rightharpoonup> u32"
  myUsersForWWR :: "string list"
  myPendingUserFetches :: "string \<rightharpoonup> PendingQuery"
  myRandomUserQuery :: PendingQuery
  myStatusQuery :: PendingQuery
  myIncomingMessages :: "IncomingMessage list"
  myQueuedMessages :: "qmsg list"
  myOutboxDirectory :: string
  myInboxDirectory :: string
  myOutboxDirty :: bool
  myNextOutboxScan :: u32
  myFault :: "fault option"
  myDeleted :: "qmsg list"

definition CONNECT_TIMEOUT_MS :: u32 where [consts_simps]: "CONNECT_TIMEOUT_MS = 30000"
definition QUERY_TIMEOUT_MS :: u32 where [consts_simps]: "QUERY_TIMEOUT_MS = 10000"
definition WWR_ADD_TIMEOUT_MS :: u32 where [consts_simps]: "WWR_ADD_TIMEOUT_MS = 4000"
definition USER_ONLINE_TIMEOUT_MS :: u32 where [consts_simps]: "USER_ONLINE_TIMEOUT_MS = 5000"
definition HISTORY_TIMEOUT_MS :: u32 where [consts_simps]: "HISTORY_TIMEOUT_MS = 8000"
definition OUTBOX_RESCAN_MS :: u32 where [consts_simps]: "OUTBOX_RESCAN_MS = 5000"
definition MAX_FURTHER_DATA :: cint where [consts_simps]: "MAX_FURTHER_DATA = 33554432"
definition DEFAULT_HOST :: string where "DEFAULT_HOST = ''heart.creatures.net''"
definition DEFAULT_PORT :: cint where [consts_simps]: "DEFAULT_PORT = 49152"
definition DEFAULT_ID :: cint where [consts_simps]: "DEFAULT_ID = 1"
definition DEFAULT_FRIENDLY_NAME :: string where "DEFAULT_FRIENDLY_NAME = ''Heart''"

text \<open>\<open>Construct\<close>, with the process-wide configuration and system it is constructed in.\<close>

definition DSNetManager_new :: "string \<Rightarrow> cint \<Rightarrow> ClientMode \<Rightarrow> os \<Rightarrow> mgr" where
  "DSNetManager_new host port mode w = \<lparr>ourOverrideHost = host, ourOverridePort = port, ourClientMode = mode,
     mySocket = NetNatsueSocket_new, myOs = w, myConnectPhase = PHASE_IDLE, myConnectDeadline = 0,
     myServerRotation = 0, myNickname = [], myPassword = [], myUserUIN = BabelUIN_zero,
     myServerUIN = BabelUIN_zero, myConnectedAtMs = 0, myLastError = ERROR_UNKNOWN, myRawError = 0,
     myCurrentAction = [], myServers = [], myConnectedHost = [], myConnectedPort = 0,
     myConnectedID = 0, myConnectedFriendlyName = [], myNextTicketNumber = 0, myNextVSN = 0,
     myTransactions = Map.empty, myPresence = Map.empty, myWWRMembers = {}, myChangedUsers = [],
     myPendingWWRAdds = Map.empty, myUsersForWWR = [], myPendingUserFetches = Map.empty,
     myRandomUserQuery = PendingQuery_new, myStatusQuery = PendingQuery_new,
     myIncomingMessages = [], myQueuedMessages = [], myOutboxDirectory = [], myInboxDirectory = [],
     myOutboxDirty = True, myNextOutboxScan = 0, myFault = None, myDeleted = []\<rparr>"

section \<open>Calls on the socket and the system\<close>

definition sock_op :: "(nnsock \<Rightarrow> os \<Rightarrow> 'r \<times> nnsock \<times> os) \<Rightarrow> mgr \<Rightarrow> 'r \<times> mgr" where
  "sock_op f m = (case f (mySocket m) (myOs m) of (r, s, w) \<Rightarrow> (r, m\<lparr>mySocket := s, myOs := w\<rparr>))"

definition sock_Write :: "byte list \<Rightarrow> mgr \<Rightarrow> bool \<times> mgr" where
  "sock_Write data = sock_op (Write data)"

definition sock_Close :: "mgr \<Rightarrow> mgr" where
  "sock_Close m = (case Close (mySocket m) (myOs m) of (s, w) \<Rightarrow> m\<lparr>mySocket := s, myOs := w\<rparr>)"

definition os_op :: "(os \<Rightarrow> 'r \<times> os) \<Rightarrow> mgr \<Rightarrow> 'r \<times> mgr" where
  "os_op f m = (case f (myOs m) of (r, w) \<Rightarrow> (r, m\<lparr>myOs := w\<rparr>))"

definition mgr_now :: "mgr \<Rightarrow> u32 \<times> mgr" where
  "mgr_now = os_op NowMs"

definition set_fault :: "fault \<Rightarrow> mgr \<Rightarrow> mgr" where
  "set_fault f m = (if myFault m = None then m\<lparr>myFault := Some f\<rparr> else m)"

section \<open>Accessors and configuration\<close>

definition OverrideHost :: "string \<Rightarrow> cint \<Rightarrow> mgr \<Rightarrow> mgr" where
  "OverrideHost host port m = m\<lparr>ourOverrideHost := host, ourOverridePort := port\<rparr>"

definition SetClientMode :: "ClientMode \<Rightarrow> mgr \<Rightarrow> mgr" where
  "SetClientMode mode m = m\<lparr>ourClientMode := mode\<rparr>"

definition SetUser :: "string \<Rightarrow> string \<Rightarrow> mgr \<Rightarrow> mgr" where
  "SetUser nickname password m = m\<lparr>myNickname := nickname, myPassword := password\<rparr>"

definition UserSet :: "mgr \<Rightarrow> bool" where
  "UserSet m \<longleftrightarrow> myNickname m \<noteq> []"

definition GetUser :: "mgr \<Rightarrow> string" where
  "GetUser m = (if \<not> BabelUIN_IsSet (myUserUIN m) then [] else BabelUIN_ToString (myUserUIN m))"

definition Online :: "mgr \<Rightarrow> bool" where
  "Online m \<longleftrightarrow> myConnectPhase m = PHASE_ONLINE \<and> IsConnected (mySocket m)"

text \<open>What the engine can ask for.\<close>

definition GetLastError :: "mgr \<Rightarrow> net_error" where "GetLastError m = myLastError m"
definition RawGetLastError :: "mgr \<Rightarrow> cint" where "RawGetLastError m = myRawError m"
definition GetServerList :: "mgr \<Rightarrow> CBabelServerInfo list" where "GetServerList m = myServers m"
definition GetServerHost :: "mgr \<Rightarrow> string" where "GetServerHost m = myConnectedHost m"
definition GetServerPort :: "mgr \<Rightarrow> cint" where "GetServerPort m = myConnectedPort m"
definition GetServerID :: "mgr \<Rightarrow> cint" where "GetServerID m = myConnectedID m"
definition GetServerFriendlyName :: "mgr \<Rightarrow> string" where "GetServerFriendlyName m = myConnectedFriendlyName m"

definition SetServerList :: "CBabelServerInfo list \<Rightarrow> mgr \<Rightarrow> mgr" where
  "SetServerList servers m = m\<lparr>myServers := servers, myServerRotation := 0\<rparr>"

definition QueueMessage :: "qmsg \<Rightarrow> mgr \<Rightarrow> mgr" where
  "QueueMessage message m = m\<lparr>myQueuedMessages := myQueuedMessages m @ [message]\<rparr>"

definition SetOutboxDirectory :: "string \<Rightarrow> mgr \<Rightarrow> mgr" where
  "SetOutboxDirectory dir m = m\<lparr>myOutboxDirectory := EnsureTrailingSeparator dir, myOutboxDirty := True\<rparr>"

definition SetInboxDirectory :: "string \<Rightarrow> mgr \<Rightarrow> mgr" where
  "SetInboxDirectory dir m = m\<lparr>myInboxDirectory := EnsureTrailingSeparator dir\<rparr>"

text \<open>The compiler's \<open>__DATE__\<close>, \<open>Mmm dd yyyy\<close>, as the idle status shows it.\<close>

definition month_names :: string where
  "month_names = ''JanFebMarAprMayJunJulAugSepOctNovDec''"

definition two_digits :: "nat \<Rightarrow> string" where
  "two_digits n = (if n < 10 then ''0'' else []) @ show_nat n"

definition DefaultCurrentAction :: "string \<Rightarrow> string" where
  "DefaultCurrentAction date =
     (let month = foldl (\<lambda>month i. if take 3 date = take 3 (drop (i * 3) month_names) then i + 1 else month)
                    0 [0..<12];
          day = (if date ! 4 = CHR '' '' then 0 else (of_char (date ! 4) - 48) * 10)
                + (of_char (date ! 5) - 48)
      in ''Natsuo '' @ take 4 (drop 7 date) @ ''-'' @ two_digits month @ ''-'' @ two_digits day)"

definition DebugGetCurrentAction :: "string \<Rightarrow> mgr \<Rightarrow> string" where
  "DebugGetCurrentAction date m =
     (if myCurrentAction m = [] then DefaultCurrentAction date else myCurrentAction m)"

definition MapHandshakeError :: "cint \<Rightarrow> net_error" where
  "MapHandshakeError code =
     (if code = 0 then ERROR_OFFLINE
      else if code = 1 then ERROR_ALREADY_LOGGED_IN
      else if code = 3 \<or> code = 6 then ERROR_BAD_USER
      else if code = 7 \<or> code = 13 \<or> code = 15 then ERROR_OFFLINE
      else if code = 12 then ERROR_TOO_MANY_USERS
      else if code = 14 then ERROR_NEEDS_UPDATE
      else if code = 16 then ERROR_UNKNOWN
      else ERROR_INTERNAL)"

section \<open>Counters\<close>

definition next_ticket_number :: "cint \<Rightarrow> cint" where
  "next_ticket_number n = (let n = n + 1 in if n = 0 then n + 1 else n)"

definition NextTicket :: "mgr \<Rightarrow> cint \<times> mgr" where
  "NextTicket m = (let n = next_ticket_number (myNextTicketNumber m) in (n, m\<lparr>myNextTicketNumber := n\<rparr>))"

definition next_vsn :: "cint \<Rightarrow> cint" where
  "next_vsn n = (let n = (n + 1) AND 0xFFFF in if n = 0 then 1 else n)"

definition NextVSN :: "mgr \<Rightarrow> cint \<times> mgr" where
  "NextVSN m = (let n = next_vsn (myNextVSN m) in (n, m\<lparr>myNextVSN := n\<rparr>))"

text \<open>
  A counter that runs round a cycle of \<open>period\<close> identifiers and never shows the reserved one:
  identifiers less than a period apart differ.
\<close>

locale id_counter =
  fixes nxt :: "'a \<Rightarrow> 'a"
    and valid :: "'a \<Rightarrow> bool"
    and rank :: "'a \<Rightarrow> nat"
    and period :: nat
    and reserved :: 'a
  assumes valid_nxt: "valid (nxt n)"
    and valid_not_reserved: "valid n \<Longrightarrow> n \<noteq> reserved"
    and rank_bound: "valid n \<Longrightarrow> rank n < period"
    and rank_nxt: "valid n \<Longrightarrow> rank (nxt n) = Suc (rank n) mod period"
begin

lemma valid_run: "valid n \<Longrightarrow> valid ((nxt ^^ i) n)"
  by (cases i) (simp_all add: valid_nxt)

lemma rank_run: "valid n \<Longrightarrow> rank ((nxt ^^ i) n) = (rank n + i) mod period"
proof (induction i)
  case 0
  then show ?case by (simp add: rank_bound)
next
  case (Suc i)
  then show ?case by (simp add: rank_nxt valid_run mod_Suc_eq)
qed

lemma add_mod_inj:
  assumes "i < period" "j < period" "(a + i) mod period = (a + j) mod period"
  shows "i = j"
proof -
  have *: "i = j" if "i \<le> j" "j < period" "(a + j) mod period = (a + i) mod period" for i j
  proof -
    have "period dvd (a + j) - (a + i)"
      using that mod_eq_dvd_iff_nat[of "a + i" "a + j" period] by simp
    then have "period dvd j - i" by simp
    then show ?thesis using that by (metis dvd_imp_le diff_is_0_eq less_imp_diff_less linorder_not_less
          antisym_conv zero_less_iff_neq_zero)
  qed
  show ?thesis using *[of i j] *[of j i] assms by (metis nle_le)
qed

lemma run_distinct:
  assumes "valid n" "i < period" "j < period" "(nxt ^^ i) n = (nxt ^^ j) n"
  shows "i = j"
proof -
  have "(rank n + i) mod period = (rank n + j) mod period"
    using assms rank_run by metis
  then show ?thesis using assms(2,3) add_mod_inj by blast
qed

lemma never_reserved: "(nxt ^^ Suc i) n \<noteq> reserved"
  using valid_nxt valid_not_reserved by simp

end

text \<open>Tickets run through the 2^32 - 1 numbers that are not 0, virtual sockets through 1 .. 65535.\<close>

lemma next_ticket_number_nonzero: "next_ticket_number n \<noteq> 0"
  by (auto simp: next_ticket_number_def Let_def)

lemma unat_pred_bound:
  fixes n :: u32
  assumes "n \<noteq> 0"
  shows "unat n - 1 < 4294967295"
  using assms unat_u32_bound[of n] unat_gt_0[of n] by linarith

lemma rank_next_ticket:
  fixes n :: cint
  assumes "n \<noteq> 0"
  shows "unat (next_ticket_number n) - 1 = Suc (unat n - 1) mod 4294967295"
proof (cases "n + 1 = 0")
  case True
  then have "n = - 1" by (simp add: eq_neg_iff_add_eq_0)
  then show ?thesis by (simp add: next_ticket_number_def unsigned_minus_1_eq_mask mask_eq_exp_minus_1)
next
  case False
  have u: "unat (n + 1) = unat n + 1" using False by (simp add: Word.unatSuc add.commute)
  have "0 < unat n" using assms by (simp add: unat_gt_0)
  then show ?thesis using False u unat_u32_bound[of "n + 1"]
    by (simp add: next_ticket_number_def)
qed

interpretation tickets: id_counter next_ticket_number "\<lambda>n. n \<noteq> 0" "\<lambda>n. unat n - 1" 4294967295 0
  by unfold_locales (use next_ticket_number_nonzero unat_pred_bound rank_next_ticket in auto)

lemma low_half: "unat (n AND 0xFFFF :: cint) = unat n mod 65536"
proof -
  have "n AND 0xFFFF = take_bit 16 n" by (simp add: take_bit_eq_mask mask_eq_exp_minus_1)
  then have "unat (n AND 0xFFFF) = take_bit 16 (unat n)"
    by (simp only: unsigned_take_bit_eq)
  then show ?thesis by (simp only: take_bit_eq_mod) simp
qed

lemma next_vsn_range: "unat (next_vsn n) \<noteq> 0 \<and> unat (next_vsn n) < 65536"
proof (cases "(n + 1) AND 0xFFFF = 0")
  case True
  then show ?thesis by (simp add: next_vsn_def)
next
  case False
  have "unat ((n + 1) AND 0xFFFF) < 65536" unfolding low_half by simp
  then show ?thesis using False by (simp add: next_vsn_def unat_eq_0)
qed

lemma rank_next_vsn:
  fixes n :: cint
  assumes "unat n \<noteq> 0" "unat n < 65536"
  shows "unat (next_vsn n) - 1 = Suc (unat n - 1) mod 65535"
proof -
  have u: "unat (n + 1) = unat n + 1"
    using assms by (simp add: unat_word_ariths)
  have h: "unat ((n + 1) AND 0xFFFF) = (unat n + 1) mod 65536" using low_half[of "n + 1"] u by simp
  show ?thesis
  proof (cases "unat n = 65535")
    case True
    then have "(n + 1) AND 0xFFFF = 0" using h by (simp add: unat_eq_0)
    then show ?thesis using True by (simp add: next_vsn_def)
  next
    case False
    then have "unat ((n + 1) AND 0xFFFF) = unat n + 1" using h assms by simp
    moreover from this have "(n + 1) AND 0xFFFF \<noteq> 0" by (metis add_is_0 unat_0 zero_neq_one)
    ultimately show ?thesis using False assms by (simp add: next_vsn_def)
  qed
qed

interpretation vsns: id_counter next_vsn "\<lambda>n. unat n \<noteq> 0 \<and> unat n < 65536" "\<lambda>n. unat n - 1" 65535 0
proof unfold_locales
  fix n :: cint
  show "unat (next_vsn n) \<noteq> 0 \<and> unat (next_vsn n) < 65536" by (rule next_vsn_range)
  show "unat n \<noteq> 0 \<and> unat n < 65536 \<Longrightarrow> n \<noteq> 0" by auto
  show "unat n \<noteq> 0 \<and> unat n < 65536 \<Longrightarrow> unat n - 1 < 65535" by linarith
  show "unat n \<noteq> 0 \<and> unat n < 65536 \<Longrightarrow> unat (next_vsn n) - 1 = Suc (unat n - 1) mod 65535"
    using rank_next_vsn by blast
qed

section \<open>The socket as the manager uses it\<close>

text \<open>The parts of the manager a socket call can touch, and the parts it cannot.\<close>

lemma sock_Write_eq:
  "sock_Write data m = (ok, m') \<longleftrightarrow> (\<exists>s w. Write data (mySocket m) (myOs m) = (ok, s, w)
     \<and> m' = m\<lparr>mySocket := s, myOs := w\<rparr>)"
  by (auto simp: sock_Write_def sock_op_def split: prod.splits)

interpretation mgr_transport: transport sock_Write "\<lambda>m. IsConnected (mySocket m)" "\<lambda>m. written (mySocket m) (myOs m)"
  by unfold_locales (auto simp: sock_Write_eq IsConnected_def dest!: Write_spec)

lemma sock_Close_eq: "\<exists>s w. Close (mySocket m) (myOs m) = (s, w) \<and> sock_Close m = m\<lparr>mySocket := s, myOs := w\<rparr>"
  by (auto simp: sock_Close_def split: prod.split)

lemma sock_Close_not_connected: "\<not> IsConnected (mySocket (sock_Close m))"
  using sock_Close_eq [of m] by (auto simp: IsConnected_def dest: Close_fields)

lemma set_fault_eq: "set_fault f m = m\<lparr>myFault := (if myFault m = None then Some f else myFault m)\<rparr>"
  by (simp add: set_fault_def)

section \<open>Properties\<close>

text \<open>The numbers a run of calls returns, from the manager's state on.\<close>

definition nth_ticket :: "mgr \<Rightarrow> nat \<Rightarrow> cint" where
  "nth_ticket m i = fst (NextTicket (((\<lambda>m. snd (NextTicket m)) ^^ i) m))"

definition nth_vsn :: "mgr \<Rightarrow> nat \<Rightarrow> cint" where
  "nth_vsn m i = fst (NextVSN (((\<lambda>m. snd (NextVSN m)) ^^ i) m))"

lemma nth_ticket_eq: "nth_ticket m i = (next_ticket_number ^^ i) (next_ticket_number (myNextTicketNumber m))"
proof -
  have "myNextTicketNumber (((\<lambda>m. snd (NextTicket m)) ^^ i) m) = (next_ticket_number ^^ i) (myNextTicketNumber m)"
    by (induction i) (simp_all add: NextTicket_def Let_def)
  then show ?thesis by (simp add: nth_ticket_def NextTicket_def Let_def funpow_swap1)
qed

lemma nth_vsn_eq: "nth_vsn m i = (next_vsn ^^ i) (next_vsn (myNextVSN m))"
proof -
  have "myNextVSN (((\<lambda>m. snd (NextVSN m)) ^^ i) m) = (next_vsn ^^ i) (myNextVSN m)"
    by (induction i) (simp_all add: NextVSN_def Let_def)
  then show ?thesis by (simp add: nth_vsn_def NextVSN_def Let_def funpow_swap1)
qed

text \<open>C30: Tickets are never 0, which stands for "no ticket", and no two of any 2^32 - 1 issued in a
  row are equal; virtual socket numbers fit 16 bits, are never 0, and no two of 65535 are equal.\<close>

theorem numbers_do_not_repeat:
  "inj_on (nth_ticket m) {..<4294967295} \<and> range (nth_ticket m) \<subseteq> {k. k \<noteq> 0}
    \<and> inj_on (nth_vsn m) {..<65535} \<and> range (nth_vsn m) \<subseteq> {v. 0 < unat v \<and> unat v < 65536}"
proof (intro conjI)
  show "inj_on (nth_ticket m) {..<4294967295}"
    using tickets.run_distinct [OF next_ticket_number_nonzero] by (intro inj_onI) (simp add: nth_ticket_eq)
  show "range (nth_ticket m) \<subseteq> {k. k \<noteq> 0}"
    using tickets.valid_run [OF next_ticket_number_nonzero] by (auto simp: nth_ticket_eq)
  show "inj_on (nth_vsn m) {..<65535}"
    using vsns.run_distinct [OF next_vsn_range] by (intro inj_onI) (simp add: nth_vsn_eq)
  show "range (nth_vsn m) \<subseteq> {v. 0 < unat v \<and> unat v < 65536}"
    using vsns.valid_run [OF next_vsn_range] by (auto simp: nth_vsn_eq)
qed

end
