(* ===== verification/NetPresence.thy ===== *)
theory NetPresence imports NetState
begin

text \<open>
  Presence and the "whose wanted register" of \<open>DSNetManager\<close>: what is known about the users the
  game watches, the queue of changes the game has not seen yet, and the registrations sent
  to the server.

  The lemmas: an update sets the state of one user and of no other; the change queue never
  holds a user twice and gets each watched user whose state an update changed; draining it
  reports the latest state of each; the registrations on the wire are those of the well-formed users,
  in order.
\<close>

section \<open>Operations\<close>

definition UpdatePresence :: "BabelUIN \<Rightarrow> bool \<Rightarrow> string \<Rightarrow> mgr \<Rightarrow> mgr" where
  "UpdatePresence u online nick m =
     (let key = BabelUIN_ToString u;
          presence = (case myPresence m key of Some p \<Rightarrow> p | None \<Rightarrow> Presence_new);
          changed = (pr_online presence \<noteq> online);
          presence = presence\<lparr>pr_online := online\<rparr>;
          presence = (if nick \<noteq> [] then presence\<lparr>pr_nickName := nick\<rparr> else presence);
          m = m\<lparr>myPresence := (myPresence m)(key \<mapsto> presence)\<rparr>
      in if myPendingWWRAdds m key \<noteq> None
         then m\<lparr>myPendingWWRAdds := (myPendingWWRAdds m)(key := None)\<rparr>
         else if changed \<and> key \<in> myWWRMembers m
         then (if key \<in> set (myChangedUsers m) then m
               else m\<lparr>myChangedUsers := myChangedUsers m @ [key]\<rparr>)
         else m)"

definition MarkEveryoneOffline :: "mgr \<Rightarrow> mgr" where
  "MarkEveryoneOffline m = m\<lparr>myPresence := (\<lambda>key. map_option (pr_online_update (\<lambda>_. False)) (myPresence m key)),
     myChangedUsers := [], myPendingWWRAdds := Map.empty\<rparr>"

fun SendWWRRegistrations :: "string list \<Rightarrow> mgr \<Rightarrow> mgr" where
  "SendWWRRegistrations [] m = m"
| "SendWWRRegistrations (user # users) m =
     (case BabelUIN_FromString user of (valid, u) \<Rightarrow>
        if \<not> valid then SendWWRRegistrations users m
        else let m = m\<lparr>myWWRMembers := insert user (myWWRMembers m)\<rparr>
             in (case sock_Write (BuildWWRModify True (myServerUIN m) u) m of (ok, m) \<Rightarrow>
                   if \<not> ok then m else SendWWRRegistrations users m))"

definition ResetIteratorWWR :: "mgr \<Rightarrow> mgr" where
  "ResetIteratorWWR m = m"

text \<open>\<open>None\<close> for \<open>false\<close>, otherwise the user and the state it is reported in.\<close>

definition NextChangedUserWWR :: "mgr \<Rightarrow> (string \<times> bool) option \<times> mgr" where
  "NextChangedUserWWR m = (case myChangedUsers m of
     [] \<Rightarrow> (None, m)
   | user # users \<Rightarrow>
       let m = m\<lparr>myChangedUsers := users\<rparr>;
           online = (case myPresence m user of Some p \<Rightarrow> pr_online p | None \<Rightarrow> False)
       in (Some (user, online), m))"

section \<open>What is known of a user\<close>

definition known_online :: "mgr \<Rightarrow> string \<Rightarrow> bool" where
  "known_online m key = (case myPresence m key of Some p \<Rightarrow> pr_online p | None \<Rightarrow> False)"

lemma UpdatePresence_known:
  "known_online (UpdatePresence u online nick m) key =
     (if key = BabelUIN_ToString u then online else known_online m key)"
  by (auto simp: known_online_def UpdatePresence_def Let_def split: option.split)

lemma UpdatePresence_nick:
  "myPresence (UpdatePresence u online nick m) (BabelUIN_ToString u) = Some p \<Longrightarrow> nick \<noteq> [] \<Longrightarrow> pr_nickName p = nick"
  by (auto simp: UpdatePresence_def Let_def split: if_splits)

text \<open>Everything but the three presence members is as it was.\<close>

lemma UpdatePresence_frame:
  "UpdatePresence u online nick m = m\<lparr>myPresence := myPresence (UpdatePresence u online nick m),
     myChangedUsers := myChangedUsers (UpdatePresence u online nick m),
     myPendingWWRAdds := myPendingWWRAdds (UpdatePresence u online nick m)\<rparr>"
  by (simp add: UpdatePresence_def Let_def)

lemma MarkEveryoneOffline_known: "\<not> known_online (MarkEveryoneOffline m) key"
  by (simp add: known_online_def MarkEveryoneOffline_def split: option.split)

section \<open>The change queue\<close>

lemma UpdatePresence_distinct:
  "distinct (myChangedUsers m) \<Longrightarrow> distinct (myChangedUsers (UpdatePresence u online nick m))"
  by (simp add: UpdatePresence_def Let_def)

lemma UpdatePresence_keeps_queued:
  "key \<in> set (myChangedUsers m) \<Longrightarrow> key \<in> set (myChangedUsers (UpdatePresence u online nick m))"
  by (simp add: UpdatePresence_def Let_def)

lemma UpdatePresence_queues:
  "key \<in> myWWRMembers m \<Longrightarrow> myPendingWWRAdds m key = None \<Longrightarrow>
   known_online (UpdatePresence u online nick m) key \<noteq> known_online m key \<Longrightarrow>
   key \<in> set (myChangedUsers (UpdatePresence u online nick m))"
  by (auto simp: known_online_def UpdatePresence_def Presence_new_def Let_def split: option.splits if_splits)

lemma UpdatePresence_members [simp]:
  "myWWRMembers (UpdatePresence u online nick m) = myWWRMembers m"
  by (simp add: UpdatePresence_def Let_def)

lemma UpdatePresence_pending:
  "myPendingWWRAdds m key = None \<Longrightarrow> myPendingWWRAdds (UpdatePresence u online nick m) key = None"
  by (simp add: UpdatePresence_def Let_def)

text \<open>The loop the engine runs each tick: call \<open>NextChangedUserWWR\<close> until it returns false.\<close>

fun drain_changes :: "nat \<Rightarrow> mgr \<Rightarrow> (string \<times> bool) list \<times> mgr" where
  "drain_changes 0 m = ([], m)"
| "drain_changes (Suc n) m = (case NextChangedUserWWR m of
     (None, m) \<Rightarrow> ([], m)
   | (Some x, m) \<Rightarrow> (case drain_changes n m of (xs, m) \<Rightarrow> (x # xs, m)))"

lemma drain_changes_eq:
  "length (myChangedUsers m) \<le> n \<Longrightarrow>
   drain_changes n m = (map (\<lambda>user. (user, known_online m user)) (myChangedUsers m), m\<lparr>myChangedUsers := []\<rparr>)"
proof (induction n arbitrary: m)
  case (Suc n)
  show ?case
  proof (cases "myChangedUsers m")
    case Nil
    then show ?thesis by (simp add: NextChangedUserWWR_def)
  next
    case (Cons user users)
    let ?m = "m\<lparr>myChangedUsers := users\<rparr>"
    have "drain_changes n ?m = (map (\<lambda>user. (user, known_online ?m user)) users, m\<lparr>myChangedUsers := []\<rparr>)"
      using Suc Cons by simp
    then show ?thesis
      using Cons by (simp add: NextChangedUserWWR_def Let_def known_online_def)
  qed
qed simp

text \<open>
  A state that is unknown counts as offline: a user of whom nothing is known, and who was found
  online by asking the server, goes offline without a change being queued.
\<close>

lemma goes_offline_unnoticed:
  "myPresence m (BabelUIN_ToString u) = None \<Longrightarrow>
   myChangedUsers (UpdatePresence u False nick m) = myChangedUsers m"
  by (simp add: UpdatePresence_def Presence_new_def Let_def)

section \<open>Registrations\<close>

definition valid_users :: "string list \<Rightarrow> string list" where
  "valid_users users = filter (\<lambda>user. fst (BabelUIN_FromString user)) users"

definition registration_packets :: "BabelUIN \<Rightarrow> string list \<Rightarrow> byte list list" where
  "registration_packets server users =
     map (\<lambda>user. BuildWWRModify True server (snd (BabelUIN_FromString user))) (valid_users users)"

lemma sock_Write_members:
  "sock_Write data (m\<lparr>myWWRMembers := s\<rparr>) = (case sock_Write data m of (ok, m') \<Rightarrow> (ok, m'\<lparr>myWWRMembers := s\<rparr>))"
  by (auto simp: sock_Write_def sock_op_def split: prod.split)

text \<open>
  The registrations are the plain sequence of packets; the members are those reached, all of
  them when no write failed.
\<close>

lemma SendWWRRegistrations_eq:
  "write_all sock_Write (registration_packets (myServerUIN m) users) m = (ok, m') \<Longrightarrow>
   \<exists>reached. SendWWRRegistrations users m = m'\<lparr>myWWRMembers := myWWRMembers m \<union> reached\<rparr>
     \<and> reached \<subseteq> set (valid_users users) \<and> (ok \<longrightarrow> reached = set (valid_users users))"
proof (induction users arbitrary: m ok m')
  case Nil
  then show ?case by (auto simp: registration_packets_def valid_users_def intro!: exI [of _ "{}"])
next
  case (Cons user users)
  obtain valid u where fs: "BabelUIN_FromString user = (valid, u)" by fastforce
  show ?case
  proof (cases valid)
    case False
    with Cons fs show ?thesis by (simp add: registration_packets_def valid_users_def)
  next
    case True
    let ?p = "BuildWWRModify True (myServerUIN m) u"
    obtain ok1 m1 where w: "sock_Write ?p m = (ok1, m1)" by fastforce
    have srv: "myServerUIN m1 = myServerUIN m" "myWWRMembers m1 = myWWRMembers m"
      using w by (auto simp: sock_Write_eq)
    show ?thesis
    proof (cases ok1)
      case False
      with Cons.prems fs True w show ?thesis
        by (auto simp: registration_packets_def valid_users_def sock_Write_members intro!: exI [of _ "{user}"])
    next
      case ok1: True
      let ?m1 = "m1\<lparr>myWWRMembers := insert user (myWWRMembers m)\<rparr>"
      have run: "write_all sock_Write ps (n\<lparr>myWWRMembers := s\<rparr>)
          = (case write_all sock_Write ps n of (ok, m') \<Rightarrow> (ok, m'\<lparr>myWWRMembers := s\<rparr>))" for ps n s
        by (induction ps arbitrary: n) (auto simp: sock_Write_members split: prod.split)
      have "write_all sock_Write (registration_packets (myServerUIN ?m1) users) m1 = (ok, m')"
        using Cons.prems fs True w ok1 srv by (simp add: registration_packets_def valid_users_def)
      then have "write_all sock_Write (registration_packets (myServerUIN ?m1) users) ?m1
          = (ok, m'\<lparr>myWWRMembers := insert user (myWWRMembers m)\<rparr>)"
        by (simp add: run)
      from Cons.IH [OF this] obtain reached where
        "SendWWRRegistrations users ?m1 = m'\<lparr>myWWRMembers := insert user (myWWRMembers m) \<union> reached\<rparr>"
        "reached \<subseteq> set (valid_users users)" "ok \<longrightarrow> reached = set (valid_users users)" by auto
      with fs True w ok1 show ?thesis
        by (auto simp: sock_Write_members valid_users_def intro!: exI [of _ "insert user reached"])
    qed
  qed
qed

lemma SendWWRRegistrations_stream:
  assumes "IsConnected (mySocket (SendWWRRegistrations users m))"
  shows "written (mySocket (SendWWRRegistrations users m)) (myOs (SendWWRRegistrations users m))
      = written (mySocket m) (myOs m) @ concat (registration_packets (myServerUIN m) users)
    \<and> myWWRMembers (SendWWRRegistrations users m) = myWWRMembers m \<union> set (valid_users users)"
proof -
  obtain ok m' where w: "write_all sock_Write (registration_packets (myServerUIN m) users) m = (ok, m')"
    by fastforce
  from SendWWRRegistrations_eq [OF w] obtain reached where
    "SendWWRRegistrations users m = m'\<lparr>myWWRMembers := myWWRMembers m \<union> reached\<rparr>"
    "ok \<longrightarrow> reached = set (valid_users users)" by auto
  with mgr_transport.write_all_up [OF w] assms show ?thesis by auto
qed

end
