(* ===== verification/NetTransactions.thy ===== *)
theory NetTransactions imports NetPresence
begin

text \<open>
  The table of requests whose response is still owed, and the end of a session.

  The length of a response on the wire is known only to the request, so the entry of an
  unanswered request must survive its waiter.  That is stated once, in the interface
  \<open>request_table\<close>, for any run of starts, abandons and polls, and used with the ticket counter.
\<close>

section \<open>Operations\<close>

definition StartTransaction :: "TransactionKind \<Rightarrow> cint \<Rightarrow> mgr \<Rightarrow> cint \<times> mgr" where
  "StartTransaction kind fixedExtra m =
     (let (ticket, m) = NextTicket m;
          transaction = Transaction_new\<lparr>t_kind := kind, t_fixedExtra := fixedExtra\<rparr>
      in (ticket, m\<lparr>myTransactions := (myTransactions m)(ticket \<mapsto> transaction)\<rparr>))"

definition AbandonTransaction :: "cint \<Rightarrow> mgr \<Rightarrow> mgr" where
  "AbandonTransaction ticket m = (case myTransactions m ticket of
     None \<Rightarrow> m
   | Some t \<Rightarrow>
       if t_done t then m\<lparr>myTransactions := (myTransactions m)(ticket := None)\<rparr>
       else m\<lparr>myTransactions := (myTransactions m)(ticket \<mapsto> t\<lparr>t_kind := TRANS_ABANDONED\<rparr>)\<rparr>)"

text \<open>The returned flag, what \<open>result\<close> and \<open>stillPending\<close> hold afterwards, and the manager.\<close>

definition PollTransaction :: "cint \<Rightarrow> Transaction \<Rightarrow> mgr \<Rightarrow> bool \<times> Transaction \<times> bool \<times> mgr" where
  "PollTransaction ticket result m = (case myTransactions m ticket of
     None \<Rightarrow> (True, result, False, m)
   | Some t \<Rightarrow>
       if \<not> t_done t then (False, result, True, m)
       else (True, t, False, m\<lparr>myTransactions := (myTransactions m)(ticket := None)\<rparr>))"

definition Disconnect :: "mgr \<Rightarrow> mgr" where
  "Disconnect m =
     (let m = sock_Close m;
          m = m\<lparr>myConnectPhase := PHASE_IDLE, myCurrentAction := [], myTransactions := Map.empty\<rparr>
      in MarkEveryoneOffline m)"

definition ConnectionLost :: "mgr \<Rightarrow> mgr" where
  "ConnectionLost m =
     (let m = m\<lparr>myLastError := ERROR_OFFLINE, myRawError := - myLastSystemError (mySocket m)\<rparr>;
          m = sock_Close m;
          m = m\<lparr>myConnectPhase := PHASE_IDLE, myCurrentAction := [], myTransactions := Map.empty\<rparr>
      in MarkEveryoneOffline m)"

text \<open>
  The destructor disconnects and deletes what is queued; a deleted message is recorded in
  \<open>myDeleted\<close>.
\<close>

definition DSNetManager_destroy :: "mgr \<Rightarrow> mgr" where
  "DSNetManager_destroy m =
     (let m = Disconnect m in
      m\<lparr>myDeleted := myDeleted m @ myQueuedMessages m, myQueuedMessages := []\<rparr>)"

lemma StartTransaction_eq:
  "StartTransaction kind extra m = (next_ticket_number (myNextTicketNumber m),
     m\<lparr>myNextTicketNumber := next_ticket_number (myNextTicketNumber m),
       myTransactions := (myTransactions m)(next_ticket_number (myNextTicketNumber m) \<mapsto>
         Transaction_new\<lparr>t_kind := kind, t_fixedExtra := extra\<rparr>)\<rparr>)"
  by (simp add: StartTransaction_def NextTicket_def Let_def)

lemma AbandonTransaction_frame:
  "AbandonTransaction k m = m\<lparr>myTransactions := myTransactions (AbandonTransaction k m)\<rparr>"
  by (simp add: AbandonTransaction_def split: option.split)

lemma PollTransaction_frame:
  "PollTransaction k r m = (b, r', p, m') \<Longrightarrow> m' = m\<lparr>myTransactions := myTransactions m'\<rparr>"
  by (auto simp: PollTransaction_def split: option.splits if_splits)

section \<open>The table of owed responses\<close>

datatype table_op = Start TransactionKind cint | Abandon cint | Poll cint

definition transaction_op :: "table_op \<Rightarrow> mgr \<Rightarrow> mgr" where
  "transaction_op x m = (case x of
     Start kind extra \<Rightarrow> snd (StartTransaction kind extra m)
   | Abandon k \<Rightarrow> AbandonTransaction k m
   | Poll k \<Rightarrow> snd (snd (snd (PollTransaction k Transaction_new m))))"

definition starts :: "table_op list \<Rightarrow> nat" where
  "starts xs = length (filter (\<lambda>x. case x of Start _ _ \<Rightarrow> True | _ \<Rightarrow> False) xs)"

text \<open>
  The contract: \<open>owed s k\<close> is the framing of the unanswered request \<open>k\<close>; an operation keeps
  it unless it starts a request under the same ticket, \<open>fresh s\<close>, and only a start issues a
  ticket.
\<close>

locale request_table =
  fixes run :: "table_op \<Rightarrow> 's \<Rightarrow> 's"
    and owed :: "'s \<Rightarrow> cint \<Rightarrow> cint option"
    and last_ticket :: "'s \<Rightarrow> cint"
  assumes started: "owed (run (Start kind extra) s) (next_ticket_number (last_ticket s)) = Some extra"
    and kept: "owed s k = Some extra \<Longrightarrow> k \<noteq> next_ticket_number (last_ticket s) \<Longrightarrow> owed (run x s) k = Some extra"
    and kept_no_start: "owed s k = Some extra \<Longrightarrow> \<forall>kind e. x \<noteq> Start kind e \<Longrightarrow> owed (run x s) k = Some extra"
    and ticket_start: "last_ticket (run (Start kind e) s) = next_ticket_number (last_ticket s)"
    and ticket_other: "\<forall>kind e. x \<noteq> Start kind e \<Longrightarrow> last_ticket (run x s) = last_ticket s"
begin

lemma owed_run:
  "owed s k = Some extra \<Longrightarrow> (\<forall>i. 0 < i \<and> i \<le> starts xs \<longrightarrow> (next_ticket_number ^^ i) (last_ticket s) \<noteq> k)
   \<Longrightarrow> owed (fold run xs s) k = Some extra"
proof (induction xs arbitrary: s)
  case (Cons x xs)
  show ?case
  proof (cases "\<exists>kind e. x = Start kind e")
    case True
    then obtain kind e where x: "x = Start kind e" by blast
    have "owed (run x s) k = Some extra"
      using Cons.prems(2) [rule_format, of 1] kept [OF Cons.prems(1)] x
      by (simp add: starts_def)
    moreover have "(next_ticket_number ^^ i) (last_ticket (run x s)) \<noteq> k" if "0 < i" "i \<le> starts xs" for i
      using Cons.prems(2) [rule_format, of "Suc i"] that x
      by (simp add: starts_def ticket_start funpow_swap1)
    ultimately show ?thesis using Cons.IH by simp
  next
    case False
    moreover from this have "starts (x # xs) = starts xs"
      by (auto simp: starts_def split: table_op.splits)
    ultimately show ?thesis
      using Cons.IH [of "run x s"] Cons.prems kept_no_start [OF Cons.prems(1)] ticket_other by simp
  qed
qed simp

text \<open>So a request's framing is remembered through 2^32 - 2 further requests.\<close>

lemma owed_started:
  assumes "starts xs < 4294967294"
  shows "owed (fold run xs (run (Start kind extra) s)) (next_ticket_number (last_ticket s)) = Some extra"
proof (rule owed_run)
  show "owed (run (Start kind extra) s) (next_ticket_number (last_ticket s)) = Some extra"
    by (rule started)
  show "\<forall>i. 0 < i \<and> i \<le> starts xs \<longrightarrow>
      (next_ticket_number ^^ i) (last_ticket (run (Start kind extra) s)) \<noteq> next_ticket_number (last_ticket s)"
  proof (intro allI impI)
    fix i assume i: "0 < i \<and> i \<le> starts xs"
    have "(next_ticket_number ^^ i) (next_ticket_number (last_ticket s)) \<noteq> next_ticket_number (last_ticket s)"
      using tickets.run_distinct [of "next_ticket_number (last_ticket s)" i 0] i assms
      by (auto simp: next_ticket_number_nonzero)
    then show "(next_ticket_number ^^ i) (last_ticket (run (Start kind extra) s)) \<noteq> next_ticket_number (last_ticket s)"
      by (simp add: ticket_start)
  qed
qed

end

text \<open>What the manager owes: the framing of the transactions not done.\<close>

definition owed_framing :: "mgr \<Rightarrow> cint \<Rightarrow> cint option" where
  "owed_framing m k = (case myTransactions m k of
     Some t \<Rightarrow> if t_done t then None else Some (t_fixedExtra t) | None \<Rightarrow> None)"

interpretation requests: request_table transaction_op owed_framing myNextTicketNumber
  by unfold_locales
    (auto simp: transaction_op_def owed_framing_def StartTransaction_eq AbandonTransaction_def
      PollTransaction_def Transaction_new_def split: option.splits table_op.splits if_splits)

section \<open>The end of a session\<close>

text \<open>What losing the connection, or giving it up, leaves behind.\<close>

definition session_over :: "mgr \<Rightarrow> bool" where
  "session_over m \<longleftrightarrow> myConnectPhase m = PHASE_IDLE \<and> myState (mySocket m) = STATE_CLOSED
     \<and> myTransactions m = Map.empty \<and> myChangedUsers m = [] \<and> myPendingWWRAdds m = Map.empty
     \<and> (\<forall>key. \<not> known_online m key)"

lemma sock_Close_fields:
  "sock_Close m = m\<lparr>mySocket := mySocket (sock_Close m), myOs := myOs (sock_Close m)\<rparr>"
  "myState (mySocket (sock_Close m)) = STATE_CLOSED"
  "myHandle (mySocket (sock_Close m)) = None"
  "myInput (mySocket (sock_Close m)) = myInput (mySocket m)"
  using sock_Close_eq [of m] by (auto dest: Close_fields)

lemma ConnectionLost_session_over: "session_over (ConnectionLost m)"
proof -
  let ?m = "sock_Close (m\<lparr>myLastError := ERROR_OFFLINE, myRawError := - myLastSystemError (mySocket m)\<rparr>)"
  show ?thesis
    using sock_Close_fields(2) [of "m\<lparr>myLastError := ERROR_OFFLINE, myRawError := - myLastSystemError (mySocket m)\<rparr>"]
      MarkEveryoneOffline_known
    by (auto simp: session_over_def ConnectionLost_def Let_def MarkEveryoneOffline_def known_online_def
        split: option.splits)
qed

lemma Disconnect_session_over: "session_over (Disconnect m)"
  using sock_Close_fields(2) [of m]
  by (auto simp: session_over_def Disconnect_def Let_def MarkEveryoneOffline_def known_online_def
      split: option.splits)

lemma session_over_offline: "session_over m \<Longrightarrow> \<not> Online m"
  by (simp add: session_over_def Online_def)

section \<open>Properties\<close>

text \<open>C22: However many requests are started, given up and polled in between, short of 2^32 - 2 new
  ones, the manager still knows how long the response of an unanswered request is.\<close>

theorem framing_remembered:
  assumes "starts xs < 4294967294"
  shows "let (ticket, m1) = StartTransaction kind extra m in
    owed_framing (fold transaction_op xs m1) ticket = Some extra"
  using requests.owed_started [OF assms, of kind extra m]
  by (simp add: transaction_op_def StartTransaction_eq split: prod.splits)

theorem framing_remembered_witness:
  "let (ticket, m1) = StartTransaction TRANS_STATUS 16 (DSNetManager_new [] 0 CLIENT_MODE_MODERN example_system) in
    owed_framing (fold transaction_op [Abandon ticket, Start TRANS_RANDOM_USER 0, Poll ticket] m1) ticket = Some 16"
  using framing_remembered [of "[Abandon 1, Start TRANS_RANDOM_USER 0, Poll 1]" TRANS_STATUS 16
      "DSNetManager_new [] 0 CLIENT_MODE_MODERN example_system"]
  by (simp add: starts_def StartTransaction_eq DSNetManager_new_def next_ticket_number_def)

text \<open>However the session ends, by the user or by the network, the socket is closed, nobody is
  known to be online, and no request, pending registration or queued change of it is left.\<close>

lemma end_of_session:
  "let ended = (\<lambda>m'. \<not> Online m' \<and> myConnectPhase m' = PHASE_IDLE
     \<and> myHandle (mySocket m') = None \<and> myOutput (mySocket m') = [] \<and> myTransactions m' = Map.empty
     \<and> myChangedUsers m' = [] \<and> myPendingWWRAdds m' = Map.empty \<and> (\<forall>user. \<not> known_online m' user))
   in ended (Disconnect m) \<and> ended (ConnectionLost m)"
proof -
  have c: "myHandle (mySocket (sock_Close n)) = None \<and> myOutput (mySocket (sock_Close n)) = []" for n
    using sock_Close_eq [of n] by (auto dest: Close_fields)
  have "myHandle (mySocket (Disconnect m)) = None \<and> myOutput (mySocket (Disconnect m)) = []"
    "myHandle (mySocket (ConnectionLost m)) = None \<and> myOutput (mySocket (ConnectionLost m)) = []"
    using c by (simp_all add: Disconnect_def ConnectionLost_def MarkEveryoneOffline_def Let_def)
  then show ?thesis
    using Disconnect_session_over [of m] ConnectionLost_session_over [of m] session_over_offline
    by (simp add: session_over_def Let_def)
qed

end
