(* ===== verification/NetDispatch.thy ===== *)
theory NetDispatch imports NetTransactions
begin

text \<open>
  What \<open>DSNetManager\<close> does with arrived bytes: cutting packets out of the stream
  (\<open>ProcessInput\<close>) and handling each.

  The block a handler is given is exactly its packet, so a handler that read past the packet
  would count as a fault even where the buffer holds more bytes.  The loop has one unit of fuel
  per buffered byte, and running out would be a fault too; neither happens, as the lemmas
  show.
\<close>

section \<open>Warp files and server lists\<close>

definition SpoolPrayFile :: "BabelUIN \<Rightarrow> byte list \<Rightarrow> mgr \<Rightarrow> mgr" where
  "SpoolPrayFile sender payload m =
     (if myInboxDirectory m = [] then m
      else let (serial, m) = os_op os_time m in
        (case unique_path (Suc (length (osFiles (myOs m)))) (myInboxDirectory m) sender serial (myOs m) of
           None \<Rightarrow> set_fault NoFreeName m
         | Some (path, w) \<Rightarrow> snd (os_op (WriteWholeFileAtomic path payload) (m\<lparr>myOs := w\<rparr>))))"

text \<open>
  \<open>while (offset < rawSize && raw[offset] != '\0') address += raw[offset++]\<close>: the string and
  the offset after it.
\<close>

function scan_string :: "byte list \<Rightarrow> nat \<Rightarrow> nat \<Rightarrow> (string \<times> nat) option" where
  "scan_string raw rawSize offset =
     (if offset < rawSize then
        (case drop offset raw of
           [] \<Rightarrow> None
         | c # _ \<Rightarrow>
             if c \<noteq> CHR 0x00 then do {
               (s, offset) \<leftarrow> scan_string raw rawSize (offset + 1);
               Some (c # s, offset) }
             else Some ([], offset))
      else Some ([], offset))"
  by pat_completeness auto
termination
  by (relation "measure (\<lambda>(raw, rawSize, offset). rawSize - offset)") auto

declare scan_string.simps [simp del]

definition SetServer :: "string \<Rightarrow> string \<Rightarrow> cint \<Rightarrow> cint \<Rightarrow> CBabelServerInfo" where
  "SetServer host friendlyName port srv_id = \<lparr>si_myHost = host, si_myFriendlyName = friendlyName,
     si_myPort = port, si_myID = srv_id\<rparr>"

fun parse_servers :: "byte list \<Rightarrow> nat \<Rightarrow> nat \<Rightarrow> nat \<Rightarrow> CBabelServerInfo list \<Rightarrow> CBabelServerInfo list option" where
  "parse_servers raw rawSize 0 offset servers = Some servers"
| "parse_servers raw rawSize (Suc count) offset servers =
     (if offset + 8 > rawSize then Some servers
      else do {
        port \<leftarrow> GetInt raw offset;
        srv_id \<leftarrow> GetInt raw (offset + 4);
        let offset = offset + 8;
        (address, offset) \<leftarrow> scan_string raw rawSize offset;
        let offset = offset + 1;
        (name, offset) \<leftarrow> scan_string raw rawSize offset;
        let offset = offset + 1;
        if offset > rawSize then Some servers
        else parse_servers raw rawSize count offset (servers @ [SetServer address name port srv_id]) })"

text \<open>The server list at the end of a handshake response, if it carries one.\<close>

definition handshake_servers :: "byte list \<Rightarrow> cint \<Rightarrow> CBabelServerInfo list option" where
  "handshake_servers raw rawSize =
     (if sint rawSize \<ge> 60 then do {
        flagA \<leftarrow> GetInt raw 48;
        flagB \<leftarrow> GetInt raw 52;
        count \<leftarrow> GetInt raw 56;
        if flagA = 1 \<and> flagB = 1 \<and> sint count > 0 \<and> sint count < 1000
        then parse_servers raw (nat (sint rawSize)) (nat (sint count)) 60 []
        else Some [] }
      else Some [])"

section \<open>Handlers\<close>

definition HandleHandshakeResponse :: "PacketHeader \<Rightarrow> byte list \<Rightarrow> cint \<Rightarrow> mgr \<Rightarrow> mgr" where
  "HandleHandshakeResponse header raw rawSize m =
     (if myConnectPhase m \<noteq> PHASE_AWAIT_HANDSHAKE then m
      else case drop 1 raw of
        [] \<Rightarrow> set_fault OutOfBounds m
      | c # _ \<Rightarrow>
        let errorCode = word_of c;
            serverUIN = \<lparr>uid = fieldA header, hid = fieldB header\<rparr>;
            userUIN = \<lparr>uid = fieldC header, hid = fieldD header\<rparr>
        in if errorCode \<noteq> 0 \<or> uid serverUIN = 0 then
             let m = m\<lparr>myLastError := MapHandshakeError errorCode, myRawError := errorCode\<rparr>;
                 m = sock_Close m
             in m\<lparr>myConnectPhase := PHASE_FAILED, myCurrentAction := []\<rparr>
           else
             let m = m\<lparr>myServerUIN := serverUIN, myUserUIN := userUIN\<rparr>;
                 (now, m) = mgr_now m;
                 m = m\<lparr>myConnectedAtMs := now, myLastError := ERROR_OK, myRawError := 0,
                       myConnectPhase := PHASE_ONLINE, myCurrentAction := []\<rparr>
             in (case handshake_servers raw rawSize of
                   None \<Rightarrow> set_fault OutOfBounds m
                 | Some servers \<Rightarrow>
                   let m = (if servers \<noteq> [] then m\<lparr>myServers := servers, myServerRotation := 0\<rparr> else m);
                       m = SendWWRRegistrations (myUsersForWWR m) m
                   in m\<lparr>myUsersForWWR := [], myOutboxDirty := True\<rparr>))"

text \<open>\<open>None\<close> for a read outside the body.\<close>

definition HandleTransactionResponse :: "Transaction \<Rightarrow> PacketHeader \<Rightarrow> byte list \<Rightarrow> cint \<Rightarrow> Transaction option" where
  "HandleTransactionResponse transaction header body bodySize =
     (let transaction = transaction\<lparr>t_done := True, t_success := False\<rparr> in
      case t_kind transaction of
        TRANS_CLIENT_INFO \<Rightarrow>
          (if sint (furtherData header) > 0 \<and> sint bodySize \<ge> sint (furtherData header) then
             (case ParseShortUserData (drop (nat (sint (t_fixedExtra transaction))) body)
                     (furtherData header) ShortUserData_new of
                None \<Rightarrow> None
              | Some (ok, userData) \<Rightarrow> Some
                  (if ok then transaction\<lparr>t_success := True, t_resultUIN := suin userData,
                                          t_resultString := nickName userData\<rparr>
                   else transaction))
           else Some transaction)
      | TRANS_CONNECTION_DETAIL \<Rightarrow>
          Some (transaction\<lparr>t_success := (fieldA header \<noteq> 0 \<and> fieldB header \<noteq> 0) \<or> fieldE header \<noteq> 0\<rparr>)
      | TRANS_STATUS \<Rightarrow>
          (if sint bodySize \<ge> 16 then do {
             timeOnline \<leftarrow> GetInt body 0;
             usersOnline \<leftarrow> GetInt body 4;
             bytesSent \<leftarrow> GetInt body 8;
             bytesReceived \<leftarrow> GetInt body 12;
             Some (transaction\<lparr>t_success := True,
                     t_resultInts := [timeOnline, usersOnline, bytesSent, bytesReceived]\<rparr>) }
           else Some transaction)
      | TRANS_RANDOM_USER \<Rightarrow>
          Some (if fieldE header = 1
                then transaction\<lparr>t_success := True, t_resultUIN := \<lparr>uid = fieldC header, hid = fieldD header\<rparr>\<rparr>
                else transaction)
      | TRANS_FEED_HISTORY \<Rightarrow> Some (transaction\<lparr>t_success := True\<rparr>)
      | TRANS_ABANDONED \<Rightarrow> Some transaction)"

definition HandlePacket :: "PacketHeader \<Rightarrow> byte list \<Rightarrow> cint \<Rightarrow> mgr \<Rightarrow> bool \<times> mgr" where
  "HandlePacket header body bodySize m =
     (let type = ptype header AND 0xFF in
      if type = PACKET_MESSAGE then
        (case ParsePackedBabelMessage body bodySize BabelUIN_zero 0 [] of
           None \<Rightarrow> (True, set_fault OutOfBounds m)
         | Some (ok, sender, messageType, payload) \<Rightarrow>
             (True,
              if \<not> ok then m
              else if messageType = MESG_PRAY_FILE then SpoolPrayFile sender payload m
              else m\<lparr>myIncomingMessages := myIncomingMessages m @
                       [\<lparr>im_user = BabelUIN_ToString sender, im_type = messageType,
                         im_payload = payload\<rparr>]\<rparr>))
      else if type = PACKET_USER_ONLINE \<or> type = PACKET_USER_OFFLINE then
        (case ParseShortUserData body bodySize ShortUserData_new of
           None \<Rightarrow> (True, set_fault OutOfBounds m)
         | Some (ok, userData) \<Rightarrow>
             (True, if ok then UpdatePresence (suin userData) (type = PACKET_USER_ONLINE)
                                 (nickName userData) m
                    else m))
      else if type = PACKET_ONLINE_CHANGE then
        (True, UpdatePresence \<lparr>uid = fieldC header, hid = fieldD header\<rparr> (fieldE header \<noteq> 0) [] m)
      else if type = PACKET_VIRTUAL_CONNECT then
        (let initiator = \<lparr>uid = fieldC header, hid = fieldD header\<rparr>;
             (vsn, m) = NextVSN m;
             accept = BuildVirtualConnectAccept (myServerUIN m) initiator (fieldE header) vsn;
             (ok, m) = sock_Write accept m
         in if \<not> ok then (False, ConnectionLost m) else (True, m))
      else (True, m))"

section \<open>Cutting the stream into packets\<close>

datatype framing = FrameWait | FrameLost | FrameFault | FrameSize cint

definition is_transaction :: "(cint \<rightharpoonup> Transaction) \<Rightarrow> PacketHeader \<Rightarrow> bool" where
  "is_transaction transactions header \<longleftrightarrow> pticket header \<noteq> 0 \<and> transactions (pticket header) \<noteq> None"

definition frame_size :: "(cint \<rightharpoonup> Transaction) \<Rightarrow> PacketHeader \<Rightarrow> byte list \<Rightarrow> cint \<Rightarrow> framing" where
  "frame_size transactions header input inputSize =
     (if sint (furtherData header) < 0 \<or> sint (furtherData header) > sint MAX_FURTHER_DATA then FrameLost
      else if is_transaction transactions header then
        FrameSize (PACKET_HEADER_SIZE + t_fixedExtra (the (transactions (pticket header))) + furtherData header)
      else
        let type = ptype header AND 0xFF in
        if type = PACKET_MESSAGE \<or> type = PACKET_USER_ONLINE \<or> type = PACKET_USER_OFFLINE then
          FrameSize (PACKET_HEADER_SIZE + furtherData header)
        else if type = PACKET_HANDSHAKE_RESPONSE then
          (if sint inputSize < 48 then FrameWait
           else (case GetInt input 44 of
                   None \<Rightarrow> FrameFault
                 | Some additional \<Rightarrow>
                     if sint additional < 0 \<or> sint additional > sint MAX_FURTHER_DATA then FrameLost
                     else FrameSize (48 + additional)))
        else if type = PACKET_CLIENT_COMMAND then FrameSize 36
        else if type = PACKET_VIRTUAL_CONNECT then FrameSize 44
        else if type = PACKET_VIRTUAL_CIRCUIT then FrameSize (44 + furtherData header)
        else if type = PACKET_ONLINE_CHANGE \<or> type = PACKET_VIRTUAL_CIRCUIT_CLOSE \<or> type = PACKET_MIGRATE then
          FrameSize PACKET_HEADER_SIZE
        else FrameLost)"

text \<open>One complete packet; \<open>False\<close> when the connection was dropped while handling it.\<close>

definition handle_frame :: "PacketHeader \<Rightarrow> byte list \<Rightarrow> cint \<Rightarrow> mgr \<Rightarrow> bool \<times> mgr" where
  "handle_frame header packet totalSize m =
     (let body = drop 32 packet; bodySize = totalSize - PACKET_HEADER_SIZE in
      if is_transaction (myTransactions m) header then
        (case HandleTransactionResponse (the (myTransactions m (pticket header))) header body bodySize of
           None \<Rightarrow> (True, set_fault OutOfBounds m)
         | Some transaction \<Rightarrow>
             (True, m\<lparr>myTransactions := (myTransactions m)(pticket header :=
                (if t_kind transaction = TRANS_ABANDONED then None else Some transaction))\<rparr>))
      else if ptype header AND 0xFF = PACKET_HANDSHAKE_RESPONSE then
        (True, HandleHandshakeResponse header packet totalSize m)
      else HandlePacket header body bodySize m)"

text \<open>One pass of the loop: whether it goes round again.\<close>

definition process_step :: "mgr \<Rightarrow> bool \<times> mgr" where
  "process_step m =
     (if sint (InputSize (mySocket m)) < sint PACKET_HEADER_SIZE then (False, m)
      else let input = myInput (mySocket m); inputSize = InputSize (mySocket m) in
        (case PacketHeader_Read input of
           None \<Rightarrow> (False, set_fault OutOfBounds m)
         | Some header \<Rightarrow>
             (case frame_size (myTransactions m) header input inputSize of
                FrameLost \<Rightarrow> (False, ConnectionLost m)
              | FrameWait \<Rightarrow> (False, m)
              | FrameFault \<Rightarrow> (False, set_fault OutOfBounds m)
              | FrameSize totalSize \<Rightarrow>
                  if sint inputSize < sint totalSize then (False, m)
                  else let (alive, m) = handle_frame header (take (nat (sint totalSize)) input) totalSize m
                       in if \<not> alive then (False, m)
                          else (True, m\<lparr>mySocket := ConsumeInput totalSize (mySocket m)\<rparr>))))"

fun ProcessInput_loop :: "nat \<Rightarrow> mgr \<Rightarrow> mgr" where
  "ProcessInput_loop 0 m = set_fault FuelSpent m"
| "ProcessInput_loop (Suc fuel) m = (case process_step m of
     (again, m) \<Rightarrow> if again then ProcessInput_loop fuel m else m)"

definition ProcessInput :: "mgr \<Rightarrow> mgr" where
  "ProcessInput m = ProcessInput_loop (Suc (length (myInput (mySocket m)))) m"

end
