(* ===== verification/NetInvariant.thy ===== *)
theory NetInvariant imports NetTransactions
begin

text \<open>
  The invariant of the manager, and that the operations met so far keep it.

  \<open>mgr_ok\<close> holds at every point of every operation: the descriptor discipline of the socket,
  no fault, the shape of the transaction table, the change queue without duplicates, pending
  registrations only for members, no open connection in the phases \<open>IDLE\<close> and \<open>FAILED\<close>, and
  a server identity while online.  \<open>settled\<close> adds what holds between operations only.
\<close>

named_theorems ok_intros "an operation keeps the manager's invariant"

section \<open>The invariant\<close>

text \<open>
  A request is well typed when its four results are there, and it expects the 16 extra bytes
  exactly if it asks for the status; the one given up keeps what it expected and is not done.
\<close>

definition transaction_ok :: "Transaction \<Rightarrow> bool" where
  "transaction_ok t \<longleftrightarrow> length (t_resultInts t) = 4
     \<and> (case t_kind t of TRANS_STATUS \<Rightarrow> t_fixedExtra t = 16
        | TRANS_ABANDONED \<Rightarrow> (t_fixedExtra t = 0 \<or> t_fixedExtra t = 16) \<and> \<not> t_done t
        | _ \<Rightarrow> t_fixedExtra t = 0)"

definition table_ok :: "(cint \<rightharpoonup> Transaction) \<Rightarrow> bool" where
  "table_ok T \<longleftrightarrow> finite (dom T) \<and> (\<forall>k t. T k = Some t \<longrightarrow> k \<noteq> 0 \<and> transaction_ok t)"

lemma transaction_ok_extra: "transaction_ok t \<Longrightarrow> t_fixedExtra t = 0 \<or> t_fixedExtra t = 16"
  by (cases "t_kind t") (auto simp: transaction_ok_def)

lemma table_okD:
  assumes "table_ok T" "T k = Some t"
  shows "k \<noteq> 0" "transaction_ok t" "t_fixedExtra t = 0 \<or> t_fixedExtra t = 16" "t_kind t = TRANS_ABANDONED \<Longrightarrow> \<not> t_done t"
proof -
  show k: "k \<noteq> 0" and ok: "transaction_ok t" using assms by (simp_all add: table_ok_def)
  show "t_fixedExtra t = 0 \<or> t_fixedExtra t = 16" by (rule transaction_ok_extra [OF ok])
  show "\<not> t_done t" if "t_kind t = TRANS_ABANDONED" using ok that by (simp add: transaction_ok_def)
qed

definition quiet :: "mgr \<Rightarrow> bool" where
  "quiet m \<longleftrightarrow> myFault m = None \<or> myFault m = Some NoFreeName"

definition live :: "nnsock \<Rightarrow> bool" where
  "live s \<longleftrightarrow> myState s = STATE_CONNECTING \<or> myState s = STATE_CONNECTED"

definition phase_ok :: "mgr \<Rightarrow> bool" where
  "phase_ok m \<longleftrightarrow> (myConnectPhase m = PHASE_IDLE \<or> myConnectPhase m = PHASE_FAILED \<longrightarrow> \<not> live (mySocket m))
     \<and> (myConnectPhase m = PHASE_ONLINE \<longrightarrow> uid (myServerUIN m) \<noteq> 0)"

definition register_ok :: "mgr \<Rightarrow> bool" where
  "register_ok m \<longleftrightarrow> distinct (myChangedUsers m) \<and> dom (myPendingWWRAdds m) \<subseteq> myWWRMembers m"

definition mgr_ok :: "mgr \<Rightarrow> bool" where
  "mgr_ok m \<longleftrightarrow> sock_ok (mySocket m) (myOs m) \<and> table_ok (myTransactions m) \<and> quiet m
     \<and> register_ok m \<and> phase_ok m"

definition settled :: "mgr \<Rightarrow> bool" where
  "settled m \<longleftrightarrow> (myConnectPhase m = PHASE_CONNECTING \<longrightarrow> live (mySocket m))
     \<and> (myConnectPhase m = PHASE_AWAIT_HANDSHAKE \<longrightarrow> IsConnected (mySocket m))
     \<and> (myConnectPhase m = PHASE_ONLINE \<longrightarrow> myState (mySocket m) \<noteq> STATE_CONNECTING)"

lemmas ok_parts = mgr_ok_def quiet_def register_ok_def phase_ok_def

lemma mgr_okD:
  assumes "mgr_ok m"
  shows "sock_ok (mySocket m) (myOs m)" "table_ok (myTransactions m)" "quiet m" "register_ok m" "phase_ok m"
  using assms by (simp_all add: mgr_ok_def)

text \<open>
  Operations that touch none of the members the invariant speaks of: the conclusion follows
  from the equality of those members.
\<close>

lemma mgr_ok_cong:
  assumes "mgr_ok m"
    and "mySocket m' = mySocket m" "osFds (myOs m') = osFds (myOs m)"
    and "myTransactions m' = myTransactions m" "myFault m' = myFault m"
    and "myChangedUsers m' = myChangedUsers m" "myPendingWWRAdds m' = myPendingWWRAdds m"
    and "myWWRMembers m' = myWWRMembers m"
    and "myConnectPhase m' = myConnectPhase m" "myServerUIN m' = myServerUIN m"
  shows "mgr_ok m'"
  using assms by (simp add: ok_parts sock_ok_def)

text \<open>Members the invariant does not mention.\<close>

lemma mgr_ok_upd [simp]:
  "mgr_ok (m\<lparr>ourOverrideHost := x0\<rparr>) = mgr_ok m"
  "mgr_ok (m\<lparr>ourOverridePort := x1\<rparr>) = mgr_ok m"
  "mgr_ok (m\<lparr>ourClientMode := x2\<rparr>) = mgr_ok m"
  "mgr_ok (m\<lparr>myConnectDeadline := x3\<rparr>) = mgr_ok m"
  "mgr_ok (m\<lparr>myServerRotation := x4\<rparr>) = mgr_ok m"
  "mgr_ok (m\<lparr>myNickname := x5\<rparr>) = mgr_ok m"
  "mgr_ok (m\<lparr>myPassword := x6\<rparr>) = mgr_ok m"
  "mgr_ok (m\<lparr>myUserUIN := x7\<rparr>) = mgr_ok m"
  "mgr_ok (m\<lparr>myConnectedAtMs := x8\<rparr>) = mgr_ok m"
  "mgr_ok (m\<lparr>myLastError := x9\<rparr>) = mgr_ok m"
  "mgr_ok (m\<lparr>myRawError := x10\<rparr>) = mgr_ok m"
  "mgr_ok (m\<lparr>myCurrentAction := x11\<rparr>) = mgr_ok m"
  "mgr_ok (m\<lparr>myServers := x12\<rparr>) = mgr_ok m"
  "mgr_ok (m\<lparr>myConnectedHost := x13\<rparr>) = mgr_ok m"
  "mgr_ok (m\<lparr>myConnectedPort := x14\<rparr>) = mgr_ok m"
  "mgr_ok (m\<lparr>myConnectedID := x15\<rparr>) = mgr_ok m"
  "mgr_ok (m\<lparr>myConnectedFriendlyName := x16\<rparr>) = mgr_ok m"
  "mgr_ok (m\<lparr>myNextTicketNumber := x17\<rparr>) = mgr_ok m"
  "mgr_ok (m\<lparr>myNextVSN := x18\<rparr>) = mgr_ok m"
  "mgr_ok (m\<lparr>myPresence := x19\<rparr>) = mgr_ok m"
  "mgr_ok (m\<lparr>myUsersForWWR := x20\<rparr>) = mgr_ok m"
  "mgr_ok (m\<lparr>myPendingUserFetches := x21\<rparr>) = mgr_ok m"
  "mgr_ok (m\<lparr>myRandomUserQuery := x22\<rparr>) = mgr_ok m"
  "mgr_ok (m\<lparr>myStatusQuery := x23\<rparr>) = mgr_ok m"
  "mgr_ok (m\<lparr>myIncomingMessages := x24\<rparr>) = mgr_ok m"
  "mgr_ok (m\<lparr>myQueuedMessages := x25\<rparr>) = mgr_ok m"
  "mgr_ok (m\<lparr>myOutboxDirectory := x26\<rparr>) = mgr_ok m"
  "mgr_ok (m\<lparr>myInboxDirectory := x27\<rparr>) = mgr_ok m"
  "mgr_ok (m\<lparr>myOutboxDirty := x28\<rparr>) = mgr_ok m"
  "mgr_ok (m\<lparr>myNextOutboxScan := x29\<rparr>) = mgr_ok m"
  "mgr_ok (m\<lparr>myDeleted := x30\<rparr>) = mgr_ok m"
  by (simp_all add: ok_parts)

lemma settled_upd [simp]:
  "settled (m\<lparr>ourOverrideHost := x0\<rparr>) = settled m"
  "settled (m\<lparr>ourOverridePort := x1\<rparr>) = settled m"
  "settled (m\<lparr>ourClientMode := x2\<rparr>) = settled m"
  "settled (m\<lparr>myConnectDeadline := x3\<rparr>) = settled m"
  "settled (m\<lparr>myServerRotation := x4\<rparr>) = settled m"
  "settled (m\<lparr>myNickname := x5\<rparr>) = settled m"
  "settled (m\<lparr>myPassword := x6\<rparr>) = settled m"
  "settled (m\<lparr>myUserUIN := x7\<rparr>) = settled m"
  "settled (m\<lparr>myConnectedAtMs := x8\<rparr>) = settled m"
  "settled (m\<lparr>myLastError := x9\<rparr>) = settled m"
  "settled (m\<lparr>myRawError := x10\<rparr>) = settled m"
  "settled (m\<lparr>myCurrentAction := x11\<rparr>) = settled m"
  "settled (m\<lparr>myServers := x12\<rparr>) = settled m"
  "settled (m\<lparr>myConnectedHost := x13\<rparr>) = settled m"
  "settled (m\<lparr>myConnectedPort := x14\<rparr>) = settled m"
  "settled (m\<lparr>myConnectedID := x15\<rparr>) = settled m"
  "settled (m\<lparr>myConnectedFriendlyName := x16\<rparr>) = settled m"
  "settled (m\<lparr>myNextTicketNumber := x17\<rparr>) = settled m"
  "settled (m\<lparr>myNextVSN := x18\<rparr>) = settled m"
  "settled (m\<lparr>myPresence := x19\<rparr>) = settled m"
  "settled (m\<lparr>myUsersForWWR := x20\<rparr>) = settled m"
  "settled (m\<lparr>myPendingUserFetches := x21\<rparr>) = settled m"
  "settled (m\<lparr>myRandomUserQuery := x22\<rparr>) = settled m"
  "settled (m\<lparr>myStatusQuery := x23\<rparr>) = settled m"
  "settled (m\<lparr>myIncomingMessages := x24\<rparr>) = settled m"
  "settled (m\<lparr>myQueuedMessages := x25\<rparr>) = settled m"
  "settled (m\<lparr>myOutboxDirectory := x26\<rparr>) = settled m"
  "settled (m\<lparr>myInboxDirectory := x27\<rparr>) = settled m"
  "settled (m\<lparr>myOutboxDirty := x28\<rparr>) = settled m"
  "settled (m\<lparr>myNextOutboxScan := x29\<rparr>) = settled m"
  "settled (m\<lparr>myDeleted := x30\<rparr>) = settled m"
  "settled (m\<lparr>myServerUIN := x31\<rparr>) = settled m"
  "settled (m\<lparr>myTransactions := x32\<rparr>) = settled m"
  "settled (m\<lparr>myChangedUsers := x33\<rparr>) = settled m"
  "settled (m\<lparr>myPendingWWRAdds := x34\<rparr>) = settled m"
  "settled (m\<lparr>myWWRMembers := x35\<rparr>) = settled m"
  "settled (m\<lparr>myFault := x36\<rparr>) = settled m"
  "settled (m\<lparr>myOs := x37\<rparr>) = settled m"
  by (simp_all add: settled_def)

lemma mgr_ok_table: "mgr_ok m \<Longrightarrow> table_ok T \<Longrightarrow> mgr_ok (m\<lparr>myTransactions := T\<rparr>)"
  by (simp add: ok_parts)

lemma mgr_ok_members: "mgr_ok m \<Longrightarrow> myWWRMembers m \<subseteq> b \<Longrightarrow> mgr_ok (m\<lparr>myWWRMembers := b\<rparr>)"
  by (auto simp: ok_parts)

lemma mgr_ok_os: "mgr_ok m \<Longrightarrow> osFds w = osFds (myOs m) \<Longrightarrow> mgr_ok (m\<lparr>myOs := w\<rparr>)"
  by (simp add: ok_parts sock_ok_def)

lemma not_live_new [simp]: "\<not> live NetNatsueSocket_new"
  by (simp add: live_def NetNatsueSocket_new_def)

lemma mgr_ok_DSNetManager_new: "osFds w = [] \<Longrightarrow> mgr_ok (DSNetManager_new host port mode w)"
  by (simp add: ok_parts DSNetManager_new_def table_ok_def sock_ok_new not_live_new)

lemma settled_DSNetManager_new: "settled (DSNetManager_new host port mode w)"
  by (simp add: settled_def DSNetManager_new_def)

section \<open>Socket and system calls\<close>

lemma sock_Write_ok [ok_intros]:
  assumes "mgr_ok m" "sock_Write data m = (ok, m')"
  shows "mgr_ok m'"
proof -
  obtain s w where w: "Write data (mySocket m) (myOs m) = (ok, s, w)"
    and m': "m' = m\<lparr>mySocket := s, myOs := w\<rparr>"
    using assms(2) by (auto simp: sock_Write_eq)
  have "sock_ok s w" using sock_ok_Write [OF _ w] mgr_okD(1) [OF assms(1)] by blast
  moreover have "live s \<Longrightarrow> live (mySocket m)"
    using Write_spec [OF w] by (cases ok) (auto simp: live_def)
  ultimately show ?thesis using assms(1) m' by (auto simp: ok_parts)
qed

lemma sock_Write_frame:
  "sock_Write data m = (ok, m') \<Longrightarrow> m' = m\<lparr>mySocket := mySocket m', myOs := myOs m'\<rparr>
     \<and> myInput (mySocket m') = myInput (mySocket m) \<and> os_rest (myOs m') = os_rest (myOs m)
     \<and> osRecvs (myOs m') = osRecvs (myOs m) \<and> (ok \<longleftrightarrow> IsConnected (mySocket m'))
     \<and> (IsConnected (mySocket m') \<longrightarrow> IsConnected (mySocket m))"
  by (cases ok) (auto simp: sock_Write_eq IsConnected_def dest!: Write_spec)

lemma sock_Close_ok [ok_intros]: "mgr_ok m \<Longrightarrow> mgr_ok (sock_Close m)"
proof -
  assume ok: "mgr_ok m"
  obtain s w where c: "Close (mySocket m) (myOs m) = (s, w)" and m': "sock_Close m = m\<lparr>mySocket := s, myOs := w\<rparr>"
    using sock_Close_eq by blast
  have "sock_ok s w" using sock_ok_Close [OF _ c] mgr_okD(1) [OF ok] by blast
  with ok m' Close_fields [OF c] show ?thesis by (auto simp: ok_parts live_def)
qed

lemma mgr_now_eq: "mgr_now m = (fst (NowMs (myOs m)), m\<lparr>myOs := snd (NowMs (myOs m))\<rparr>)"
  by (simp add: mgr_now_def os_op_def split: prod.split)

lemma NowMs_fds [simp]: "osFds (snd (NowMs w)) = osFds w" "osFiles (snd (NowMs w)) = osFiles w"
  by (simp_all add: NowMs_def)

lemma mgr_now_ok [ok_intros]: "mgr_ok m \<Longrightarrow> mgr_now m = (t, m') \<Longrightarrow> mgr_ok m'"
  by (erule mgr_ok_cong) (auto simp: mgr_now_eq)

lemma set_fault_NoFreeName_ok [ok_intros]: "mgr_ok m \<Longrightarrow> mgr_ok (set_fault NoFreeName m)"
  by (auto simp: ok_parts set_fault_eq)

section \<open>Presence and transactions\<close>

lemma UpdatePresence_ok [ok_intros]:
  assumes "mgr_ok m"
  shows "mgr_ok (UpdatePresence u online nick m)"
proof -
  have "dom (myPendingWWRAdds (UpdatePresence u online nick m)) \<subseteq> dom (myPendingWWRAdds m)"
    using UpdatePresence_pending [of m _ u online nick] by (auto simp: dom_def) fastforce
  moreover have "distinct (myChangedUsers (UpdatePresence u online nick m))"
    using assms UpdatePresence_distinct by (simp add: ok_parts)
  ultimately show ?thesis
    using assms
    by (subst UpdatePresence_frame) (auto simp: ok_parts)
qed

lemma MarkEveryoneOffline_ok [ok_intros]: "mgr_ok m \<Longrightarrow> mgr_ok (MarkEveryoneOffline m)"
  by (simp add: ok_parts MarkEveryoneOffline_def)

lemma SendWWRRegistrations_ok [ok_intros]: "mgr_ok m \<Longrightarrow> mgr_ok (SendWWRRegistrations users m)"
proof (induction users arbitrary: m)
  case (Cons user users)
  obtain valid u where fs: "BabelUIN_FromString user = (valid, u)" by fastforce
  let ?m = "m\<lparr>myWWRMembers := insert user (myWWRMembers m)\<rparr>"
  obtain ok m' where w: "sock_Write (BuildWWRModify True (myServerUIN ?m) u) ?m = (ok, m')" by fastforce
  have "mgr_ok ?m" using Cons.prems by (rule mgr_ok_members) blast
  then have "mgr_ok m'" using w by (rule sock_Write_ok)
  with Cons w show ?case by (simp add: fs)
qed simp

text \<open>What a manager may do to the connection without reading from it.\<close>

definition only_sends :: "mgr \<Rightarrow> mgr \<Rightarrow> bool" where
  "only_sends m m' \<longleftrightarrow> myInput (mySocket m') = myInput (mySocket m) \<and> os_rest (myOs m') = os_rest (myOs m)
     \<and> osRecvs (myOs m') = osRecvs (myOs m) \<and> (IsConnected (mySocket m') \<longrightarrow> IsConnected (mySocket m))"

lemma only_sends_refl [simp]: "only_sends m m"
  by (simp add: only_sends_def)

lemma only_sends_trans: "only_sends a b \<Longrightarrow> only_sends b c \<Longrightarrow> only_sends a c"
  by (simp add: only_sends_def)

lemma sock_Write_only_sends: "sock_Write data m = (ok, m') \<Longrightarrow> only_sends m m'"
  using sock_Write_frame [of data m ok m'] by (simp add: only_sends_def)

lemma only_sends_upd [simp]: "only_sends (m\<lparr>myWWRMembers := b\<rparr>) m' = only_sends m m'"
  by (simp add: only_sends_def)

lemma SendWWRRegistrations_only_sends: "only_sends m (SendWWRRegistrations users m)"
proof (induction users arbitrary: m)
  case (Cons user users)
  obtain valid u where fs: "BabelUIN_FromString user = (valid, u)" by fastforce
  let ?m = "m\<lparr>myWWRMembers := insert user (myWWRMembers m)\<rparr>"
  obtain ok m' where w: "sock_Write (BuildWWRModify True (myServerUIN ?m) u) ?m = (ok, m')" by fastforce
  have "only_sends m m'" using sock_Write_only_sends [OF w] by simp
  then have "only_sends m (SendWWRRegistrations users m')" using Cons.IH only_sends_trans by blast
  with Cons.IH w \<open>only_sends m m'\<close> show ?case by (simp add: fs)
qed simp

lemma SendWWRRegistrations_frame:
  "SendWWRRegistrations users m = m\<lparr>mySocket := mySocket (SendWWRRegistrations users m),
     myOs := myOs (SendWWRRegistrations users m), myWWRMembers := myWWRMembers (SendWWRRegistrations users m)\<rparr>"
proof (induction users arbitrary: m)
  case (Cons user users)
  obtain valid u where fs: "BabelUIN_FromString user = (valid, u)" by fastforce
  let ?m = "m\<lparr>myWWRMembers := insert user (myWWRMembers m)\<rparr>"
  obtain ok m' where w: "sock_Write (BuildWWRModify True (myServerUIN ?m) u) ?m = (ok, m')" by fastforce
  then obtain s v where m': "m' = ?m\<lparr>mySocket := s, myOs := v\<rparr>" by (auto simp: sock_Write_eq)
  show ?case
  proof (cases "valid \<and> ok")
    case True
    then have run: "SendWWRRegistrations (user # users) m = SendWWRRegistrations users m'"
      using w by (simp add: fs)
    show ?thesis unfolding run by (subst Cons.IH) (simp add: m')
  next
    case False
    then show ?thesis using w Cons.IH by (auto simp: fs m')
  qed
qed simp

lemma table_ok_empty [simp]: "table_ok Map.empty"
  by (simp add: table_ok_def)

lemma ConnectionLost_ok [ok_intros]: "mgr_ok m \<Longrightarrow> mgr_ok (ConnectionLost m)"
proof -
  assume ok: "mgr_ok m"
  let ?m = "m\<lparr>myLastError := ERROR_OFFLINE, myRawError := - myLastSystemError (mySocket m)\<rparr>"
  have c: "mgr_ok (sock_Close ?m)"
    by (rule sock_Close_ok) (rule mgr_ok_cong [OF ok], simp_all)
  then have "mgr_ok (sock_Close ?m\<lparr>myConnectPhase := PHASE_IDLE, myCurrentAction := [], myTransactions := Map.empty\<rparr>)"
    using sock_Close_fields(2) [of ?m] by (auto simp: ok_parts live_def)
  then show ?thesis by (simp add: ConnectionLost_def Let_def MarkEveryoneOffline_ok)
qed

lemma Disconnect_ok [ok_intros]: "mgr_ok m \<Longrightarrow> mgr_ok (Disconnect m)"
proof -
  assume "mgr_ok m"
  then have "mgr_ok (sock_Close m\<lparr>myConnectPhase := PHASE_IDLE, myCurrentAction := [], myTransactions := Map.empty\<rparr>)"
    using sock_Close_ok [of m] sock_Close_fields(2) [of m] by (auto simp: ok_parts live_def)
  then show ?thesis by (simp add: Disconnect_def Let_def MarkEveryoneOffline_ok)
qed

lemma table_ok_StartTransaction:
  "table_ok (myTransactions m) \<Longrightarrow> extra = (if kind = TRANS_STATUS then 16 else 0) \<Longrightarrow>
   table_ok (myTransactions (snd (StartTransaction kind extra m)))"
  by (cases kind) (auto simp: table_ok_def transaction_ok_def StartTransaction_eq Transaction_new_def next_ticket_number_nonzero)

lemma StartTransaction_ok [ok_intros]:
  assumes "mgr_ok m" "StartTransaction kind extra m = (k, m')" "extra = (if kind = TRANS_STATUS then 16 else 0)"
  shows "mgr_ok m'"
proof -
  have m': "m' = snd (StartTransaction kind extra m)" using assms(2) by simp
  have "mgr_ok (m\<lparr>myTransactions := myTransactions m'\<rparr>)"
    unfolding m' by (rule mgr_ok_table [OF assms(1) table_ok_StartTransaction [OF mgr_okD(2) [OF assms(1)] assms(3)]])
  then have "mgr_ok (m\<lparr>myTransactions := myTransactions m', myNextTicketNumber := k\<rparr>)" by simp
  moreover have "m' = m\<lparr>myTransactions := myTransactions m', myNextTicketNumber := myNextTicketNumber m'\<rparr>"
    unfolding m' by (simp add: StartTransaction_eq)
  ultimately show ?thesis by (metis mgr_ok_upd(18))
qed

lemma table_ok_upd: "table_ok T \<Longrightarrow> T k = Some t \<Longrightarrow> transaction_ok t' \<Longrightarrow> table_ok (T(k \<mapsto> t'))"
  by (auto simp: table_ok_def)

lemma transaction_ok_abandon: "transaction_ok t \<Longrightarrow> \<not> t_done t \<Longrightarrow> transaction_ok (t\<lparr>t_kind := TRANS_ABANDONED\<rparr>)"
  using transaction_ok_extra [of t] by (simp add: transaction_ok_def)

lemma table_ok_del: "table_ok T \<Longrightarrow> table_ok (T(k := None))"
  by (simp add: table_ok_def)

lemma table_ok_AbandonTransaction:
  "table_ok (myTransactions m) \<Longrightarrow> table_ok (myTransactions (AbandonTransaction k m))"
  by (auto simp: AbandonTransaction_def split: option.split intro: table_ok_del table_ok_upd transaction_ok_abandon dest: table_okD(2))

lemma AbandonTransaction_ok [ok_intros]: "mgr_ok m \<Longrightarrow> mgr_ok (AbandonTransaction k m)"
  by (subst AbandonTransaction_frame)
    (intro mgr_ok_table table_ok_AbandonTransaction mgr_okD(2))

lemma table_ok_PollTransaction:
  "table_ok (myTransactions m) \<Longrightarrow> PollTransaction k r m = (b, r', p, m') \<Longrightarrow> table_ok (myTransactions m')"
  by (auto simp: PollTransaction_def split: option.splits if_splits intro: table_ok_del)

lemma PollTransaction_ok [ok_intros]:
  "mgr_ok m \<Longrightarrow> PollTransaction k r m = (b, r', p, m') \<Longrightarrow> mgr_ok m'"
  using PollTransaction_frame [of k r m b r' p m'] table_ok_PollTransaction [of m k r b r' p m']
    mgr_ok_table [of m "myTransactions m'"] mgr_okD(2) [of m] by metis

lemma settled_over: "session_over m \<Longrightarrow> settled m"
  by (simp add: session_over_def settled_def)

section \<open>A manager that is online\<close>

text \<open>The state the concrete instances of the properties start from.\<close>

definition example_online :: mgr where
  "example_online = (DSNetManager_new [] 0 CLIENT_MODE_MODERN example_system)\<lparr>mySocket := example_socket,
     myConnectPhase := PHASE_ONLINE, myServerUIN := \<lparr>uid = 9, hid = 1\<rparr>, myUserUIN := \<lparr>uid = 7, hid = 1\<rparr>\<rparr>"

lemmas example_defs = example_online_def example_socket_def example_system_def DSNetManager_new_def NetNatsueSocket_new_def

text \<open>A system that has no room for output: what is written waits in the buffer.\<close>

lemma example_flush:
  "osSends w = [] \<Longrightarrow> FlushOutput_loop s w = (True, s, w)"
  by (simp add: FlushOutput_loop.simps os_send_def consts_simps)

lemma example_writes:
  assumes "mySocket m = example_socket" "osSends (myOs m) = []"
  shows "sock_Write p m = (True, m\<lparr>mySocket := example_socket\<lparr>myOutput := p\<rparr>\<rparr>)"
  using assms by (cases m)
    (simp add: sock_Write_def sock_op_def Write_def FlushOutput_def example_flush example_defs)

lemma example_clock:
  assumes "d \<le> min i 40 * 1000"
  shows "TimeAfter (osClock example_system i) (of_nat d)"
proof -
  have "of_nat (min i 40) * 1000 - (of_nat d :: u32) = of_nat (min i 40 * 1000 - d)"
    using assms by (simp add: of_nat_diff)
  moreover have "sint (of_nat (min i 40 * 1000 - d) :: u32) = int (min i 40 * 1000 - d)"
    by (intro sint_of_nat_id) simp
  ultimately show ?thesis by (simp add: example_system_def TimeAfter_def)
qed

lemma example_online_os:
  "myOs example_online = example_system" "osClockReads example_system = 0" "osClock example_system 0 = 0"
  by (simp_all add: example_defs)

lemma example_online_ok: "mgr_ok example_online" "settled example_online" "Online example_online"
  by (simp_all add: example_defs ok_parts sock_ok_def live_def settled_def Online_def IsConnected_def)

end
