(* ===== verification/NetInput.thy ===== *)
theory NetInput imports NetDispatch NetInvariant
begin

text \<open>
  Facts about the arrived bytes: no handler reads outside its packet, every pass of
  \<open>ProcessInput\<close> consumes a packet or stops, the invariant is kept, and the result does not
  depend on how the stream was cut into reads.
\<close>

section \<open>Sizes\<close>

lemma sint_of_nat_le: "sint (of_nat n :: cint) \<le> int n"
proof -
  have "sint (of_nat n :: cint) = signed_take_bit 31 (int n)"
    using sint_sbintrunc' [of "int n", where 'a = 32] by simp
  also have "\<dots> \<le> int n"
    using signed_take_bit_int_less_eq_self_iff [of 31 "int n"] by (simp add: order_trans [of _ 0])
  finally show ?thesis .
qed

lemma InputSize_le: "nat (sint (InputSize s)) \<le> length (myInput s)"
  using sint_of_nat_le [of "length (myInput s)"] by (simp add: InputSize_def nat_le_iff)

lemma InputSize_exact: "int (length (myInput s)) \<le> INT_MAX \<Longrightarrow> sint (InputSize s) = int (length (myInput s))"
  by (simp add: InputSize_def sint_of_nat_id)

lemma sint_total:
  fixes e f :: cint
  assumes "e = 0 \<or> e = 16" "0 \<le> sint f" "sint f \<le> 33554432"
  shows "sint (32 + e + f) = 32 + sint e + sint f" "sint (32 + f) = 32 + sint f"
    "sint (44 + f) = 44 + sint f" "sint (48 + f) = 48 + sint f"
    "sint (32 + e + f - 32) = sint e + sint f"
proof -
  have e: "sint e = 0 \<or> sint e = 16" using assms(1) by auto
  have "sint (32 + e) = 32 + sint e" using e by (subst sint_add_id) auto
  then show a: "sint (32 + e + f) = 32 + sint e + sint f"
    using assms e by (subst sint_add_id) auto
  show "sint (32 + f) = 32 + sint f" "sint (44 + f) = 44 + sint f" "sint (48 + f) = 48 + sint f"
    using assms by (subst sint_add_id; simp)+
  show "sint (32 + e + f - 32) = sint e + sint f"
    using assms e a by (subst sint_diff_id) auto
qed

text \<open>A packet's size is what the framing rules can produce, and at least a header.\<close>

lemma frame_size_bounds:
  assumes "table_ok T" "frame_size T h input inputSize = FrameSize n"
  shows "32 \<le> sint n \<and> sint n \<le> 33554480"
    and "is_transaction T h \<Longrightarrow>
      sint n = 32 + sint (t_fixedExtra (the (T (pticket h)))) + sint (furtherData h)"
    and "\<not> is_transaction T h \<Longrightarrow> ptype h AND 0xFF = PACKET_HANDSHAKE_RESPONSE \<Longrightarrow> 48 \<le> sint n"
    and "0 \<le> sint (furtherData h) \<and> sint (furtherData h) \<le> 33554432"
proof -
  note st = sint_total
  show f: "0 \<le> sint (furtherData h) \<and> sint (furtherData h) \<le> 33554432"
    using assms(2) by (simp add: frame_size_def consts_simps split: if_splits)
  have e: "t_fixedExtra (the (T (pticket h))) = 0 \<or> t_fixedExtra (the (T (pticket h))) = 16"
    if "is_transaction T h"
    using that table_okD(3) [OF assms(1)] by (auto simp: is_transaction_def)
  show tr: "sint n = 32 + sint (t_fixedExtra (the (T (pticket h)))) + sint (furtherData h)" if "is_transaction T h"
    using that assms(2) f st(1) [OF e [OF that]]
    by (auto simp: frame_size_def consts_simps split: if_splits)
  show "48 \<le> sint n" if "\<not> is_transaction T h" "ptype h AND 0xFF = PACKET_HANDSHAKE_RESPONSE"
    using that assms(2) f st(4) [where e = 0]
    by (auto simp: frame_size_def Let_def consts_simps split: if_splits option.splits)
  show "32 \<le> sint n \<and> sint n \<le> 33554480"
  proof (cases "is_transaction T h")
    case True
    with tr e f show ?thesis by force
  next
    case False
    with assms(2) f st(2-4) [where e = 0] show ?thesis
      by (auto simp: frame_size_def Let_def consts_simps split: if_splits option.splits)
  qed
qed

lemma frame_size_no_fault:
  "32 \<le> sint inputSize \<Longrightarrow> nat (sint inputSize) \<le> length input \<Longrightarrow> frame_size T h input inputSize \<noteq> FrameFault"
  by (auto simp: frame_size_def Let_def GetInt_eq_None_iff split: option.split)

section \<open>No read outside a packet\<close>

lemma HandleTransactionResponse_in_bounds:
  assumes "t_fixedExtra t = 0 \<or> t_fixedExtra t = 16"
    and "0 \<le> sint (furtherData h)" "sint bodySize = sint (t_fixedExtra t) + sint (furtherData h)"
    and "length body = nat (sint bodySize)"
  shows "\<exists>t'. HandleTransactionResponse t h body bodySize = Some t'
    \<and> t_done t' \<and> t_kind t' = t_kind t \<and> t_fixedExtra t' = t_fixedExtra t
    \<and> (length (t_resultInts t) = 4 \<longrightarrow> length (t_resultInts t') = 4)"
proof -
  have "ParseShortUserData (drop (nat (sint (t_fixedExtra t))) body) (furtherData h) ShortUserData_new \<noteq> None"
    using assms by (intro ParseShortUserData_in_bounds) auto
  moreover have "16 \<le> length body" if "16 \<le> sint bodySize"
    using that assms by simp
  ultimately show ?thesis
    by (cases "t_kind t") (auto simp: HandleTransactionResponse_def Let_def GetInt_int_at split: option.split)
qed

lemma scan_string_defined: "rawSize \<le> length raw \<Longrightarrow> \<exists>s off. scan_string raw rawSize offset = Some (s, off)"
proof (induction raw rawSize offset rule: scan_string.induct)
  case (1 raw rawSize offset)
  show ?case
  proof (cases "offset < rawSize")
    case True
    then obtain c cs where d: "drop offset raw = c # cs"
      using 1(2) by (metis Cons_nth_drop_Suc order_less_le_trans)
    show ?thesis
    proof (cases "c = CHR 0x00")
      case False
      from 1(1) [OF True d False 1(2)] obtain s off where "scan_string raw rawSize (offset + 1) = Some (s, off)"
        by auto
      with True d False show ?thesis by (simp add: scan_string.simps [of raw rawSize offset])
    qed (simp add: scan_string.simps [of raw rawSize offset] True d)
  qed (simp add: scan_string.simps [of raw rawSize offset])
qed

lemma parse_servers_defined:
  "rawSize \<le> length raw \<Longrightarrow> parse_servers raw rawSize count offset servers \<noteq> None"
proof (induction count arbitrary: offset servers)
  case (Suc count)
  obtain a off1 where s1: "scan_string raw rawSize (offset + 8) = Some (a, off1)"
    using scan_string_defined Suc.prems by blast
  obtain n off2 where s2: "scan_string raw rawSize (off1 + 1) = Some (n, off2)"
    using scan_string_defined Suc.prems by blast
  show ?case
    using Suc s1 s2 by (auto simp: GetInt_int_at Let_def not_less)
qed simp

lemma handshake_servers_defined:
  "nat (sint rawSize) \<le> length raw \<Longrightarrow> handshake_servers raw rawSize \<noteq> None"
  using parse_servers_defined [of "nat (sint rawSize)" raw]
  by (auto simp: handshake_servers_def GetInt_int_at)

section \<open>The invariant\<close>

definition same_input :: "mgr \<Rightarrow> mgr \<Rightarrow> bool" where
  "same_input m m' \<longleftrightarrow> myInput (mySocket m') = myInput (mySocket m) \<and> osRecvs (myOs m') = osRecvs (myOs m)"

lemma SpoolPrayFile_cases:
  assumes "os_time (myOs m) = (serial, w0)"
  shows "SpoolPrayFile sender payload m =
    (if myInboxDirectory m = [] then m
     else case unique_path (Suc (length (osFiles w0))) (myInboxDirectory m) sender serial w0 of
       None \<Rightarrow> set_fault NoFreeName (m\<lparr>myOs := w0\<rparr>)
     | Some (path, w1) \<Rightarrow> m\<lparr>myOs := snd (WriteWholeFileAtomic path payload w1)\<rparr>)"
  using assms by (auto simp: SpoolPrayFile_def os_op_def Let_def split: option.split prod.split)

text \<open>Spooling changes the system's clocks and files, and possibly records that no name was free.\<close>

lemma SpoolPrayFile_frame:
  "\<exists>w f. SpoolPrayFile sender payload m = m\<lparr>myOs := w, myFault := f\<rparr> \<and> os_net w = os_net (myOs m)
     \<and> os_clock w = os_clock (myOs m) \<and> (f = myFault m \<or> myFault m = None \<and> f = Some NoFreeName)"
proof -
  obtain serial w0 where t: "os_time (myOs m) = (serial, w0)" by fastforce
  note run = SpoolPrayFile_cases [OF t, of sender payload]
  have n0: "os_net w0 = os_net (myOs m)" "os_clock w0 = os_clock (myOs m)" using t by (rule frame_simps)+
  show ?thesis
  proof (cases "myInboxDirectory m = []")
    case True
    then show ?thesis using run by (intro exI [of _ "myOs m"] exI [of _ "myFault m"]) simp
  next
    case False
    show ?thesis
    proof (cases "unique_path (Suc (length (osFiles w0))) (myInboxDirectory m) sender serial w0")
      case None
      then show ?thesis using run False n0
        by (intro exI [of _ w0] exI [of _ "if myFault m = None then Some NoFreeName else myFault m"])
          (simp add: set_fault_eq)
    next
      case (Some pw)
      obtain path w1 where pw: "pw = (path, w1)" by fastforce
      obtain ok w2 where wr: "WriteWholeFileAtomic path payload w1 = (ok, w2)" by fastforce
      have "os_net w2 = os_net (myOs m)" "os_clock w2 = os_clock (myOs m)"
        using n0 unique_path_net [OF Some [unfolded pw]] WriteWholeFileAtomic_net [OF wr] by simp_all
      then show ?thesis using run False Some pw wr
        by (intro exI [of _ w2] exI [of _ "myFault m"]) simp
    qed
  qed
qed

lemma os_net_fds: "os_net w = os_net w' \<Longrightarrow> osFds w = osFds w' \<and> osRecvs w = osRecvs w' \<and> osWire w = osWire w'"
  by (simp add: os_net_def)

lemma SpoolPrayFile_ok [ok_intros]: "mgr_ok m \<Longrightarrow> mgr_ok (SpoolPrayFile sender payload m)"
proof -
  assume ok: "mgr_ok m"
  obtain w f where e: "SpoolPrayFile sender payload m = m\<lparr>myOs := w, myFault := f\<rparr>"
    and n: "os_net w = os_net (myOs m)" and f: "f = myFault m \<or> myFault m = None \<and> f = Some NoFreeName"
    using SpoolPrayFile_frame by blast
  show ?thesis unfolding e using ok f os_net_fds [OF n] by (auto simp: ok_parts sock_ok_def)
qed

lemma same_input_refl [simp]: "same_input m m"
  by (simp add: same_input_def)

lemma same_input_trans: "same_input a b \<Longrightarrow> same_input b c \<Longrightarrow> same_input a c"
  by (simp add: same_input_def)

lemma only_sends_same_input: "only_sends m m' \<Longrightarrow> same_input m m'"
  by (simp add: only_sends_def same_input_def)

lemma sock_Close_same_input [simp]: "same_input m (sock_Close m)"
  using sock_Close_eq [of m] by (auto simp: same_input_def dest: Close_fields)

lemma ConnectionLost_same_input [simp]: "same_input m (ConnectionLost m)"
  using sock_Close_same_input [of "m\<lparr>myLastError := ERROR_OFFLINE, myRawError := - myLastSystemError (mySocket m)\<rparr>"]
  by (simp add: ConnectionLost_def Let_def MarkEveryoneOffline_def same_input_def)

lemma HandleHandshakeResponse_cases:
  assumes "48 \<le> length raw" "nat (sint rawSize) \<le> length raw" "myConnectPhase m = PHASE_AWAIT_HANDSHAKE"
  obtains (refused) code where "code = word_of (raw ! 1)" "code \<noteq> 0 \<or> fieldA h = 0"
      "HandleHandshakeResponse h raw rawSize m =
        sock_Close (m\<lparr>myLastError := MapHandshakeError code, myRawError := code\<rparr>)
          \<lparr>myConnectPhase := PHASE_FAILED, myCurrentAction := []\<rparr>"
  | (accepted) now w servers m1 where "word_of (raw ! 1) = 0" "fieldA h \<noteq> 0" "NowMs (myOs m) = (now, w)"
      "handshake_servers raw rawSize = Some servers"
      "m1 = m\<lparr>myServerUIN := \<lparr>uid = fieldA h, hid = fieldB h\<rparr>, myUserUIN := \<lparr>uid = fieldC h, hid = fieldD h\<rparr>,
        myOs := w, myConnectedAtMs := now, myLastError := ERROR_OK, myRawError := 0,
        myConnectPhase := PHASE_ONLINE, myCurrentAction := [],
        myServers := (if servers = [] then myServers m else servers),
        myServerRotation := (if servers = [] then myServerRotation m else 0)\<rparr>"
      "HandleHandshakeResponse h raw rawSize m =
        SendWWRRegistrations (myUsersForWWR m) m1\<lparr>myUsersForWWR := [], myOutboxDirty := True\<rparr>"
proof -
  have d: "drop (Suc 0) raw = raw ! Suc 0 # drop 2 raw"
    using assms(1) Cons_nth_drop_Suc [of "Suc 0" raw] by (simp add: numeral_2_eq_2)
  obtain now w where t: "NowMs (myOs m) = (now, w)" by fastforce
  obtain servers where hs: "handshake_servers raw rawSize = Some servers"
    using handshake_servers_defined [OF assms(2)] by auto
  show thesis
  proof (cases "word_of (raw ! 1) \<noteq> 0 \<or> fieldA h = 0")
    case True
    then show thesis
      using assms(3) by (intro refused [OF refl]) (auto simp: HandleHandshakeResponse_def d Let_def)
  next
    case False
    then show thesis
      using assms(3) t hs
      by (intro accepted [OF _ _ t hs refl])
        (auto simp: HandleHandshakeResponse_def d Let_def mgr_now_def os_op_def)
  qed
qed

lemma HandleHandshakeResponse_other_phase:
  "myConnectPhase m \<noteq> PHASE_AWAIT_HANDSHAKE \<Longrightarrow> HandleHandshakeResponse h raw rawSize m = m"
  by (simp add: HandleHandshakeResponse_def)

lemma HandleHandshakeResponse_ok:
  assumes "mgr_ok m" "48 \<le> length raw" "nat (sint rawSize) \<le> length raw"
  shows "mgr_ok (HandleHandshakeResponse h raw rawSize m) \<and> same_input m (HandleHandshakeResponse h raw rawSize m)"
proof (cases "myConnectPhase m = PHASE_AWAIT_HANDSHAKE")
  case True
  from assms(2,3) True show ?thesis
  proof (cases rule: HandleHandshakeResponse_cases [where h = h])
    case (refused code)
    let ?m = "m\<lparr>myLastError := MapHandshakeError code, myRawError := code\<rparr>"
    have "mgr_ok (sock_Close ?m)" using assms(1) by (intro sock_Close_ok) simp
    moreover have "\<not> live (mySocket (sock_Close ?m))" by (simp add: live_def sock_Close_fields(2))
    ultimately have "mgr_ok (sock_Close ?m\<lparr>myConnectPhase := PHASE_FAILED\<rparr>)" by (simp add: ok_parts)
    moreover have "same_input m (sock_Close ?m)"
      using sock_Close_same_input [of ?m] by (simp add: same_input_def)
    ultimately show ?thesis unfolding refused(3) by (simp add: same_input_def)
  next
    case (accepted now w servers m1)
    have "osFds w = osFds (myOs m)" "osRecvs w = osRecvs (myOs m)" using accepted(3) by (auto simp: NowMs_def)
    then have "mgr_ok m1" "same_input m m1"
      using assms(1) accepted(2) by (auto simp: accepted(5) ok_parts sock_ok_def same_input_def)
    then have "mgr_ok (SendWWRRegistrations (myUsersForWWR m) m1)"
      "same_input m (SendWWRRegistrations (myUsersForWWR m) m1)"
      using SendWWRRegistrations_ok only_sends_same_input [OF SendWWRRegistrations_only_sends] same_input_trans
      by blast+
    then show ?thesis unfolding accepted(6) by (simp add: same_input_def)
  qed
qed (simp add: HandleHandshakeResponse_other_phase assms)

lemma HandlePacket_ok:
  assumes ok: "mgr_ok m" and len: "0 \<le> sint bodySize" "nat (sint bodySize) \<le> length body"
    and run: "HandlePacket h body bodySize m = (alive, m')"
  shows "mgr_ok m' \<and> same_input m m'"
proof -
  let ?type = "ptype h AND 0xFF"
  consider (message) "?type = PACKET_MESSAGE"
    | (presence) "?type = PACKET_USER_ONLINE \<or> ?type = PACKET_USER_OFFLINE"
    | (change) "?type = PACKET_ONLINE_CHANGE" | (vc) "?type = PACKET_VIRTUAL_CONNECT"
    | (other) "?type \<noteq> PACKET_MESSAGE" "?type \<noteq> PACKET_USER_ONLINE" "?type \<noteq> PACKET_USER_OFFLINE"
        "?type \<noteq> PACKET_ONLINE_CHANGE" "?type \<noteq> PACKET_VIRTUAL_CONNECT"
    by blast
  then show ?thesis
  proof cases
    case message
    obtain b s t p where pr: "ParsePackedBabelMessage body bodySize BabelUIN_zero 0 [] = Some (b, s, t, p)"
      using ParsePackedBabelMessage_in_bounds [OF len, of BabelUIN_zero 0 "[]"] by (metis not_None_eq prod_cases4)
    obtain w f where e: "SpoolPrayFile s p m = m\<lparr>myOs := w, myFault := f\<rparr>" and n: "os_net w = os_net (myOs m)"
      using SpoolPrayFile_frame by blast
    have "same_input m (SpoolPrayFile s p m)" unfolding e using os_net_fds [OF n] by (simp add: same_input_def)
    then show ?thesis using run ok SpoolPrayFile_ok
      by (auto simp: HandlePacket_def message pr same_input_def split: if_splits)
  next
    case presence
    obtain b u where pr: "ParseShortUserData body bodySize ShortUserData_new = Some (b, u)"
      using ParseShortUserData_in_bounds [OF len, of ShortUserData_new] by fastforce
    have "same_input m (UpdatePresence u on n m)" for u on n
      by (subst UpdatePresence_frame) (simp add: same_input_def)
    then show ?thesis using run presence ok UpdatePresence_ok
      by (auto simp: HandlePacket_def pr Let_def consts_simps split: if_splits)
  next
    case change
    have "same_input m (UpdatePresence u on n m)" for u on n
      by (subst UpdatePresence_frame) (simp add: same_input_def)
    then show ?thesis using run ok UpdatePresence_ok
      by (auto simp: HandlePacket_def change Let_def consts_simps)
  next
    case vc
    let ?m = "m\<lparr>myNextVSN := next_vsn (myNextVSN m)\<rparr>"
    let ?p = "BuildVirtualConnectAccept (myServerUIN m) \<lparr>uid = fieldC h, hid = fieldD h\<rparr> (fieldE h) (next_vsn (myNextVSN m))"
    obtain b m1 where w: "sock_Write ?p ?m = (b, m1)" by fastforce
    have "mgr_ok m1" using sock_Write_ok [OF _ w] ok by simp
    moreover have "same_input m m1"
      using only_sends_same_input [OF sock_Write_only_sends [OF w]] by (simp add: same_input_def)
    moreover have "m' = (if b then m1 else ConnectionLost m1)"
      using run w by (simp add: HandlePacket_def vc NextVSN_def Let_def consts_simps split: if_splits)
    ultimately show ?thesis
      using ConnectionLost_ok same_input_trans ConnectionLost_same_input by (metis (full_types))
  next
    case other
    then show ?thesis using run ok by (simp add: HandlePacket_def)
  qed
qed

section \<open>The loop\<close>

lemma handle_frame_ok:
  assumes ok: "mgr_ok m" and fr: "frame_size (myTransactions m) h input inputSize = FrameSize n"
    and len: "length packet = nat (sint n)" and run: "handle_frame h packet n m = (alive, m')"
  shows "mgr_ok m' \<and> same_input m m'"
proof -
  note b = frame_size_bounds [OF mgr_okD(2) [OF ok] fr]
  have bs: "sint (n - PACKET_HEADER_SIZE) = sint n - 32"
    using b(1) by (subst sint_diff_id) (auto simp: consts_simps)
  have body: "length (drop 32 packet) = nat (sint (n - PACKET_HEADER_SIZE))" "0 \<le> sint (n - PACKET_HEADER_SIZE)"
    using b(1) len by (auto simp: bs)
  show ?thesis
  proof (cases "is_transaction (myTransactions m) h")
    case True
    then obtain t where t: "myTransactions m (pticket h) = Some t" "pticket h \<noteq> 0"
      by (auto simp: is_transaction_def)
    have e: "t_fixedExtra t = 0 \<or> t_fixedExtra t = 16"
      using table_okD(3) [OF mgr_okD(2) [OF ok] t(1)] .
    obtain t' where h: "HandleTransactionResponse t h (drop 32 packet) (n - PACKET_HEADER_SIZE) = Some t'"
      and t': "t_done t'" "t_kind t' = t_kind t" "t_fixedExtra t' = t_fixedExtra t"
        "length (t_resultInts t) = 4 \<longrightarrow> length (t_resultInts t') = 4"
      using HandleTransactionResponse_in_bounds [OF e _ _ body(1), of h] b(2) [OF True] b(4) t bs by auto
    have "t_kind t' \<noteq> TRANS_ABANDONED \<Longrightarrow> transaction_ok t'"
      using table_okD(2) [OF mgr_okD(2) [OF ok] t(1)] t' by (cases "t_kind t") (simp_all add: transaction_ok_def)
    then have "table_ok ((myTransactions m)(pticket h := if t_kind t' = TRANS_ABANDONED then None else Some t'))"
      using mgr_okD(2) [OF ok] t t' by (auto intro: table_ok_del table_ok_upd)
    then show ?thesis
      using run True t h ok mgr_ok_table by (auto simp: handle_frame_def same_input_def)
  next
    case False
    show ?thesis
    proof (cases "ptype h AND 0xFF = PACKET_HANDSHAKE_RESPONSE")
      case True
      then show ?thesis
        using run False HandleHandshakeResponse_ok [OF ok, of packet n h] b(3) [OF False True] len
        by (auto simp: handle_frame_def)
    next
      case nh: False
      then have "HandlePacket h (drop 32 packet) (n - PACKET_HEADER_SIZE) m = (alive, m')"
        using run False by (simp add: handle_frame_def)
      from HandlePacket_ok [OF ok body(2) _ this] body(1) show ?thesis by simp
    qed
  qed
qed

lemma ConsumeInput_eq:
  "ConsumeInput n s = s\<lparr>myInput := myInput (ConsumeInput n s)\<rparr>"
  by (simp add: ConsumeInput_def)

lemma ConsumeInput_shrinks:
  assumes "0 < sint n" "0 < sint (InputSize s)"
  shows "length (myInput (ConsumeInput n s)) < length (myInput s)"
proof -
  have "0 < length (myInput s)" using assms(2) by (auto simp: InputSize_def)
  then show ?thesis using assms(1) by (auto simp: ConsumeInput_def)
qed

lemma mgr_ok_input:
  "mgr_ok m \<Longrightarrow> mgr_ok (m\<lparr>mySocket := ConsumeInput n (mySocket m)\<rparr>)"
  by (subst ConsumeInput_eq) (auto simp: ok_parts sock_ok_def live_def)

text \<open>
  A pass that goes round again had a complete packet in front of the buffer: this is the
  only way it can.
\<close>

lemma process_step_again:
  assumes "process_step m = (True, m')"
  obtains h n m1 where "PacketHeader_Read (myInput (mySocket m)) = Some h"
    "frame_size (myTransactions m) h (myInput (mySocket m)) (InputSize (mySocket m)) = FrameSize n"
    "32 \<le> sint (InputSize (mySocket m))" "sint n \<le> sint (InputSize (mySocket m))"
    "handle_frame h (take (nat (sint n)) (myInput (mySocket m))) n m = (True, m1)"
    "m' = m1\<lparr>mySocket := ConsumeInput n (mySocket m1)\<rparr>"
  using assms
  by (auto simp: process_step_def Let_def consts_simps split: if_splits option.splits framing.splits prod.splits)

lemma process_step_ok:
  assumes ok: "mgr_ok m" and run: "process_step m = (again, m')"
  shows "mgr_ok m' \<and> (again \<longrightarrow> length (myInput (mySocket m')) < length (myInput (mySocket m)))"
proof (cases "sint (InputSize (mySocket m)) < 32")
  case True
  then show ?thesis using assms by (simp add: process_step_def consts_simps)
next
  case False
  let ?input = "myInput (mySocket m)"
  have len: "nat (sint (InputSize (mySocket m))) \<le> length ?input" by (rule InputSize_le)
  then have "32 \<le> length ?input" using False by linarith
  then obtain h where h: "PacketHeader_Read ?input = Some h" using PacketHeader_Read_defined by blast
  have nf: "frame_size (myTransactions m) h ?input (InputSize (mySocket m)) \<noteq> FrameFault"
    using False len by (intro frame_size_no_fault) auto
  show ?thesis
  proof (cases "frame_size (myTransactions m) h ?input (InputSize (mySocket m))")
    case FrameWait
    then show ?thesis using assms False h by (simp add: process_step_def consts_simps Let_def)
  next
    case FrameLost
    then show ?thesis using assms False h ConnectionLost_ok by (auto simp: process_step_def consts_simps Let_def)
  next
    case FrameFault
    then show ?thesis using nf by blast
  next
    case (FrameSize n)
    show ?thesis
    proof (cases "sint (InputSize (mySocket m)) < sint n")
      case True
      then show ?thesis using assms False h FrameSize by (simp add: process_step_def consts_simps Let_def)
    next
      case enough: False
      have n: "32 \<le> sint n" using frame_size_bounds(1) [OF mgr_okD(2) [OF ok] FrameSize] by simp
      obtain alive m1 where hf: "handle_frame h (take (nat (sint n)) ?input) n m = (alive, m1)" by fastforce
      have k: "length (take (nat (sint n)) ?input) = nat (sint n)" using enough len by simp
      from handle_frame_ok [OF ok FrameSize k hf] have m1: "mgr_ok m1" "same_input m m1" by auto
      have m': "(again, m') = (if alive then (True, m1\<lparr>mySocket := ConsumeInput n (mySocket m1)\<rparr>) else (False, m1))"
        using run False h FrameSize enough hf
        by (cases alive) (simp_all add: process_step_def consts_simps Let_def)
      have "length (myInput (ConsumeInput n (mySocket m1))) < length (myInput (mySocket m1))"
        using n False m1(2) by (intro ConsumeInput_shrinks) (auto simp: same_input_def InputSize_def)
      then show ?thesis using m' m1 mgr_ok_input by (auto simp: same_input_def split: if_splits)
    qed
  qed
qed

text \<open>One unit of fuel per byte is enough, and more changes nothing.\<close>

lemma ProcessInput_loop_ok:
  "mgr_ok m \<Longrightarrow> length (myInput (mySocket m)) < fuel \<Longrightarrow> mgr_ok (ProcessInput_loop fuel m)"
proof (induction fuel arbitrary: m)
  case (Suc fuel)
  obtain again m' where r: "process_step m = (again, m')" by fastforce
  from process_step_ok [OF Suc.prems(1) r] Suc r show ?case by (cases again) auto
qed simp

lemma ProcessInput_ok [ok_intros]: "mgr_ok m \<Longrightarrow> mgr_ok (ProcessInput m)"
  unfolding ProcessInput_def by (rule ProcessInput_loop_ok) simp_all

lemma ProcessInput_loop_fuel:
  "mgr_ok m \<Longrightarrow> length (myInput (mySocket m)) < n \<Longrightarrow> length (myInput (mySocket m)) < k \<Longrightarrow>
   ProcessInput_loop n m = ProcessInput_loop k m"
proof (induction n arbitrary: m k)
  case (Suc n)
  from Suc.prems(3) obtain k' where k: "k = Suc k'" by (cases k) auto
  obtain again m' where r: "process_step m = (again, m')" by fastforce
  note st = process_step_ok [OF Suc.prems(1) r]
  show ?case
  proof (cases again)
    case True
    then have "ProcessInput_loop n m' = ProcessInput_loop k' m'"
      using st Suc.prems(2,3) k by (intro Suc.IH) linarith+
    then show ?thesis using r k True by simp
  next
    case False
    then show ?thesis using r k by simp
  qed
qed simp

lemma ProcessInput_unfold:
  assumes "mgr_ok m"
  shows "ProcessInput m = (case process_step m of (again, m') \<Rightarrow> if again then ProcessInput m' else m')"
proof -
  obtain again m' where r: "process_step m = (again, m')" by fastforce
  from process_step_ok [OF assms r]
  have "again \<Longrightarrow> ProcessInput_loop (length (myInput (mySocket m))) m' = ProcessInput m'"
    unfolding ProcessInput_def by (intro ProcessInput_loop_fuel) auto
  then show ?thesis using r by (cases again) (simp_all add: ProcessInput_def)
qed

end
