(* ===== verification/NetFrames.thy ===== *)
theory NetFrames imports NetInput
begin

text \<open>
  What the arrival of bytes can change: the relation \<open>pumped\<close> between the manager before
  and after, which every handler keeps and which is transitive.  It says which members never
  change, that the clock only moves forward, and how the phase and the socket move together:
  a login leads online or to a failure, anything leads to idle, and a socket only ever closes.
\<close>

section \<open>The relation\<close>

definition api_part where
  "api_part m = (ourOverrideHost m, ourOverridePort m, ourClientMode m, myConnectDeadline m, myNickname m,
     myPassword m, myPendingUserFetches m, myRandomUserQuery m, myStatusQuery m, myQueuedMessages m,
     myOutboxDirectory m, myInboxDirectory m, myNextOutboxScan m, myDeleted m, myNextTicketNumber m,
     osClock (myOs m))"

definition input_moves :: "ConnectPhase \<Rightarrow> ConnectPhase \<Rightarrow> bool" where
  "input_moves p q \<longleftrightarrow> q = p \<or> q = PHASE_IDLE
     \<or> p = PHASE_AWAIT_HANDSHAKE \<and> (q = PHASE_ONLINE \<or> q = PHASE_FAILED)"

definition pumped :: "mgr \<Rightarrow> mgr \<Rightarrow> bool" where
  "pumped m m' \<longleftrightarrow> api_part m' = api_part m \<and> osClockReads (myOs m) \<le> osClockReads (myOs m')
     \<and> input_moves (myConnectPhase m) (myConnectPhase m')
     \<and> (myState (mySocket m') = myState (mySocket m) \<or> myState (mySocket m') = STATE_CLOSED)
     \<and> (myConnectPhase m' = PHASE_AWAIT_HANDSHAKE \<or> myConnectPhase m' = PHASE_CONNECTING
          \<longrightarrow> myState (mySocket m') = myState (mySocket m))"

lemma pumped_refl [simp]: "pumped m m"
  by (simp add: pumped_def input_moves_def)

lemma input_moves_trans: "input_moves p q \<Longrightarrow> input_moves q r \<Longrightarrow> input_moves p r"
  by (auto simp: input_moves_def)

lemma input_moves_waiting:
  "input_moves p q \<Longrightarrow> q = PHASE_AWAIT_HANDSHAKE \<or> q = PHASE_CONNECTING \<Longrightarrow> p = q"
  by (auto simp: input_moves_def)

lemma pumped_trans:
  assumes ab: "pumped a b" and bc: "pumped b c"
  shows "pumped a c"
proof -
  have "input_moves (myConnectPhase a) (myConnectPhase c)"
    using ab bc input_moves_trans unfolding pumped_def by blast
  moreover have "myState (mySocket c) = myState (mySocket a) \<or> myState (mySocket c) = STATE_CLOSED"
    using ab bc unfolding pumped_def by metis
  moreover have "myState (mySocket c) = myState (mySocket a)"
    if "myConnectPhase c = PHASE_AWAIT_HANDSHAKE \<or> myConnectPhase c = PHASE_CONNECTING"
  proof -
    have "myConnectPhase b = myConnectPhase c"
      using that bc input_moves_waiting unfolding pumped_def by blast
    then show ?thesis using that ab bc unfolding pumped_def by metis
  qed
  moreover have "api_part c = api_part a" "osClockReads (myOs a) \<le> osClockReads (myOs c)"
    using ab bc unfolding pumped_def by (metis, metis le_trans)
  ultimately show ?thesis unfolding pumped_def by blast
qed

lemma api_part_upd [simp]:
  "api_part (m\<lparr>mySocket := s\<rparr>) = api_part m"
  "api_part (m\<lparr>myConnectPhase := p\<rparr>) = api_part m"
  "api_part (m\<lparr>myUserUIN := u\<rparr>) = api_part m"
  "api_part (m\<lparr>myServerUIN := u\<rparr>) = api_part m"
  "api_part (m\<lparr>myConnectedAtMs := t\<rparr>) = api_part m"
  "api_part (m\<lparr>myLastError := e\<rparr>) = api_part m"
  "api_part (m\<lparr>myRawError := r\<rparr>) = api_part m"
  "api_part (m\<lparr>myCurrentAction := a\<rparr>) = api_part m"
  "api_part (m\<lparr>myServers := ss\<rparr>) = api_part m"
  "api_part (m\<lparr>myServerRotation := n\<rparr>) = api_part m"
  "api_part (m\<lparr>myNextVSN := n\<rparr>) = api_part m"
  "api_part (m\<lparr>myTransactions := T\<rparr>) = api_part m"
  "api_part (m\<lparr>myPresence := P\<rparr>) = api_part m"
  "api_part (m\<lparr>myWWRMembers := W\<rparr>) = api_part m"
  "api_part (m\<lparr>myChangedUsers := c\<rparr>) = api_part m"
  "api_part (m\<lparr>myPendingWWRAdds := A\<rparr>) = api_part m"
  "api_part (m\<lparr>myUsersForWWR := us\<rparr>) = api_part m"
  "api_part (m\<lparr>myIncomingMessages := ms\<rparr>) = api_part m"
  "api_part (m\<lparr>myOutboxDirty := b\<rparr>) = api_part m"
  "api_part (m\<lparr>myFault := f\<rparr>) = api_part m"
  by (simp_all add: api_part_def)

lemma api_part_os: "osClock w = osClock (myOs m) \<Longrightarrow> api_part (m\<lparr>myOs := w\<rparr>) = api_part m"
  by (simp add: api_part_def)

text \<open>An update that leaves the phase, the socket and the clock alone.\<close>

lemma pumped_same:
  "api_part m' = api_part m \<Longrightarrow> osClockReads (myOs m') = osClockReads (myOs m) \<Longrightarrow>
   myConnectPhase m' = myConnectPhase m \<Longrightarrow> myState (mySocket m') = myState (mySocket m) \<Longrightarrow> pumped m m'"
  by (simp add: pumped_def input_moves_def)

section \<open>The handlers\<close>

lemma sock_Write_pumped:
  assumes "sock_Write data m = (ok, m')"
  shows "(myConnectPhase m \<noteq> PHASE_AWAIT_HANDSHAKE \<and> myConnectPhase m \<noteq> PHASE_CONNECTING \<or> ok \<longrightarrow> pumped m m')
    \<and> api_part m' = api_part m \<and> osClockReads (myOs m') = osClockReads (myOs m)
    \<and> myConnectPhase m' = myConnectPhase m
    \<and> (myState (mySocket m') = myState (mySocket m) \<or> \<not> ok \<and> myState (mySocket m') = STATE_CLOSED)"
proof -
  obtain s w where w: "Write data (mySocket m) (myOs m) = (ok, s, w)" and m': "m' = m\<lparr>mySocket := s, myOs := w\<rparr>"
    using assms by (auto simp: sock_Write_eq)
  note sp = Write_spec [OF w]
  have "os_clock w = os_clock (myOs m)" using sp os_rest_clock by blast
  then have c: "osClock w = osClock (myOs m)" "osClockReads w = osClockReads (myOs m)"
    by (simp_all add: os_clock_def)
  have "myState s = myState (mySocket m) \<or> \<not> ok \<and> myState s = STATE_CLOSED"
    using sp by (auto split: if_splits)
  then show ?thesis
    using c by (auto simp: m' pumped_def input_moves_def api_part_def)
qed

lemma sock_Close_pumped:
  "api_part (sock_Close m) = api_part m" "osClockReads (myOs (sock_Close m)) = osClockReads (myOs m)"
  "myConnectPhase (sock_Close m) = myConnectPhase m"
proof -
  obtain s w where c: "Close (mySocket m) (myOs m) = (s, w)" and m': "sock_Close m = m\<lparr>mySocket := s, myOs := w\<rparr>"
    using sock_Close_eq by blast
  have "os_clock w = os_clock (myOs m)" using Close_fields [OF c] os_rest_clock by blast
  then show "api_part (sock_Close m) = api_part m" "osClockReads (myOs (sock_Close m)) = osClockReads (myOs m)"
    "myConnectPhase (sock_Close m) = myConnectPhase m"
    by (simp_all add: m' os_clock_def api_part_def)
qed

lemma MarkEveryoneOffline_pumped [simp]:
  "api_part (MarkEveryoneOffline m) = api_part m" "myOs (MarkEveryoneOffline m) = myOs m"
  "myConnectPhase (MarkEveryoneOffline m) = myConnectPhase m" "mySocket (MarkEveryoneOffline m) = mySocket m"
  by (simp_all add: MarkEveryoneOffline_def)

lemma ConnectionLost_pumped: "pumped m (ConnectionLost m)"
  by (simp add: ConnectionLost_def Let_def pumped_def input_moves_def sock_Close_pumped sock_Close_fields(2))

lemma UpdatePresence_pumped: "pumped m (UpdatePresence u online nick m)"
  by (subst UpdatePresence_frame) (simp add: pumped_same)

lemma SpoolPrayFile_pumped: "pumped m (SpoolPrayFile sender payload m)"
proof -
  obtain w f where e: "SpoolPrayFile sender payload m = m\<lparr>myOs := w, myFault := f\<rparr>"
    and c: "os_clock w = os_clock (myOs m)" using SpoolPrayFile_frame by blast
  show ?thesis unfolding e using c by (intro pumped_same) (simp_all add: os_clock_def api_part_os)
qed

lemma SendWWRRegistrations_pumped:
  "myConnectPhase m = PHASE_ONLINE \<Longrightarrow> pumped m (SendWWRRegistrations users m)
     \<and> myConnectPhase (SendWWRRegistrations users m) = PHASE_ONLINE"
proof (induction users arbitrary: m)
  case (Cons user users)
  obtain valid u where fs: "BabelUIN_FromString user = (valid, u)" by fastforce
  let ?m = "m\<lparr>myWWRMembers := insert user (myWWRMembers m)\<rparr>"
  obtain ok m' where w: "sock_Write (BuildWWRModify True (myServerUIN ?m) u) ?m = (ok, m')" by fastforce
  have "pumped m ?m" by (simp add: pumped_same)
  then have 1: "pumped m m'" "myConnectPhase m' = PHASE_ONLINE"
    using sock_Write_pumped [OF w] Cons.prems pumped_trans by auto
  have 2: "pumped m (SendWWRRegistrations users m')" "myConnectPhase (SendWWRRegistrations users m') = PHASE_ONLINE"
    using Cons.IH [OF 1(2)] 1(1) pumped_trans by blast+
  show ?case
  proof (cases "valid \<and> ok")
    case True
    then show ?thesis using w 2 by (simp add: fs)
  next
    case False
    then show ?thesis using w 1 Cons by (auto simp: fs)
  qed
qed simp

lemma HandleHandshakeResponse_pumped:
  assumes "48 \<le> length raw" "nat (sint rawSize) \<le> length raw"
  shows "pumped m (HandleHandshakeResponse h raw rawSize m)"
proof (cases "myConnectPhase m = PHASE_AWAIT_HANDSHAKE")
  case True
  from assms True show ?thesis
  proof (cases rule: HandleHandshakeResponse_cases [where h = h])
    case (refused code)
    then show ?thesis unfolding refused(3)
      using True by (simp add: pumped_def input_moves_def sock_Close_pumped sock_Close_fields(2))
  next
    case (accepted now w servers m1)
    have w: "osClock w = osClock (myOs m)" "osClockReads w = Suc (osClockReads (myOs m))"
      using accepted(3) by (auto simp: NowMs_def)
    have "pumped m m1"
      using True w by (simp add: accepted(5) pumped_def input_moves_def api_part_os)
    moreover have "myConnectPhase m1 = PHASE_ONLINE" by (simp add: accepted(5))
    ultimately have "pumped m (SendWWRRegistrations (myUsersForWWR m) m1)"
      using SendWWRRegistrations_pumped pumped_trans by blast
    then show ?thesis unfolding accepted(6) by (simp add: pumped_def)
  qed
qed (simp add: HandleHandshakeResponse_other_phase)

lemma HandlePacket_pumped:
  assumes len: "0 \<le> sint bodySize" "nat (sint bodySize) \<le> length body"
    and run: "HandlePacket h body bodySize m = (alive, m')"
  shows "pumped m m'"
proof -
  let ?type = "ptype h AND 0xFF"
  consider (vc) "?type = PACKET_VIRTUAL_CONNECT" | (message) "?type = PACKET_MESSAGE"
    | (rest) "?type \<noteq> PACKET_VIRTUAL_CONNECT" "?type \<noteq> PACKET_MESSAGE" by blast
  then show ?thesis
  proof cases
    case vc
    let ?m = "m\<lparr>myNextVSN := next_vsn (myNextVSN m)\<rparr>"
    let ?p = "BuildVirtualConnectAccept (myServerUIN m) \<lparr>uid = fieldC h, hid = fieldD h\<rparr> (fieldE h) (next_vsn (myNextVSN m))"
    obtain b m1 where w: "sock_Write ?p ?m = (b, m1)" by fastforce
    have m': "m' = (if b then m1 else ConnectionLost m1)"
      using run w by (simp add: HandlePacket_def vc NextVSN_def Let_def consts_simps split: if_splits)
    note sw = sock_Write_pumped [OF w]
    show ?thesis
    proof (cases b)
      case True
      then show ?thesis using m' sw pumped_trans [of m ?m m1] by (simp add: pumped_same)
    next
      case False
      have "api_part (ConnectionLost m1) = api_part m \<and> osClockReads (myOs m) \<le> osClockReads (myOs (ConnectionLost m1))"
        using ConnectionLost_pumped [of m1] sw by (simp add: pumped_def)
      then show ?thesis using False m' ConnectionLost_session_over [of m1]
        by (simp add: pumped_def input_moves_def session_over_def)
    qed
  next
    case message
    obtain b s t p where pr: "ParsePackedBabelMessage body bodySize BabelUIN_zero 0 [] = Some (b, s, t, p)"
      using ParsePackedBabelMessage_in_bounds [OF len, of BabelUIN_zero 0 "[]"] by (metis not_None_eq prod_cases4)
    have "m' = m \<or> m' = SpoolPrayFile s p m
        \<or> m' = m\<lparr>myIncomingMessages := myIncomingMessages m @ [\<lparr>im_user = BabelUIN_ToString s, im_type = t, im_payload = p\<rparr>]\<rparr>"
      using run by (simp add: HandlePacket_def message pr split: if_splits)
    then show ?thesis using SpoolPrayFile_pumped by (auto simp: pumped_same)
  next
    case rest
    obtain b u where pr: "ParseShortUserData body bodySize ShortUserData_new = Some (b, u)"
      using ParseShortUserData_in_bounds [OF len, of ShortUserData_new] by fastforce
    show ?thesis using run rest UpdatePresence_pumped
      by (auto simp: HandlePacket_def pr Let_def split: if_splits)
  qed
qed

lemma handle_frame_pumped:
  assumes ok: "mgr_ok m" and fr: "frame_size (myTransactions m) h input inputSize = FrameSize n"
    and len: "length packet = nat (sint n)" and run: "handle_frame h packet n m = (alive, m')"
  shows "pumped m m'"
proof -
  note b = frame_size_bounds [OF mgr_okD(2) [OF ok] fr]
  have bs: "sint (n - PACKET_HEADER_SIZE) = sint n - 32"
    using b(1) by (subst sint_diff_id) (auto simp: consts_simps)
  have body: "nat (sint (n - PACKET_HEADER_SIZE)) \<le> length (drop 32 packet)" "0 \<le> sint (n - PACKET_HEADER_SIZE)"
    using b(1) len by (auto simp: bs)
  consider (trans) "is_transaction (myTransactions m) h"
    | (login) "\<not> is_transaction (myTransactions m) h" "ptype h AND 0xFF = PACKET_HANDSHAKE_RESPONSE"
    | (plain) "\<not> is_transaction (myTransactions m) h" "ptype h AND 0xFF \<noteq> PACKET_HANDSHAKE_RESPONSE" by blast
  then show ?thesis
  proof cases
    case trans
    then show ?thesis using run
      by (auto simp: handle_frame_def set_fault_eq pumped_same split: option.splits)
  next
    case login
    then show ?thesis
      using run HandleHandshakeResponse_pumped [of packet n m h] b(3) [OF login] len by (auto simp: handle_frame_def)
  next
    case plain
    then have "HandlePacket h (drop 32 packet) (n - PACKET_HEADER_SIZE) m = (alive, m')"
      using run by (simp add: handle_frame_def)
    then show ?thesis using HandlePacket_pumped [OF body(2) body(1)] by simp
  qed
qed

lemma process_step_pumped:
  assumes ok: "mgr_ok m" and run: "process_step m = (again, m')"
  shows "pumped m m'"
proof -
  have lost: "pumped m (ConnectionLost m)" "pumped m (set_fault f m)" for f
    by (simp_all add: ConnectionLost_pumped set_fault_eq pumped_same)
  have hf: "pumped m (m1\<lparr>mySocket := ConsumeInput n (mySocket m1)\<rparr>)" "pumped m m1"
    if "frame_size (myTransactions m) h (myInput (mySocket m)) (InputSize (mySocket m)) = FrameSize n"
      "\<not> sint (InputSize (mySocket m)) < sint n"
      "handle_frame h (take (nat (sint n)) (myInput (mySocket m))) n m = (alive, m1)" for h n alive m1
  proof -
    have "length (take (nat (sint n)) (myInput (mySocket m))) = nat (sint n)"
      using that(2) InputSize_le [of "mySocket m"] by simp
    then show "pumped m m1" using handle_frame_pumped [OF ok that(1) _ that(3)] by simp
    then show "pumped m (m1\<lparr>mySocket := ConsumeInput n (mySocket m1)\<rparr>)"
      by (subst ConsumeInput_eq) (simp add: pumped_def)
  qed
  show ?thesis
    using run lost hf
    by (auto simp: process_step_def Let_def consts_simps split: if_splits option.splits framing.splits prod.splits)
qed

lemma ProcessInput_loop_pumped: "mgr_ok m \<Longrightarrow> pumped m (ProcessInput_loop fuel m)"
proof (induction fuel arbitrary: m)
  case 0
  then show ?case by (simp add: set_fault_eq pumped_same)
next
  case (Suc fuel)
  obtain again m' where r: "process_step m = (again, m')" by fastforce
  note p = process_step_pumped [OF Suc.prems r] and k = process_step_ok [OF Suc.prems r]
  show ?case
  proof (cases again)
    case True
    then show ?thesis using r p pumped_trans [OF p Suc.IH] k by simp
  next
    case False
    then show ?thesis using r p by simp
  qed
qed

lemma ProcessInput_pumped: "mgr_ok m \<Longrightarrow> pumped m (ProcessInput m)"
  unfolding ProcessInput_def by (rule ProcessInput_loop_pumped)

end
