(* ===== verification/NetConnect.thy ===== *)
theory NetConnect imports NetFrames
begin

text \<open>
  Getting online and staying there: \<open>StartConnecting\<close>, \<open>PumpConnectPhase\<close>,
  \<open>ConnectInBackground\<close>, \<open>Pump\<close>, and the two loops that wait, \<open>Connect\<close> and
  \<open>WaitForTransaction\<close>.  A waiting loop takes fuel; \<open>None\<close> says it was still waiting when the
  fuel ran out.  \<open>SleepMs\<close> does nothing but let the clock run, which the scripted clock does
  by itself.  The lemmas: a step of the connect phase keeps the invariant, and where it leads.
\<close>

section \<open>Connecting\<close>

text \<open>Which server, and under which name; a list is used round robin.\<close>

definition choose_server :: "mgr \<Rightarrow> mgr" where
  "choose_server m =
     (if ourOverrideHost m \<noteq> [] then
        m\<lparr>myConnectedHost := ourOverrideHost m,
          myConnectedPort := (if ourOverridePort m \<noteq> 0 then ourOverridePort m else DEFAULT_PORT),
          myConnectedID := 0, myConnectedFriendlyName := ''Override''\<rparr>
      else if myServers m \<noteq> [] then
        let server = myServers m ! (unat (scast (myServerRotation m) :: 64 word) mod length (myServers m));
            m = m\<lparr>myServerRotation := myServerRotation m + 1\<rparr>
        in m\<lparr>myConnectedHost := si_myHost server,
             myConnectedPort := (if si_myPort server \<noteq> 0 then si_myPort server else DEFAULT_PORT),
             myConnectedID := si_myID server, myConnectedFriendlyName := si_myFriendlyName server\<rparr>
      else
        m\<lparr>myConnectedHost := DEFAULT_HOST, myConnectedPort := DEFAULT_PORT,
          myConnectedID := DEFAULT_ID, myConnectedFriendlyName := DEFAULT_FRIENDLY_NAME\<rparr>)"

definition StartConnecting :: "mgr \<Rightarrow> mgr" where
  "StartConnecting m =
     (let m = choose_server m;
          m = m\<lparr>myCurrentAction := ''Connecting to '' @ myConnectedHost m\<rparr>;
          (ok, m) = sock_op (BeginConnect (myConnectedHost m) (myConnectedPort m)) m
      in if \<not> ok then
           m\<lparr>myLastError := ERROR_OFFLINE, myRawError := - myLastSystemError (mySocket m),
             myConnectPhase := PHASE_FAILED, myCurrentAction := []\<rparr>
         else let m = m\<lparr>myConnectPhase := PHASE_CONNECTING\<rparr>;
                  (now, m) = mgr_now m
              in m\<lparr>myConnectDeadline := now + CONNECT_TIMEOUT_MS\<rparr>)"

text \<open>The assignments that every failure of the connect phase makes.\<close>

definition connect_failed :: "cint \<Rightarrow> mgr \<Rightarrow> mgr" where
  "connect_failed raw m = m\<lparr>myLastError := ERROR_OFFLINE, myRawError := raw,
     myConnectPhase := PHASE_FAILED, myCurrentAction := []\<rparr>"

text \<open>The three parts of \<open>PumpConnectPhase\<close>; \<open>False\<close> for its early returns.\<close>

definition pump_connecting :: "mgr \<Rightarrow> bool \<times> mgr" where
  "pump_connecting m =
     (let (state, m) = sock_op PumpConnect m in
      if state = STATE_CONNECTED then
        let m = m\<lparr>myCurrentAction := ''Logging in as '' @ myNickname m\<rparr>;
            (ticket, m) = NextTicket m;
            handshake = BuildHandshake (myUserUIN m) ticket (myNickname m) (myPassword m)
              (if ourClientMode m = CLIENT_MODE_ORIGINAL then 0 else HANDSHAKE_MAGIC_MODERN);
            (ok, m) = sock_Write handshake m
        in if \<not> ok then (False, connect_failed (- myLastSystemError (mySocket m)) m)
           else (True, m\<lparr>myConnectPhase := PHASE_AWAIT_HANDSHAKE\<rparr>)
      else if state \<noteq> STATE_CONNECTING then
        (False, connect_failed (- myLastSystemError (mySocket m)) m)
      else (True, m))"

definition pump_handshake :: "mgr \<Rightarrow> bool \<times> mgr" where
  "pump_handshake m =
     (let (alive, m) = sock_op SocketPump m;
          m = ProcessInput m
      in if myConnectPhase m = PHASE_AWAIT_HANDSHAKE \<and> \<not> alive
         then (False, connect_failed (- myLastSystemError (mySocket m)) m)
         else (True, m))"

definition pump_deadline :: "mgr \<Rightarrow> mgr" where
  "pump_deadline m =
     (if myConnectPhase m = PHASE_CONNECTING \<or> myConnectPhase m = PHASE_AWAIT_HANDSHAKE then
        let (now, m) = mgr_now m in
        if TimeAfter now (myConnectDeadline m) then connect_failed 0 (sock_Close m) else m
      else m)"

definition PumpConnectPhase :: "mgr \<Rightarrow> mgr" where
  "PumpConnectPhase m =
     (let (go, m) = (if myConnectPhase m = PHASE_CONNECTING then pump_connecting m else (True, m)) in
      if \<not> go then m
      else let (go, m) = (if myConnectPhase m = PHASE_AWAIT_HANDSHAKE then pump_handshake m else (True, m)) in
        if \<not> go then m else pump_deadline m)"

definition ConnectInBackground :: "string list \<Rightarrow> mgr \<Rightarrow> bool \<times> mgr" where
  "ConnectInBackground usersForWWR m =
     (if Online m then (False, m)
      else let m = (if myConnectPhase m = PHASE_IDLE \<or> myConnectPhase m = PHASE_FAILED
                       \<or> myConnectPhase m = PHASE_ONLINE
                    then StartConnecting (m\<lparr>myUsersForWWR := usersForWWR\<rparr>)
                    else PumpConnectPhase m)
           in (myConnectPhase m = PHASE_CONNECTING \<or> myConnectPhase m = PHASE_AWAIT_HANDSHAKE, m))"

fun Connect :: "nat \<Rightarrow> mgr \<Rightarrow> (bool \<times> mgr) option" where
  "Connect 0 m = None"
| "Connect (Suc fuel) m = (case ConnectInBackground [] m of
     (block, m) \<Rightarrow> if \<not> block then Some (Online m, m) else Connect fuel m)"

section \<open>Online\<close>

definition Pump :: "mgr \<Rightarrow> mgr" where
  "Pump m =
     (if myConnectPhase m = PHASE_CONNECTING \<or> myConnectPhase m = PHASE_AWAIT_HANDSHAKE then PumpConnectPhase m
      else if myConnectPhase m \<noteq> PHASE_ONLINE then m
      else let (alive, m) = sock_op SocketPump m;
               m = ProcessInput m
           in if \<not> alive \<and> myConnectPhase m = PHASE_ONLINE then ConnectionLost m else m)"

text \<open>The returned flag, and \<open>result\<close> as it is left.\<close>

fun Wait_loop :: "nat \<Rightarrow> cint \<Rightarrow> u32 \<Rightarrow> Transaction \<Rightarrow> mgr \<Rightarrow> (bool \<times> Transaction \<times> mgr) option" where
  "Wait_loop 0 ticket deadline result m = None"
| "Wait_loop (Suc fuel) ticket deadline result m =
     (let m = Pump m;
          (completed, result, stillPending, m) = PollTransaction ticket result m
      in if completed then Some (t_done result, result, m)
         else if \<not> Online m then Some (False, result, m)
         else let (now, m) = mgr_now m in
           if TimeAfter now deadline then Some (False, result, AbandonTransaction ticket m)
           else let (_, m) = os_op (WaitReadable (mySocket m)) m in
             Wait_loop fuel ticket deadline result m)"

definition WaitForTransaction :: "nat \<Rightarrow> cint \<Rightarrow> u32 \<Rightarrow> Transaction \<Rightarrow> mgr \<Rightarrow> (bool \<times> Transaction \<times> mgr) option" where
  "WaitForTransaction fuel ticket timeoutMs result m =
     (let (now, m) = mgr_now m in Wait_loop fuel ticket (now + timeoutMs) result m)"

section \<open>The socket calls\<close>

lemma PumpConnect_live: "PumpConnect s w = (st, s', w') \<Longrightarrow> live s' \<Longrightarrow> live s"
  by (auto simp: PumpConnect_def live_def Let_def split: if_splits prod.splits dest: Close_fields)

lemma PumpConnect_state: "PumpConnect s w = (st, s', w') \<Longrightarrow> myState s' = st"
  by (auto simp: PumpConnect_def Let_def split: if_splits prod.splits)

lemma SocketPump_live:
  "SocketPump s w = (alive, s', w') \<Longrightarrow> live s' \<Longrightarrow> live s"
  by (auto simp: SocketPump_def live_def Let_def split: if_splits prod.splits)

lemma SocketPump_alive: "SocketPump s w = (alive, s', w') \<Longrightarrow> (alive \<longleftrightarrow> live s')
    \<and> (IsConnected s \<longrightarrow> (alive \<longleftrightarrow> IsConnected s'))"
  using FlushOutput_loop_spec ReadInput_loop_spec PumpConnect_state
  by (auto simp: SocketPump_def live_def IsConnected_def FlushOutput_def ReadInput_def Let_def
      split: if_splits prod.splits) (metis sock_state.distinct)+

lemma SocketPump_state:
  "SocketPump s w = (alive, s', w') \<Longrightarrow> myState s \<noteq> STATE_CONNECTING \<Longrightarrow>
   myState s' = myState s \<or> myState s' = STATE_CLOSED"
  using FlushOutput_loop_spec ReadInput_loop_spec
  by (auto simp: SocketPump_def FlushOutput_def ReadInput_def Let_def split: if_splits prod.splits)
    (metis sock_state.distinct)+

lemma BeginConnect_state: "BeginConnect host port s w = (ok, s', w') \<Longrightarrow> (ok \<longleftrightarrow> live s')"
  by (auto simp: BeginConnect_def live_def Let_def split: if_splits prod.splits connect_answer.splits)

text \<open>None of them reads the clock or touches a file.\<close>

lemma Close_rest: "Close s w = (s', w') \<Longrightarrow> os_rest w' = os_rest w"
  by (auto dest: Close_fields)

lemma PumpConnect_rest: "PumpConnect s w = (st, s', w') \<Longrightarrow> os_rest w' = os_rest w"
  by (auto simp: PumpConnect_def Let_def frame_simps split: if_splits prod.splits dest!: Close_rest)

lemma BeginConnect_rest: "BeginConnect host port s w = (ok, s', w') \<Longrightarrow> os_rest w' = os_rest w"
  by (auto simp: BeginConnect_def Let_def frame_simps split: if_splits prod.splits connect_answer.splits dest!: Close_rest)

lemma SocketPump_rest: "SocketPump s w = (alive, s', w') \<Longrightarrow> os_rest w' = os_rest w"
  using FlushOutput_loop_spec ReadInput_loop_spec PumpConnect_rest
  by (auto simp: SocketPump_def FlushOutput_def ReadInput_def Let_def split: if_splits prod.splits)

section \<open>The invariant\<close>

lemma sock_op_ok:
  assumes ok: "mgr_ok m" and run: "sock_op f m = (r, m')"
    and keep: "\<And>s w. f (mySocket m) (myOs m) = (r, s, w) \<Longrightarrow>
      sock_ok s w \<and> (live s \<longrightarrow> live (mySocket m)) \<and> os_rest w = os_rest (myOs m)"
  shows "mgr_ok m' \<and> m' = m\<lparr>mySocket := mySocket m', myOs := myOs m'\<rparr> \<and> os_rest (myOs m') = os_rest (myOs m)"
proof -
  obtain s w where f: "f (mySocket m) (myOs m) = (r, s, w)" and m': "m' = m\<lparr>mySocket := s, myOs := w\<rparr>"
    using run by (auto simp: sock_op_def split: prod.splits)
  have "mgr_ok m'" using keep [OF f] ok m' by (auto simp: ok_parts)
  then show ?thesis using keep [OF f] m' by simp
qed

lemma sock_op_SocketPump:
  assumes ok: "mgr_ok m" and run: "sock_op SocketPump m = (alive, m')"
  shows "mgr_ok m'" "m' = m\<lparr>mySocket := mySocket m', myOs := myOs m'\<rparr>" "os_rest (myOs m') = os_rest (myOs m)"
    "alive \<longleftrightarrow> live (mySocket m')" "IsConnected (mySocket m) \<Longrightarrow> alive \<longleftrightarrow> IsConnected (mySocket m')"
    "myState (mySocket m) \<noteq> STATE_CONNECTING \<Longrightarrow> myState (mySocket m') \<noteq> STATE_CONNECTING"
proof -
  obtain s w where f: "SocketPump (mySocket m) (myOs m) = (alive, s, w)" and m': "m' = m\<lparr>mySocket := s, myOs := w\<rparr>"
    using run by (auto simp: sock_op_def split: prod.splits)
  have "sock_ok s w" using sock_ok_SocketPump [OF mgr_okD(1) [OF ok] f] .
  then have "mgr_ok m' \<and> m' = m\<lparr>mySocket := mySocket m', myOs := myOs m'\<rparr> \<and> os_rest (myOs m') = os_rest (myOs m)"
    using f SocketPump_live SocketPump_rest by (intro sock_op_ok [OF ok run]) auto
  then show "mgr_ok m'" "m' = m\<lparr>mySocket := mySocket m', myOs := myOs m'\<rparr>" "os_rest (myOs m') = os_rest (myOs m)"
    by blast+
  show "alive \<longleftrightarrow> live (mySocket m')" "IsConnected (mySocket m) \<Longrightarrow> alive \<longleftrightarrow> IsConnected (mySocket m')"
    using SocketPump_alive [OF f] m' by auto
  show "myState (mySocket m) \<noteq> STATE_CONNECTING \<Longrightarrow> myState (mySocket m') \<noteq> STATE_CONNECTING"
    using SocketPump_state [OF f] m' by auto
qed

lemma sock_op_PumpConnect:
  assumes ok: "mgr_ok m" and run: "sock_op PumpConnect m = (st, m')"
  shows "mgr_ok m'" "m' = m\<lparr>mySocket := mySocket m', myOs := myOs m'\<rparr>" "os_rest (myOs m') = os_rest (myOs m)"
    "myState (mySocket m') = st"
proof -
  obtain s w where f: "PumpConnect (mySocket m) (myOs m) = (st, s, w)" and m': "m' = m\<lparr>mySocket := s, myOs := w\<rparr>"
    using run by (auto simp: sock_op_def split: prod.splits)
  have "sock_ok s w" using sock_ok_PumpConnect [OF mgr_okD(1) [OF ok] f] .
  then have "mgr_ok m' \<and> m' = m\<lparr>mySocket := mySocket m', myOs := myOs m'\<rparr> \<and> os_rest (myOs m') = os_rest (myOs m)"
    using f PumpConnect_live PumpConnect_rest by (intro sock_op_ok [OF ok run]) auto
  then show "mgr_ok m'" "m' = m\<lparr>mySocket := mySocket m', myOs := myOs m'\<rparr>" "os_rest (myOs m') = os_rest (myOs m)"
    by blast+
  show "myState (mySocket m') = st" using PumpConnect_state [OF f] m' by simp
qed

text \<open>The clock never runs backwards, and its script is not changed.\<close>

definition clock_mono :: "mgr \<Rightarrow> mgr \<Rightarrow> bool" where
  "clock_mono m m' \<longleftrightarrow> osClock (myOs m') = osClock (myOs m) \<and> osClockReads (myOs m) \<le> osClockReads (myOs m')"

lemma clock_mono_refl [simp]: "clock_mono m m"
  by (simp add: clock_mono_def)

lemma clock_mono_trans: "clock_mono a b \<Longrightarrow> clock_mono b c \<Longrightarrow> clock_mono a c"
  by (auto simp: clock_mono_def)

lemma clock_mono_rest: "os_rest (myOs m') = os_rest (myOs m) \<Longrightarrow> clock_mono m m'"
  by (simp add: clock_mono_def os_rest_def)

lemma pumped_clock: "pumped m m' \<Longrightarrow> clock_mono m m'"
  by (simp add: pumped_def clock_mono_def api_part_def)

lemma mgr_now_fields:
  assumes "mgr_now m = (now, m')"
  shows "m' = m\<lparr>myOs := myOs m'\<rparr>" "osFds (myOs m') = osFds (myOs m)"
    "osClock (myOs m') = osClock (myOs m)" "osClockReads (myOs m') = Suc (osClockReads (myOs m))"
    "now = osClock (myOs m) (osClockReads (myOs m))"
  using assms by (auto simp: mgr_now_eq NowMs_def)

text \<open>The members that getting connected does not look at.\<close>

definition query_part where
  "query_part m = (myPendingUserFetches m, myRandomUserQuery m, myStatusQuery m, myQueuedMessages m,
     myOutboxDirectory m, myInboxDirectory m, myNextOutboxScan m, myDeleted m)"

lemma pumped_query: "pumped m m' \<Longrightarrow> query_part m' = query_part m"
  by (simp add: pumped_def query_part_def api_part_def)

text \<open>What every step on the way online keeps.\<close>

definition goes :: "mgr \<Rightarrow> mgr \<Rightarrow> bool" where
  "goes m m' \<longleftrightarrow> mgr_ok m' \<and> clock_mono m m' \<and> query_part m' = query_part m"

lemma goes_trans: "goes a b \<Longrightarrow> goes b c \<Longrightarrow> goes a c"
  using clock_mono_trans by (auto simp: goes_def)

lemma goes_pumped: "mgr_ok m' \<Longrightarrow> pumped m m' \<Longrightarrow> goes m m'"
  by (simp add: goes_def pumped_clock pumped_query)

lemma connect_failed_ok:
  assumes "mgr_ok m" "\<not> live (mySocket m)"
  shows "mgr_ok (connect_failed r m)" "settled (connect_failed r m)" "goes m (connect_failed r m)"
    "myConnectPhase (connect_failed r m) = PHASE_FAILED" "\<not> live (mySocket (connect_failed r m))"
proof -
  show ok: "mgr_ok (connect_failed r m)" using assms by (auto simp: connect_failed_def ok_parts)
  show "settled (connect_failed r m)" by (simp add: connect_failed_def settled_def)
  show "goes m (connect_failed r m)"
    using ok by (simp add: goes_def clock_mono_def connect_failed_def query_part_def)
  show "myConnectPhase (connect_failed r m) = PHASE_FAILED" "\<not> live (mySocket (connect_failed r m))"
    using assms by (simp_all add: connect_failed_def)
qed

lemma choose_server_frame:
  "mgr_ok (choose_server m) = mgr_ok m" "mySocket (choose_server m) = mySocket m"
  "myOs (choose_server m) = myOs m" "query_part (choose_server m) = query_part m"
  by (simp_all add: choose_server_def Let_def query_part_def)

lemma StartConnecting_ok:
  assumes "mgr_ok m"
  shows "goes m (StartConnecting m) \<and> settled (StartConnecting m)
    \<and> (myConnectPhase (StartConnecting m) = PHASE_CONNECTING \<or> myConnectPhase (StartConnecting m) = PHASE_FAILED)"
proof -
  let ?c = "choose_server m"
  let ?m = "?c\<lparr>myCurrentAction := ''Connecting to '' @ myConnectedHost ?c\<rparr>"
  obtain ok s w where b: "BeginConnect (myConnectedHost ?c) (myConnectedPort ?c) (mySocket m) (myOs m) = (ok, s, w)"
    by (metis prod_cases3)
  have so: "sock_ok s w" using sock_ok_BeginConnect [OF mgr_okD(1) [OF assms] b] .
  have m: "mgr_ok ?m" using assms by (simp add: choose_server_frame)
  have r: "osClock w = osClock (myOs m)" "osClockReads w = osClockReads (myOs m)"
    using BeginConnect_rest [OF b] by (auto simp: os_rest_def)
  have op: "sock_op (BeginConnect (myConnectedHost ?m) (myConnectedPort ?m)) ?m = (ok, ?m\<lparr>mySocket := s, myOs := w\<rparr>)"
    using b by (simp add: sock_op_def choose_server_frame)
  have run: "StartConnecting m = (if \<not> ok then ?m\<lparr>mySocket := s, myOs := w, myLastError := ERROR_OFFLINE,
        myRawError := - myLastSystemError s, myConnectPhase := PHASE_FAILED, myCurrentAction := []\<rparr>
      else ?m\<lparr>mySocket := s, myOs := w\<lparr>osClockReads := Suc (osClockReads w)\<rparr>, myConnectPhase := PHASE_CONNECTING,
        myConnectDeadline := osClock w (osClockReads w) + CONNECT_TIMEOUT_MS\<rparr>)"
    using op by (simp add: StartConnecting_def Let_def mgr_now_def os_op_def NowMs_def)
  have q: "query_part ?m = query_part m" using choose_server_frame(4) [of m] by (simp add: query_part_def)
  show ?thesis
  proof (cases ok)
    case True
    then have "mgr_ok (StartConnecting m)" "settled (StartConnecting m)"
      using m so BeginConnect_state [OF b] by (auto simp: run ok_parts sock_ok_def settled_def)
    then show ?thesis using True r q by (simp add: run goes_def clock_mono_def query_part_def)
  next
    case False
    then have "mgr_ok (StartConnecting m)" "settled (StartConnecting m)"
      using m so BeginConnect_state [OF b] by (auto simp: run ok_parts settled_def)
    then show ?thesis using False r q by (simp add: run goes_def clock_mono_def query_part_def)
  qed
qed

lemma NextTicket_fields: "NextTicket m = (k, m') \<Longrightarrow> m' = m\<lparr>myNextTicketNumber := k\<rparr> \<and> k \<noteq> 0"
  by (auto simp: NextTicket_def Let_def next_ticket_number_nonzero)

text \<open>A write on the way online: what it keeps, and that a failed one leaves no connection.\<close>

lemma sock_Write_goes:
  assumes "mgr_ok m" "sock_Write data m = (ok, m')"
  shows "goes m m'" "myConnectPhase m' = myConnectPhase m" "ok \<longleftrightarrow> IsConnected (mySocket m')"
    "IsConnected (mySocket m) \<Longrightarrow> \<not> ok \<Longrightarrow> \<not> live (mySocket m')"
    "myServerUIN m' = myServerUIN m"
proof -
  note f = sock_Write_frame [OF assms(2)] and p = sock_Write_pumped [OF assms(2)]
  have m': "m' = m\<lparr>mySocket := mySocket m', myOs := myOs m'\<rparr>" using f by blast
  have "query_part m' = query_part m" by (subst m') (simp add: query_part_def)
  then show "goes m m'" using f sock_Write_ok [OF assms] by (simp add: goes_def clock_mono_rest)
  show "myConnectPhase m' = myConnectPhase m" using p by blast
  show "ok \<longleftrightarrow> IsConnected (mySocket m')" using f by blast
  show "IsConnected (mySocket m) \<Longrightarrow> \<not> ok \<Longrightarrow> \<not> live (mySocket m')"
    using p f by (auto simp: live_def IsConnected_def)
  show "myServerUIN m' = myServerUIN m" by (subst m') simp
qed

lemma pump_connecting_ok:
  assumes "mgr_ok m" "settled m" "myConnectPhase m = PHASE_CONNECTING" "pump_connecting m = (go, m')"
  shows "goes m m' \<and> settled m' \<and>
    (go \<and> myConnectPhase m' \<in> {PHASE_CONNECTING, PHASE_AWAIT_HANDSHAKE} \<or> \<not> go \<and> myConnectPhase m' = PHASE_FAILED)"
proof -
  obtain st m1 where op: "sock_op PumpConnect m = (st, m1)" by fastforce
  note o = sock_op_PumpConnect [OF assms(1) op]
  have q: "query_part m1 = query_part m" and ph: "myConnectPhase m1 = PHASE_CONNECTING"
    by (subst o(2), simp add: query_part_def, subst o(2), simp add: assms(3))
  have g: "goes m m1" using o q by (simp add: goes_def clock_mono_rest)
  consider (up) "st = STATE_CONNECTED" | (wait) "st = STATE_CONNECTING"
    | (down) "st \<noteq> STATE_CONNECTED" "st \<noteq> STATE_CONNECTING" by blast
  then show ?thesis
  proof cases
    case up
    obtain k m3 where nt: "NextTicket (m1\<lparr>myCurrentAction := ''Logging in as '' @ myNickname m1\<rparr>) = (k, m3)" by fastforce
    have m3: "m3 = m1\<lparr>myCurrentAction := ''Logging in as '' @ myNickname m1, myNextTicketNumber := k\<rparr>"
      using NextTicket_fields [OF nt] by simp
    let ?h = "BuildHandshake (myUserUIN m3) k (myNickname m3) (myPassword m3)
        (if ourClientMode m3 = CLIENT_MODE_ORIGINAL then 0 else HANDSHAKE_MAGIC_MODERN)"
    obtain ok m4 where w: "sock_Write ?h m3 = (ok, m4)" by fastforce
    have ok3: "mgr_ok m3" using o(1) by (simp add: m3)
    have g3: "goes m1 m3" using ok3 by (simp add: goes_def m3 clock_mono_def query_part_def)
    note wr = sock_Write_goes [OF ok3 w]
    have c3: "IsConnected (mySocket m3)" using o(4) up by (simp add: m3 IsConnected_def)
    have g4: "goes m m4" using g g3 wr(1) goes_trans by blast
    have ok4: "mgr_ok m4" using wr(1) by (simp add: goes_def)
    show ?thesis
    proof (cases ok)
      case True
      have r: "m' = m4\<lparr>myConnectPhase := PHASE_AWAIT_HANDSHAKE\<rparr>" "go"
        using assms(4) True by (simp_all add: pump_connecting_def op up nt w Let_def del: append.simps)
      have "mgr_ok m'" using ok4 by (auto simp: r ok_parts)
      then show ?thesis using r g4 wr(3) True by (simp add: goes_def clock_mono_def settled_def query_part_def)
    next
      case False
      have r: "m' = connect_failed (- myLastSystemError (mySocket m4)) m4" "\<not> go"
        using assms(4) False by (simp_all add: pump_connecting_def op up nt w Let_def del: append.simps)
      show ?thesis using connect_failed_ok [OF ok4 wr(4) [OF c3 False]] g4 goes_trans r by metis
    qed
  next
    case wait
    then have "m' = m1" "go" using assms(4) by (simp_all add: pump_connecting_def op Let_def)
    then show ?thesis using g ph o(4) wait by (auto simp: settled_def live_def)
  next
    case down
    have nl: "\<not> live (mySocket m1)" using down o(4) by (simp add: live_def)
    have "m' = connect_failed (- myLastSystemError (mySocket m1)) m1" "\<not> go"
      using assms(4) down by (simp_all add: pump_connecting_def op Let_def)
    then show ?thesis using connect_failed_ok [OF o(1) nl] g goes_trans by metis
  qed
qed

lemma goes_refl: "mgr_ok m \<Longrightarrow> goes m m"
  by (simp add: goes_def)

lemma goes_ok: "goes m m' \<Longrightarrow> mgr_ok m'"
  by (simp add: goes_def)

text \<open>The socket is pumped and what arrived is processed, as both pumps do.\<close>

lemma pump_and_process:
  assumes "mgr_ok m" "sock_op SocketPump m = (alive, m1)"
  shows "goes m (ProcessInput m1)"
    "input_moves (myConnectPhase m) (myConnectPhase (ProcessInput m1))"
    "myState (mySocket m) \<noteq> STATE_CONNECTING \<Longrightarrow> myState (mySocket (ProcessInput m1)) \<noteq> STATE_CONNECTING"
    "myConnectPhase (ProcessInput m1) = PHASE_AWAIT_HANDSHAKE \<Longrightarrow>
      myState (mySocket (ProcessInput m1)) = myState (mySocket m1)"
proof -
  note o = sock_op_SocketPump [OF assms]
  have p: "pumped m1 (ProcessInput m1)" using o(1) by (rule ProcessInput_pumped)
  have same: "query_part m1 = query_part m" "myConnectPhase m1 = myConnectPhase m"
    by (subst o(2), simp add: query_part_def, subst o(2), simp)
  have "goes m m1" using o same by (simp add: goes_def clock_mono_rest)
  then show "goes m (ProcessInput m1)" using goes_pumped [OF ProcessInput_ok [OF o(1)] p] goes_trans by blast
  show "input_moves (myConnectPhase m) (myConnectPhase (ProcessInput m1))" using p same by (simp add: pumped_def)
  show "myState (mySocket m) \<noteq> STATE_CONNECTING \<Longrightarrow> myState (mySocket (ProcessInput m1)) \<noteq> STATE_CONNECTING"
    using o(6) p by (auto simp: pumped_def)
  show "myConnectPhase (ProcessInput m1) = PHASE_AWAIT_HANDSHAKE \<Longrightarrow>
      myState (mySocket (ProcessInput m1)) = myState (mySocket m1)"
    using p by (auto simp: pumped_def)
qed

lemma pump_handshake_ok:
  assumes "mgr_ok m" "settled m" "myConnectPhase m = PHASE_AWAIT_HANDSHAKE" "pump_handshake m = (go, m')"
  shows "goes m m' \<and> settled m' \<and> input_moves PHASE_AWAIT_HANDSHAKE (myConnectPhase m')
    \<and> (go \<or> myConnectPhase m' = PHASE_FAILED)"
proof -
  obtain alive m1 where op: "sock_op SocketPump m = (alive, m1)" by fastforce
  note o = sock_op_SocketPump [OF assms(1) op] and pp = pump_and_process [OF assms(1) op]
  let ?m2 = "ProcessInput m1"
  have con: "IsConnected (mySocket m)" using assms(2,3) by (simp add: settled_def)
  have mv: "input_moves PHASE_AWAIT_HANDSHAKE (myConnectPhase ?m2)" using pp(2) assms(3) by simp
  show ?thesis
  proof (cases "myConnectPhase ?m2 = PHASE_AWAIT_HANDSHAKE \<and> \<not> alive")
    case True
    then have nl: "\<not> live (mySocket ?m2)" using o(4) pp(4) by (simp add: live_def)
    have "m' = connect_failed (- myLastSystemError (mySocket ?m2)) ?m2" "\<not> go"
      using assms(4) True by (simp_all add: pump_handshake_def op Let_def)
    then show ?thesis
      using connect_failed_ok [OF goes_ok [OF pp(1)] nl] pp(1) goes_trans by (metis input_moves_def)
  next
    case False
    have r: "m' = ?m2" "go" using assms(4) False by (auto simp: pump_handshake_def op Let_def)
    have "IsConnected (mySocket ?m2)" if "myConnectPhase ?m2 = PHASE_AWAIT_HANDSHAKE"
      using that False o(5) [OF con] pp(4) by (simp add: IsConnected_def)
    moreover have "myState (mySocket ?m2) \<noteq> STATE_CONNECTING"
      using pp(3) con by (simp add: IsConnected_def)
    moreover have "myConnectPhase ?m2 \<noteq> PHASE_CONNECTING" using mv by (auto simp: input_moves_def)
    ultimately have "settled ?m2" by (simp add: settled_def)
    then show ?thesis using r pp(1) mv by simp
  qed
qed

lemma pump_deadline_ok:
  assumes "mgr_ok m" "settled m"
  shows "goes m (pump_deadline m) \<and> settled (pump_deadline m)
    \<and> (myConnectPhase (pump_deadline m) = myConnectPhase m \<or> myConnectPhase (pump_deadline m) = PHASE_FAILED)"
proof (cases "myConnectPhase m = PHASE_CONNECTING \<or> myConnectPhase m = PHASE_AWAIT_HANDSHAKE")
  case True
  obtain now m1 where t: "mgr_now m = (now, m1)" by fastforce
  note f = mgr_now_fields [OF t]
  have ok1: "mgr_ok m1" using mgr_now_ok [OF assms(1) t] .
  have q: "query_part m1 = query_part m" by (subst f(1)) (simp add: query_part_def)
  have s1: "settled m1" "myConnectPhase m1 = myConnectPhase m"
    by (subst f(1), simp add: assms(2), subst f(1), simp)
  have g1: "goes m m1" using ok1 q f by (simp add: goes_def clock_mono_def)
  show ?thesis
  proof (cases "TimeAfter now (myConnectDeadline m1)")
    case True
    let ?c = "sock_Close m1"
    have okc: "mgr_ok ?c" using ok1 by (rule sock_Close_ok)
    have nl: "\<not> live (mySocket ?c)" by (simp add: live_def sock_Close_fields(2))
    have gc: "goes m1 ?c"
      using okc sock_Close_pumped [of m1] by (simp add: goes_def clock_mono_def api_part_def query_part_def)
    have "pump_deadline m = connect_failed 0 ?c"
      using True \<open>myConnectPhase m = _ \<or> _\<close> t by (simp add: pump_deadline_def)
    then show ?thesis using connect_failed_ok [OF okc nl] g1 gc goes_trans by metis
  next
    case False
    then have "pump_deadline m = m1" using \<open>myConnectPhase m = _ \<or> _\<close> t by (simp add: pump_deadline_def)
    then show ?thesis using g1 s1 by simp
  qed
qed (simp add: pump_deadline_def assms goes_refl)

text \<open>The moves of the connection phase that one call can make, input included.\<close>

definition connect_moves :: "ConnectPhase \<Rightarrow> ConnectPhase \<Rightarrow> bool" where
  "connect_moves p q \<longleftrightarrow> q = p \<or> q = PHASE_FAILED \<or> q = PHASE_IDLE
     \<or> p = PHASE_CONNECTING \<and> (q = PHASE_AWAIT_HANDSHAKE \<or> q = PHASE_ONLINE)
     \<or> p = PHASE_AWAIT_HANDSHAKE \<and> q = PHASE_ONLINE"

lemma PumpConnectPhase_ok:
  assumes "mgr_ok m" "settled m"
  shows "goes m (PumpConnectPhase m) \<and> settled (PumpConnectPhase m)
    \<and> connect_moves (myConnectPhase m) (myConnectPhase (PumpConnectPhase m))"
proof -
  obtain go1 m1 where p1: "(if myConnectPhase m = PHASE_CONNECTING then pump_connecting m else (True, m)) = (go1, m1)"
    by fastforce
  have 1: "goes m m1 \<and> settled m1 \<and> (go1 \<and> (myConnectPhase m1 = myConnectPhase m
      \<or> myConnectPhase m = PHASE_CONNECTING \<and> myConnectPhase m1 = PHASE_AWAIT_HANDSHAKE)
      \<or> \<not> go1 \<and> myConnectPhase m1 = PHASE_FAILED)"
    using p1 pump_connecting_ok [OF assms] assms goes_refl by (auto split: if_splits)
  show ?thesis
  proof (cases go1)
    case False
    then have "PumpConnectPhase m = m1" using p1 by (simp add: PumpConnectPhase_def Let_def)
    then show ?thesis using 1 False by (simp add: connect_moves_def)
  next
    case True
    obtain go2 m2 where p2: "(if myConnectPhase m1 = PHASE_AWAIT_HANDSHAKE then pump_handshake m1 else (True, m1)) = (go2, m2)"
      by fastforce
    have ok1: "mgr_ok m1" using 1 goes_ok by blast
    have 2: "goes m1 m2 \<and> settled m2 \<and> (go2 \<or> myConnectPhase m2 = PHASE_FAILED)
        \<and> (myConnectPhase m2 = myConnectPhase m1
          \<or> myConnectPhase m1 = PHASE_AWAIT_HANDSHAKE \<and> input_moves PHASE_AWAIT_HANDSHAKE (myConnectPhase m2))"
      using p2 pump_handshake_ok [OF ok1] 1 ok1 goes_refl by (auto split: if_splits)
    have g2: "goes m m2" using 1 2 goes_trans by blast
    have mv: "connect_moves (myConnectPhase m) (myConnectPhase m2)"
      using 1 2 True by (auto simp: connect_moves_def input_moves_def)
    show ?thesis
    proof (cases go2)
      case False
      then have "PumpConnectPhase m = m2" using p1 p2 True by (simp add: PumpConnectPhase_def Let_def)
      then show ?thesis using 2 g2 mv by simp
    next
      case go2: True
      then have r: "PumpConnectPhase m = pump_deadline m2" using p1 p2 True by (simp add: PumpConnectPhase_def Let_def)
      have "goes m2 (pump_deadline m2) \<and> settled (pump_deadline m2)
          \<and> (myConnectPhase (pump_deadline m2) = myConnectPhase m2 \<or> myConnectPhase (pump_deadline m2) = PHASE_FAILED)"
        using pump_deadline_ok 2 goes_ok by blast
      then show ?thesis using g2 mv goes_trans r by (auto simp: connect_moves_def)
    qed
  qed
qed

lemma ConnectInBackground_ok:
  assumes "mgr_ok m" "settled m" "ConnectInBackground users m = (block, m')"
  shows "goes m m' \<and> settled m' \<and>
    (block \<longleftrightarrow> myConnectPhase m' = PHASE_CONNECTING \<or> myConnectPhase m' = PHASE_AWAIT_HANDSHAKE)"
proof (cases "Online m")
  case True
  then show ?thesis using assms goes_refl by (auto simp: ConnectInBackground_def Online_def)
next
  case False
  let ?m = "m\<lparr>myUsersForWWR := users\<rparr>"
  have "goes m ?m" using assms(1) by (simp add: goes_def clock_mono_def query_part_def)
  then show ?thesis
    using assms False StartConnecting_ok [of ?m] PumpConnectPhase_ok [of m] goes_trans [of m ?m "StartConnecting ?m"]
    by (auto simp: ConnectInBackground_def Let_def split: if_splits)
qed

lemma Connect_ok:
  "mgr_ok m \<Longrightarrow> settled m \<Longrightarrow> Connect fuel m = Some (b, m') \<Longrightarrow>
   goes m m' \<and> settled m' \<and> (b \<longleftrightarrow> Online m')
   \<and> myConnectPhase m' \<noteq> PHASE_CONNECTING \<and> myConnectPhase m' \<noteq> PHASE_AWAIT_HANDSHAKE"
proof (induction fuel arbitrary: m)
  case (Suc fuel)
  obtain block m1 where c: "ConnectInBackground [] m = (block, m1)" by fastforce
  note k = ConnectInBackground_ok [OF Suc.prems(1,2) c]
  show ?case
  proof (cases block)
    case True
    then have "Connect fuel m1 = Some (b, m')" using Suc.prems(3) c by simp
    from Suc.IH [OF _ _ this] k goes_trans goes_ok show ?thesis by blast
  next
    case False
    then show ?thesis using Suc.prems(3) c k by auto
  qed
qed simp

section \<open>Properties\<close>

text \<open>C31: Without an override, a list of servers is tried round robin: as many attempts as there are
  servers dial each of them once, in the order of the list, starting where the last round ended.\<close>

theorem servers_round_robin:
  assumes "ourOverrideHost m = []" "myServers m \<noteq> []"
    and "0 \<le> sint (myServerRotation m)" "sint (myServerRotation m) + int (length (myServers m)) \<le> INT_MAX"
  shows "map (\<lambda>i. myConnectedHost ((choose_server ^^ Suc i) m)) [0..<length (myServers m)]
    = rotate (nat (sint (myServerRotation m))) (map si_myHost (myServers m))"
proof -
  let ?n = "length (myServers m)" and ?r = "nat (sint (myServerRotation m))"
  have it: "ourOverrideHost ((choose_server ^^ i) m) = [] \<and> myServers ((choose_server ^^ i) m) = myServers m
      \<and> myServerRotation ((choose_server ^^ i) m) = myServerRotation m + of_nat i" for i
    by (induction i) (simp_all add: choose_server_def assms(1,2) Let_def)
  have host: "myConnectedHost ((choose_server ^^ Suc i) m) = si_myHost (myServers m ! ((?r + i) mod ?n))" if "i < ?n" for i
  proof -
    have "myServerRotation m + of_nat i = of_nat (?r + i)"
      using cint_of_sint [of "myServerRotation m" ?r] assms(3) by simp
    moreover have "unat (scast (of_nat (?r + i) :: cint) :: 64 word) = ?r + i"
    proof -
      have "int (?r + i) \<le> INT_MAX" using assms(3,4) that by simp
      from sint_of_nat_id [OF this] have "(scast (of_nat (?r + i) :: cint) :: 64 word) = of_nat (?r + i)"
        by (metis of_int_of_nat_eq scast_eq)
      then show ?thesis using assms(3,4) that by (simp add: unat_of_nat del: of_nat_add)
    qed
    ultimately show ?thesis using it [of i] assms(2) by (simp add: choose_server_def Let_def)
  qed
  show ?thesis
    by (rule nth_equalityI) (simp_all add: host nth_rotate assms(2) add.commute del: funpow.simps)
qed

theorem servers_round_robin_witness:
  "let m = example_online\<lparr>myServers := [SetServer ''a'' [] 1 1, SetServer ''b'' [] 1 2, SetServer ''c'' [] 1 3], myServerRotation := 2\<rparr> in
   map (\<lambda>i. myConnectedHost ((choose_server ^^ Suc i) m)) [0..<length (myServers m)] = [''c'', ''a'', ''b'']"
proof -
  let ?m = "example_online\<lparr>myServers := [SetServer ''a'' [] 1 1, SetServer ''b'' [] 1 2, SetServer ''c'' [] 1 3], myServerRotation := 2\<rparr>"
  have "map (\<lambda>i. myConnectedHost ((choose_server ^^ Suc i) ?m)) [0..<length (myServers ?m)]
      = rotate (nat (sint (myServerRotation ?m))) (map si_myHost (myServers ?m))"
    by (rule servers_round_robin) (simp_all add: example_defs)
  then show ?thesis unfolding Let_def by (simp add: SetServer_def rotate_def eval_nat_numeral)
qed

lemma StartConnecting_keeps:
  "myPresence (StartConnecting m) = myPresence m \<and> myTransactions (StartConnecting m) = myTransactions m"
proof -
  let ?c = "choose_server m"
  let ?m = "?c\<lparr>myCurrentAction := ''Connecting to '' @ myConnectedHost ?c\<rparr>"
  have c: "myPresence ?c = myPresence m" "myTransactions ?c = myTransactions m"
    by (simp_all add: choose_server_def Let_def)
  obtain ok m1 where op: "sock_op (BeginConnect (myConnectedHost ?m) (myConnectedPort ?m)) ?m = (ok, m1)" by fastforce
  then have m1: "myPresence m1 = myPresence m" "myTransactions m1 = myTransactions m"
    using c by (auto simp: sock_op_def split: prod.splits)
  obtain now m2 where t: "mgr_now (m1\<lparr>myConnectPhase := PHASE_CONNECTING\<rparr>) = (now, m2)" by fastforce
  then have m2: "myPresence m2 = myPresence m1" "myTransactions m2 = myTransactions m1"
    by (auto simp: mgr_now_def os_op_def split: prod.splits)
  show ?thesis using op t m1 m2 by (cases ok) (simp_all add: StartConnecting_def Let_def del: append.simps)
qed

text \<open>C32: When the connection broke during a write and the manager still thinks it is online, asking to
  connect dials again without ending the old session: users stay known to be online, and
  requests of the old connection stay open.\<close>

theorem stale_session_survives:
  assumes "myConnectPhase m = PHASE_ONLINE" "\<not> IsConnected (mySocket m)"
  shows "case ConnectInBackground users m of (block, m') \<Rightarrow>
    myConnectPhase m' \<in> {PHASE_CONNECTING, PHASE_FAILED} \<and> myTransactions m' = myTransactions m
    \<and> (\<forall>user. known_online m' user = known_online m user)"
proof -
  let ?m = "StartConnecting (m\<lparr>myUsersForWWR := users\<rparr>)"
  obtain block where c: "ConnectInBackground users m = (block, ?m)" using assms by (simp add: ConnectInBackground_def Online_def Let_def)
  have "myConnectPhase ?m \<in> {PHASE_CONNECTING, PHASE_FAILED}"
    by (auto simp: StartConnecting_def sock_op_def mgr_now_def os_op_def Let_def split: prod.splits)
  then show ?thesis
    using StartConnecting_keeps [of "m\<lparr>myUsersForWWR := users\<rparr>"] c by (simp add: known_online_def)
qed

theorem stale_session_survives_witness:
  "let m = example_online\<lparr>mySocket := NetNatsueSocket_new, myPresence := [''5+1'' \<mapsto> \<lparr>pr_online = True, pr_nickName = []\<rparr>]\<rparr> in
   known_online (snd (ConnectInBackground [] m)) ''5+1''"
proof -
  let ?m = "example_online\<lparr>mySocket := NetNatsueSocket_new, myPresence := [''5+1'' \<mapsto> \<lparr>pr_online = True, pr_nickName = []\<rparr>]\<rparr>"
  have "myConnectPhase ?m = PHASE_ONLINE" "\<not> IsConnected (mySocket ?m)" "known_online ?m ''5+1''"
    by (simp_all add: example_online_def NetNatsueSocket_new_def IsConnected_def known_online_def)
  then show ?thesis using stale_session_survives [of ?m "[]"] by (simp add: Let_def split: prod.splits)
qed

end
