(* ===== verification/NetQueries.thy ===== *)
theory NetQueries imports NetConnect
begin

text \<open>
  The calls the engine makes while online: the whose-wanted register, the queries that block
  or are polled, and messages.

  A polled call has a \<open>bool& block\<close> parameter, returned here as a result: while it is true the
  caller has to call again.  A call that waits takes fuel and is \<open>None\<close> when that ran out.
\<close>

section \<open>The register\<close>

definition IsUserOnline :: "nat \<Rightarrow> string \<Rightarrow> mgr \<Rightarrow> (bool \<times> mgr) option" where
  "IsUserOnline fuel user m =
     (let (valid, uin) = BabelUIN_FromString user in
      if \<not> valid then Some (False, m)
      else if \<not> Online m then Some (False, m)
      else if uin = myUserUIN m then Some (True, m)
      else (case myPresence m user of
        Some p \<Rightarrow> Some (pr_online p, m)
      | None \<Rightarrow>
        let m = m\<lparr>myCurrentAction := ''Checking whether '' @ user @ '' is online''\<rparr>;
            (ticket, m) = StartTransaction TRANS_CONNECTION_DETAIL 0 m;
            (ok, m) = sock_Write (BuildGetConnectionDetail (myServerUIN m) uin ticket) m
        in if \<not> ok then
             let m = AbandonTransaction ticket m
             in Some (False, m\<lparr>myCurrentAction := []\<rparr>)
           else (case WaitForTransaction fuel ticket USER_ONLINE_TIMEOUT_MS Transaction_new m of
               None \<Rightarrow> None
             | Some (completed, result, m) \<Rightarrow>
                 Some (completed \<and> t_success result, m\<lparr>myCurrentAction := []\<rparr>))))"

definition AddToWWR :: "string \<Rightarrow> mgr \<Rightarrow> bool \<times> mgr" where
  "AddToWWR user m =
     (let (valid, uin) = BabelUIN_FromString user in
      if \<not> valid then (False, m)
      else let m = m\<lparr>myWWRMembers := insert user (myWWRMembers m)\<rparr> in
        if \<not> Online m then (False, m)
        else if myPendingWWRAdds m user = None then
          let alreadyKnown = (myPresence m user \<noteq> None);
              (ok, m) = sock_Write (BuildWWRModify True (myServerUIN m) uin) m
          in if \<not> ok then (False, m)
             else if alreadyKnown then (False, m)
             else let (now, m) = mgr_now m
                  in (True, m\<lparr>myPendingWWRAdds := (myPendingWWRAdds m)(user \<mapsto> now + WWR_ADD_TIMEOUT_MS)\<rparr>)
        else let m = Pump m in
          (case myPendingWWRAdds m user of
             None \<Rightarrow> (False, m)
           | Some deadline \<Rightarrow>
               let (now, m) = mgr_now m in
               if TimeAfter now deadline
               then (False, m\<lparr>myPendingWWRAdds := (myPendingWWRAdds m)(user := None)\<rparr>)
               else (True, m)))"

definition RemoveFromWWR :: "string \<Rightarrow> mgr \<Rightarrow> mgr" where
  "RemoveFromWWR user m =
     (let m = m\<lparr>myWWRMembers := myWWRMembers m - {user},
               myPendingWWRAdds := (myPendingWWRAdds m)(user := None),
               myPresence := (myPresence m)(user := None)\<rparr>;
          (valid, uin) = BabelUIN_FromString user
      in if \<not> valid then m
         else if \<not> Online m then m
         else snd (sock_Write (BuildWWRModify False (myServerUIN m) uin) m))"

section \<open>Queries\<close>

text \<open>The nickname, whether to call again, the manager.\<close>

definition FetchUserData :: "string \<Rightarrow> mgr \<Rightarrow> string \<times> bool \<times> mgr" where
  "FetchUserData user m =
     (let (valid, uin) = BabelUIN_FromString user in
      if \<not> valid then ([], False, m)
      else if myPendingUserFetches m user = None then
        (if \<not> Online m then ([], False, m)
         else let m = m\<lparr>myCurrentAction := ''Fetching details of user '' @ user\<rparr>;
                  (ticket, m) = StartTransaction TRANS_CLIENT_INFO 0 m;
                  (now, m) = mgr_now m;
                  query = \<lparr>q_ticket = ticket, q_deadline = now + QUERY_TIMEOUT_MS\<rparr>;
                  (ok, m) = sock_Write (BuildGetClientInfo (myServerUIN m) uin (q_ticket query)) m
              in if \<not> ok then
                   let m = AbandonTransaction (q_ticket query) m
                   in ([], False, m\<lparr>myCurrentAction := []\<rparr>)
                 else ([], True, m\<lparr>myPendingUserFetches := (myPendingUserFetches m)(user \<mapsto> query)\<rparr>))
      else let m = Pump m in
        (case myPendingUserFetches m user of
           None \<Rightarrow> ([], False, set_fault OutOfBounds m)
         | Some query \<Rightarrow>
             let (completed, result, stillPending, m) = PollTransaction (q_ticket query) Transaction_new m in
             if completed then
               let m = m\<lparr>myPendingUserFetches := (myPendingUserFetches m)(user := None), myCurrentAction := []\<rparr> in
               if t_done result \<and> t_success result then
                 let nick = t_resultString result;
                     m = (case myPresence m user of
                            Some p \<Rightarrow> (if nick \<noteq> []
                              then m\<lparr>myPresence := (myPresence m)(user \<mapsto> p\<lparr>pr_nickName := nick\<rparr>)\<rparr> else m)
                          | None \<Rightarrow> m)
                 in (nick, False, m)
               else ([], False, m)
             else let (now, m) = mgr_now m in
               if TimeAfter now (q_deadline query) then
                 let m = AbandonTransaction (q_ticket query) m
                 in ([], False, m\<lparr>myPendingUserFetches := (myPendingUserFetches m)(user := None), myCurrentAction := []\<rparr>)
               else ([], True, m)))"

definition DSFetchRandomUser :: "mgr \<Rightarrow> string \<times> bool \<times> mgr" where
  "DSFetchRandomUser m =
     (if q_ticket (myRandomUserQuery m) = 0 then
        (if \<not> Online m then ([], False, m)
         else let m = m\<lparr>myCurrentAction := ''Fetching a random online user''\<rparr>;
                  (ticket, m) = StartTransaction TRANS_RANDOM_USER 0 m;
                  m = m\<lparr>myRandomUserQuery := (myRandomUserQuery m)\<lparr>q_ticket := ticket\<rparr>\<rparr>;
                  (now, m) = mgr_now m;
                  m = m\<lparr>myRandomUserQuery := (myRandomUserQuery m)\<lparr>q_deadline := now + QUERY_TIMEOUT_MS\<rparr>\<rparr>;
                  (ok, m) = sock_Write (BuildFetchRandomUser (myServerUIN m) (myUserUIN m)
                                          (q_ticket (myRandomUserQuery m))) m
              in if \<not> ok then
                   let m = AbandonTransaction (q_ticket (myRandomUserQuery m)) m
                   in ([], False, m\<lparr>myRandomUserQuery := PendingQuery_new, myCurrentAction := []\<rparr>)
                 else ([], True, m))
      else let m = Pump m;
               (completed, result, stillPending, m) =
                 PollTransaction (q_ticket (myRandomUserQuery m)) Transaction_new m
           in if completed then
                let m = m\<lparr>myRandomUserQuery := PendingQuery_new, myCurrentAction := []\<rparr> in
                if t_done result \<and> t_success result then (BabelUIN_ToString (t_resultUIN result), False, m)
                else ([], False, m)
              else let (now, m) = mgr_now m in
                if TimeAfter now (q_deadline (myRandomUserQuery m)) then
                  let m = AbandonTransaction (q_ticket (myRandomUserQuery m)) m
                  in ([], False, m\<lparr>myRandomUserQuery := PendingQuery_new, myCurrentAction := []\<rparr>)
                else ([], True, m))"

fun DSFetchRandomUser_blocking :: "nat \<Rightarrow> mgr \<Rightarrow> (string \<times> mgr) option" where
  "DSFetchRandomUser_blocking 0 m = None"
| "DSFetchRandomUser_blocking (Suc fuel) m = (case DSFetchRandomUser m of
     (user, block, m) \<Rightarrow> if \<not> block then Some (user, m) else DSFetchRandomUser_blocking fuel m)"

text \<open>
  The four reference parameters in the order of the call: time online, users online, bytes
  received, bytes sent.  A path that does not assign them hands back what it was given.
\<close>

type_synonym status = "cint \<times> cint \<times> cint \<times> cint"

definition GetStatus :: "status \<Rightarrow> mgr \<Rightarrow> status \<times> bool \<times> mgr" where
  "GetStatus out m =
     (if \<not> Online m then
        ((- 1, - 1, - 1, - 1), False,
         if q_ticket (myStatusQuery m) \<noteq> 0
         then (AbandonTransaction (q_ticket (myStatusQuery m)) m)\<lparr>myStatusQuery := PendingQuery_new\<rparr> else m)
      else if q_ticket (myStatusQuery m) = 0 then
        let m = m\<lparr>myCurrentAction := ''Fetching connection statistics''\<rparr>;
            (ticket, m) = StartTransaction TRANS_STATUS 16 m;
            m = m\<lparr>myStatusQuery := (myStatusQuery m)\<lparr>q_ticket := ticket\<rparr>\<rparr>;
            (now, m) = mgr_now m;
            m = m\<lparr>myStatusQuery := (myStatusQuery m)\<lparr>q_deadline := now + QUERY_TIMEOUT_MS\<rparr>\<rparr>;
            (ok, m) = sock_Write (BuildGetStatus (myServerUIN m) (q_ticket (myStatusQuery m))) m
        in if \<not> ok then
             let m = AbandonTransaction (q_ticket (myStatusQuery m)) m
             in (out, False, m\<lparr>myStatusQuery := PendingQuery_new, myCurrentAction := []\<rparr>)
           else (out, True, m)
      else
        let m = Pump m;
            (completed, result, stillPending, m) = PollTransaction (q_ticket (myStatusQuery m)) Transaction_new m
        in if completed then
             let m = m\<lparr>myStatusQuery := PendingQuery_new, myCurrentAction := []\<rparr>;
                 (now, m) = mgr_now m
             in ((now - myConnectedAtMs m,
                  (if t_done result \<and> t_success result then t_resultInts result ! 1 else 0),
                  myBytesReceived (mySocket m), myBytesSent (mySocket m)), False, m)
           else let (now, m) = mgr_now m in
             if TimeAfter now (q_deadline (myStatusQuery m)) then
               let m = AbandonTransaction (q_ticket (myStatusQuery m)) m;
                   m = m\<lparr>myStatusQuery := PendingQuery_new, myCurrentAction := []\<rparr>;
                   (now, m) = mgr_now m
               in ((now - myConnectedAtMs m, 0, myBytesReceived (mySocket m), myBytesSent (mySocket m)), False, m)
             else (out, True, m))"

section \<open>Messages\<close>

text \<open>\<open>data\<close> is the block the caller points at; a size beyond it would read out of bounds.\<close>

definition PostDirectMessage :: "string \<Rightarrow> byte list \<Rightarrow> cint \<Rightarrow> mgr \<Rightarrow> bool \<times> mgr" where
  "PostDirectMessage user data sz m =
     (let (valid, target) = BabelUIN_FromString user in
      if \<not> valid then (False, m)
      else if \<not> Online m \<or> sint sz < 0 then (False, m)
      else (case read_cint_bytes data 0 sz of
          None \<Rightarrow> (False, set_fault OutOfBounds m)
        | Some payload \<Rightarrow>
            let packet = BuildMessage (myServerUIN m) (myUserUIN m) target payload;
                (ok, m) = sock_Write packet m
            in if \<not> ok then (False, ConnectionLost m) else (True, m)))"

definition GetMessages :: "mgr \<Rightarrow> string list \<times> cint list \<times> byte list list \<times> mgr" where
  "GetMessages m =
     (let m = Pump m; ms = myIncomingMessages m
      in (map im_user ms, map im_type ms, map im_payload ms, m\<lparr>myIncomingMessages := []\<rparr>))"

definition DSFeedHistory :: "nat \<Rightarrow> byte list option \<Rightarrow> cint \<Rightarrow> mgr \<Rightarrow> (bool \<times> mgr) option" where
  "DSFeedHistory fuel data sz m =
     (if \<not> Online m \<or> data = None \<or> sint sz \<le> 0 then Some (False, m)
      else let m = m\<lparr>myCurrentAction := ''Uploading creature history''\<rparr>;
               (ticket, m) = StartTransaction TRANS_FEED_HISTORY 0 m
        in (case read_cint_bytes (the data) 0 sz of
              None \<Rightarrow> Some (False, set_fault OutOfBounds m)
            | Some blob \<Rightarrow>
                let (ok, m) = sock_Write (BuildFeedHistory (myServerUIN m) (myUserUIN m) ticket blob) m
                in if \<not> ok then
                     let m = AbandonTransaction ticket m;
                         m = m\<lparr>myCurrentAction := []\<rparr>
                     in Some (False, ConnectionLost m)
                   else (case WaitForTransaction fuel ticket HISTORY_TIMEOUT_MS Transaction_new m of
                       None \<Rightarrow> None
                     | Some (completed, result, m) \<Rightarrow>
                         Some (completed \<and> t_success result, m\<lparr>myCurrentAction := []\<rparr>))))"

section \<open>Properties\<close>

text \<open>A user added to the register while the manager is offline or still connecting becomes a
  member, but nothing is sent, and the list the next login registers does not get it.\<close>

lemma added_offline_not_registered:
  assumes "\<not> Online m" "BabelUIN_FromString user = (True, u)"
  shows "AddToWWR user m = (False, m\<lparr>myWWRMembers := insert user (myWWRMembers m)\<rparr>)
    \<and> registration_packets server (myUsersForWWR (snd (AddToWWR user m))) = registration_packets server (myUsersForWWR m)"
  using assms by (simp add: AddToWWR_def Online_def)

text \<open>A user taken off the register whose change was still queued is reported to the game all the
  same, and as offline whatever it was.\<close>

lemma removed_user_still_reported:
  assumes "myChangedUsers m = user # users"
  shows "fst (NextChangedUserWWR (RemoveFromWWR user m)) = Some (user, False) \<and> user \<notin> myWWRMembers (RemoveFromWWR user m)"
proof -
  let ?m = "m\<lparr>myWWRMembers := myWWRMembers m - {user}, myPendingWWRAdds := (myPendingWWRAdds m)(user := None),
    myPresence := (myPresence m)(user := None)\<rparr>"
  obtain s w where "RemoveFromWWR user m = ?m\<lparr>mySocket := s, myOs := w\<rparr>"
  proof -
    obtain valid u where fs: "BabelUIN_FromString user = (valid, u)" by fastforce
    obtain ok m' where wr: "sock_Write (BuildWWRModify False (myServerUIN ?m) u) ?m = (ok, m')" by fastforce
    then obtain s w where "m' = ?m\<lparr>mySocket := s, myOs := w\<rparr>" by (auto simp: sock_Write_eq)
    moreover have "?m = ?m\<lparr>mySocket := mySocket m, myOs := myOs m\<rparr>" by simp
    moreover have "RemoveFromWWR user m = (if valid \<and> Online ?m then m' else ?m)"
      using wr by (simp add: RemoveFromWWR_def fs Let_def)
    ultimately show thesis using that by (cases "valid \<and> Online ?m") metis+
  qed
  then show ?thesis using assms by (simp add: NextChangedUserWWR_def Let_def)
qed

text \<open>Whether a user is online is answered from what is known, without a word to the server, when
  the name is malformed, the manager is offline, the user is ourselves, or the register knows.\<close>

lemma online_answered_locally:
  assumes "\<not> fst (BabelUIN_FromString user) \<or> \<not> Online m \<or> snd (BabelUIN_FromString user) = myUserUIN m
    \<or> myPresence m user \<noteq> None"
  shows "IsUserOnline fuel user m = Some (fst (BabelUIN_FromString user) \<and> Online m
    \<and> (snd (BabelUIN_FromString user) = myUserUIN m \<or> known_online m user), m)"
  using assms by (auto simp: IsUserOnline_def known_online_def split: prod.split option.split)

end
