(* ===== verification/NetSpool.thy ===== *)
theory NetSpool imports NetQueries
begin

text \<open>
  The warp file spools and the per-tick pump: outbox names, sending an outbox file, scanning
  the outbox, the asynchronous queue.

  What a queued message does when it is sent is the engine's code, the parameter \<open>qsend\<close>.
\<close>

definition ReturnUniqueOutboxFilename :: "string \<Rightarrow> mgr \<Rightarrow> string \<times> mgr" where
  "ReturnUniqueOutboxFilename userID m =
     (let (valid, target) = BabelUIN_FromString userID in
      if \<not> valid then ([], m)
      else if myOutboxDirectory m = [] then ([], m)
      else let (serial, m) = os_op os_time m in
        (case unique_path (Suc (length (osFiles (myOs m)))) (myOutboxDirectory m) target serial (myOs m) of
           None \<Rightarrow> ([], set_fault NoFreeName m)
         | Some (path, w) \<Rightarrow> (path, m\<lparr>myOs := w, myOutboxDirty := True\<rparr>)))"

definition FindUserWhoSentFile :: "string \<Rightarrow> string" where
  "FindUserWhoSentFile file = UserFromSpoolName (BaseName file)"

text \<open>The C2E header in front of a warp file's contents.\<close>

definition pray_payload :: "byte list \<Rightarrow> byte list" where
  "pray_payload contents = PutInt (PutInt (PutInt [] 12) MESG_PRAY_FILE) 0 @ contents"

definition SendOutboxFile :: "string \<Rightarrow> mgr \<Rightarrow> bool \<times> mgr" where
  "SendOutboxFile path m =
     (let target = UserFromSpoolName (BaseName path) in
      if target = [] then
        let badPath = path @ ''.bad'';
            m = m\<lparr>myOs := os_remove badPath (myOs m)\<rparr>;
            (renamed, m) = os_op (os_rename path badPath) m
        in (True, m)
      else (case ReadWholeFile path [] (myOs m) of (ok, contents, w) \<Rightarrow>
        let m = m\<lparr>myOs := w\<rparr> in
        if \<not> ok then (True, m)
        else let payload = pray_payload contents;
                 (posted, m) = PostDirectMessage target payload (of_nat (length payload)) m
             in if \<not> posted then (False, m)
                else (True, m\<lparr>myOs := os_remove path (myOs m)\<rparr>)))"

fun SendOutboxFiles :: "string list \<Rightarrow> mgr \<Rightarrow> mgr" where
  "SendOutboxFiles [] m = m"
| "SendOutboxFiles (name # names) m =
     (if \<not> Online m then m
      else case SendOutboxFile (myOutboxDirectory m @ name) m of
        (ok, m) \<Rightarrow> if \<not> ok then m else SendOutboxFiles names m)"

definition ScanOutbox :: "mgr \<Rightarrow> mgr" where
  "ScanOutbox m =
     (if myOutboxDirectory m = [] then m
      else let (now, m) = mgr_now m in
        if \<not> myOutboxDirty m \<and> \<not> TimeAfter now (myNextOutboxScan m) then m
        else let m = m\<lparr>myOutboxDirty := False, myNextOutboxScan := now + OUTBOX_RESCAN_MS\<rparr>;
                 (names, m) = os_op (ListFilesWithExtension (myOutboxDirectory m) ''.warp'') m
             in SendOutboxFiles names m)"

definition ProcessQueuedMessages :: "(qmsg \<Rightarrow> mgr \<Rightarrow> mgr) \<Rightarrow> mgr \<Rightarrow> mgr" where
  "ProcessQueuedMessages qsend m = (case myQueuedMessages m of
     [] \<Rightarrow> m
   | message # messages \<Rightarrow>
       let m = m\<lparr>myQueuedMessages := messages\<rparr>;
           m = qsend message m
       in m\<lparr>myDeleted := myDeleted m @ [message]\<rparr>)"

definition SendOrdinaryMessages :: "(qmsg \<Rightarrow> mgr \<Rightarrow> mgr) \<Rightarrow> mgr \<Rightarrow> mgr" where
  "SendOrdinaryMessages qsend m =
     (let m = Pump m;
          m = ProcessQueuedMessages qsend m
      in if Online m then ScanOutbox m else m)"

section \<open>What is posted\<close>

lemma posted_payload:
  assumes "PostDirectMessage user data (of_nat (length data)) m = (ok, m')" "BabelUIN_FromString user = (True, u)"
    and "int (length data) \<le> INT_MAX"
  shows "if ok then written (mySocket m') (myOs m') = written (mySocket m) (myOs m)
        @ BuildMessage (myServerUIN m) (myUserUIN m) u data
      else m' = m \<or> session_over m'"
    and "osFiles (myOs m') = osFiles (myOs m)"
proof -
  obtain ok1 m1 where w: "sock_Write (BuildMessage (myServerUIN m) (myUserUIN m) u data) m = (ok1, m1)" by fastforce
  have rd: "read_cint_bytes data 0 (of_nat (length data)) = Some data" "0 \<le> sint (of_nat (length data) :: cint)"
    using assms(3) by (simp_all add: read_cint_bytes_def read_bytes_def sint_of_nat_id)
  have run: "(ok, m') = (if \<not> Online m then (False, m) else if ok1 then (True, m1) else (False, ConnectionLost m1))"
    using assms(1,2) rd w by (simp add: PostDirectMessage_def Let_def split: if_splits)
  have f: "osFiles (myOs m1) = osFiles (myOs m)"
    using w by (auto simp: sock_Write_eq os_rest_def dest!: Write_spec)
  have c: "osFiles (myOs (ConnectionLost n)) = osFiles (myOs n)" for n
  proof -
    let ?n = "n\<lparr>myLastError := ERROR_OFFLINE, myRawError := - myLastSystemError (mySocket n)\<rparr>"
    have "osFiles (myOs (sock_Close ?n)) = osFiles (myOs ?n)"
      using sock_Close_eq [of ?n] by (auto simp: os_rest_def dest!: Close_fields)
    then show ?thesis by (simp add: ConnectionLost_def MarkEveryoneOffline_def Let_def)
  qed
  show "if ok then written (mySocket m') (myOs m') = written (mySocket m) (myOs m)
        @ BuildMessage (myServerUIN m) (myUserUIN m) u data
      else m' = m \<or> session_over m'"
    using run ConnectionLost_session_over mgr_transport.write_True [of _ m m1] w by (auto split: if_splits)
  show "osFiles (myOs m') = osFiles (myOs m)" using run f c by (auto split: if_splits)
qed

lemma SendOutboxFile_sent:
  assumes "SendOutboxFile path m = (ok, m')"
    and "BabelUIN_FromString (UserFromSpoolName (BaseName path)) = (True, u)"
    and "ReadWholeFile path [] (myOs m) = (True, contents, w)" "int (length contents) + 12 \<le> INT_MAX"
  shows "if ok then written (mySocket m') (myOs m') = written (mySocket m) (myOs m)
        @ BuildMessage (myServerUIN m) (myUserUIN m) u (pray_payload contents)
      \<and> {q. os_file (myOs m') q \<noteq> os_file (myOs m) q} \<subseteq> {path}
    else osFiles (myOs m') = osFiles (myOs m)"
proof -
  let ?t = "UserFromSpoolName (BaseName path)" and ?p = "pray_payload contents"
  have t: "?t \<noteq> []" using assms(2) by (auto simp: FromString_no_plus)
  obtain b m1 where po: "PostDirectMessage ?t ?p (of_nat (length ?p)) (m\<lparr>myOs := w\<rparr>) = (b, m1)" by fastforce
  have lp: "int (length ?p) \<le> INT_MAX" using assms(4) by (simp add: pray_payload_def PutInt_def)
  note pp = posted_payload [OF po assms(2) lp]
  have w: "osFiles w = osFiles (myOs m)" "osWire w = osWire (myOs m)"
    using assms(3) file_net(2) [OF assms(3)]
    by (auto simp: ReadWholeFile_def os_fopen_rb_def os_net_def split: option.splits prod.splits io_answer.splits)
  have run: "(ok, m') = (if b then (True, m1\<lparr>myOs := os_remove path (myOs m1)\<rparr>) else (False, m1))"
    using assms(1,3) t po by (simp add: SendOutboxFile_def Let_def split: if_splits)
  show ?thesis
  proof (cases b)
    case True
    then have r: "ok" "m' = m1\<lparr>myOs := os_remove path (myOs m1)\<rparr>" using run by simp_all
    have "osWire (os_remove path (myOs m1)) = osWire (myOs m1)" using os_net_calls(5) [of path "myOs m1"] by (simp add: os_net_def)
    moreover have "q = path" if "os_file (os_remove path (myOs m1)) q \<noteq> os_file (myOs m) q" for q
      using that os_file_remove_other [of q path "myOs m1"] pp(2) w(1) by (auto simp: os_file_def)
    ultimately show ?thesis using r pp(1) True w(2) by (auto simp: written_def)
  next
    case False
    then show ?thesis using run pp(2) w(1) by simp
  qed
qed

text \<open>Losing the connection drops what is still buffered, and the disk stays as it is.\<close>

lemma ConnectionLost_drops:
  "osWire (myOs (ConnectionLost m)) = osWire (myOs m)" "myOutput (mySocket (ConnectionLost m)) = []"
  "osFiles (myOs (ConnectionLost m)) = osFiles (myOs m)"
proof -
  let ?n = "m\<lparr>myLastError := ERROR_OFFLINE, myRawError := - myLastSystemError (mySocket m)\<rparr>"
  have "osWire (myOs (sock_Close ?n)) = osWire (myOs m)" "myOutput (mySocket (sock_Close ?n)) = []"
    "osFiles (myOs (sock_Close ?n)) = osFiles (myOs m)"
    using sock_Close_eq [of ?n] by (auto simp: os_rest_def dest!: Close_fields)
  then show "osWire (myOs (ConnectionLost m)) = osWire (myOs m)" "myOutput (mySocket (ConnectionLost m)) = []"
    "osFiles (myOs (ConnectionLost m)) = osFiles (myOs m)"
    by (simp_all add: ConnectionLost_def MarkEveryoneOffline_def Let_def)
qed

section \<open>Properties\<close>

text \<open>The name of a file for \<open>5+1\<close>.\<close>

lemma example_outbox:
  "UserFromSpoolName (BaseName ''out/7T-5+1.warp'') = ''5+1''"
proof -
  have "''out/7T-5+1.warp'' = EnsureTrailingSeparator ''out/'' @ spool_name 7 \<lparr>uid = 5, hid = 1\<rparr>" by code_simp
  then show ?thesis
    using BaseName_append [OF EnsureTrailingSeparator_last spool_name_no_separator, of "''out/''" 7 "\<lparr>uid = 5, hid = 1\<rparr>"]
      UserFromSpoolName_spool [of "\<lparr>uid = 5, hid = 1\<rparr>" 7] ToString_example by simp
qed

text \<open>C23: When the outbox reports a file as sent, the packet with its contents, addressed to the user
  its name says, is in the output stream and no other file has changed; when it does not, no
  file has changed at all, so the file goes out another time.  Sent may mean buffered: when the
  connection is then lost, what the kernel has not taken is gone, and so is the removed file.\<close>

theorem outbox_file_sent:
  assumes "SendOutboxFile path m = (ok, m')"
    and "BabelUIN_FromString (UserFromSpoolName (BaseName path)) = (True, u)"
    and "ReadWholeFile path [] (myOs m) = (True, contents, w)" "int (length contents) + 12 \<le> INT_MAX"
  shows "if ok then written (mySocket m') (myOs m') = written (mySocket m) (myOs m)
        @ BuildMessage (myServerUIN m) (myUserUIN m) u (pray_payload contents)
      \<and> {q. os_file (myOs m') q \<noteq> os_file (myOs m) q} \<subseteq> {path}
      \<and> osWire (myOs (ConnectionLost m')) @ myOutput (mySocket m') = written (mySocket m') (myOs m')
      \<and> myOutput (mySocket (ConnectionLost m')) = []
      \<and> osFiles (myOs (ConnectionLost m')) = osFiles (myOs m')
    else osFiles (myOs m') = osFiles (myOs m)"
  using SendOutboxFile_sent [OF assms] by (auto simp: ConnectionLost_drops written_def split: if_splits)

theorem outbox_file_sent_witness:
  "let m = example_online\<lparr>myOs := example_system\<lparr>osFiles := [(''out/7T-5+1.warp'', ''PRAY'')]\<rparr>\<rparr>;
       (ok, m') = SendOutboxFile ''out/7T-5+1.warp'' m in
   if ok then written (mySocket m') (myOs m')
        = BuildMessage \<lparr>uid = 9, hid = 1\<rparr> \<lparr>uid = 7, hid = 1\<rparr> \<lparr>uid = 5, hid = 1\<rparr> (pray_payload ''PRAY'')
    else osFiles (myOs m') = [(''out/7T-5+1.warp'', ''PRAY'')]"
proof -
  let ?m = "example_online\<lparr>myOs := example_system\<lparr>osFiles := [(''out/7T-5+1.warp'', ''PRAY'')]\<rparr>\<rparr>"
  obtain ok m' where s: "SendOutboxFile ''out/7T-5+1.warp'' ?m = (ok, m')" by fastforce
  have f: "BabelUIN_FromString (UserFromSpoolName (BaseName ''out/7T-5+1.warp'')) = (True, \<lparr>uid = 5, hid = 1\<rparr>)"
    by (simp add: example_outbox FromString_example)
  have r: "ReadWholeFile ''out/7T-5+1.warp'' [] (myOs ?m) = (True, ''PRAY'', myOs ?m)"
    by (simp add: ReadWholeFile_def os_fopen_rb_def os_file_def os_io_def example_system_def)
  have "written (mySocket ?m) (myOs ?m) = []" by (simp add: written_def example_defs)
  then show ?thesis
    using outbox_file_sent [OF s f r] unfolding Let_def s by (simp add: example_online_def example_system_def DSNetManager_new_def)
qed

end
