(* ===== verification/NetWaiting.thy ===== *)
theory NetWaiting imports NetConnect
begin

text \<open>
  What \<open>Pump\<close> and the two loops that wait keep of the invariant, and that the loops end: with the
  clock past the deadline from some reading on, enough fuel gives a result.
\<close>

section \<open>Pumping and waiting\<close>

lemma ConnectionLost_goes: "mgr_ok m \<Longrightarrow> goes m (ConnectionLost m)"
  using ConnectionLost_ok ConnectionLost_pumped goes_pumped by blast

lemma Pump_ok:
  assumes "mgr_ok m" "settled m"
  shows "goes m (Pump m) \<and> settled (Pump m) \<and> connect_moves (myConnectPhase m) (myConnectPhase (Pump m))"
proof -
  consider (waiting) "myConnectPhase m = PHASE_CONNECTING \<or> myConnectPhase m = PHASE_AWAIT_HANDSHAKE"
    | (online) "myConnectPhase m = PHASE_ONLINE"
    | (off) "myConnectPhase m = PHASE_IDLE \<or> myConnectPhase m = PHASE_FAILED"
    by (cases "myConnectPhase m") auto
  then show ?thesis
  proof cases
    case waiting
    then show ?thesis using PumpConnectPhase_ok [OF assms] by (simp add: Pump_def)
  next
    case off
    then have "Pump m = m" by (auto simp: Pump_def)
    then show ?thesis using assms goes_refl by (simp add: connect_moves_def)
  next
    case online
    obtain alive m1 where op: "sock_op SocketPump m = (alive, m1)" by fastforce
    note pp = pump_and_process [OF assms(1) op]
    have r: "Pump m = (if \<not> alive \<and> myConnectPhase (ProcessInput m1) = PHASE_ONLINE
        then ConnectionLost (ProcessInput m1) else ProcessInput m1)"
      using online op by (simp add: Pump_def Let_def)
    show ?thesis
    proof (cases "\<not> alive \<and> myConnectPhase (ProcessInput m1) = PHASE_ONLINE")
      case True
      have "settled (ConnectionLost (ProcessInput m1))" "myConnectPhase (ConnectionLost (ProcessInput m1)) = PHASE_IDLE"
        using ConnectionLost_session_over settled_over by (blast, simp add: session_over_def)
      then show ?thesis
        using True r pp(1) ConnectionLost_goes [OF goes_ok [OF pp(1)]] goes_trans by (simp add: connect_moves_def)
    next
      case False
      have "myState (mySocket m) \<noteq> STATE_CONNECTING" using assms(2) online by (simp add: settled_def)
      then have "settled (ProcessInput m1)"
        using pp(2,3) online by (auto simp: settled_def input_moves_def)
      then show ?thesis using False r pp(1,2) online by (auto simp: connect_moves_def input_moves_def)
    qed
  qed
qed

lemma table_goes:
  assumes "mgr_ok m'" "m' = m\<lparr>myTransactions := T\<rparr>"
  shows "goes m m'" "settled m' = settled m" "myConnectPhase m' = myConnectPhase m" "Online m' = Online m"
  using assms(1) unfolding assms(2) by (simp_all add: goes_def clock_mono_def query_part_def Online_def)

lemma PollTransaction_goes:
  "mgr_ok m \<Longrightarrow> PollTransaction k r m = (b, r', p, m') \<Longrightarrow>
   goes m m' \<and> settled m' = settled m \<and> Online m' = Online m \<and> mySocket m' = mySocket m \<and> myOs m' = myOs m"
proof -
  assume ok: "mgr_ok m" and run: "PollTransaction k r m = (b, r', p, m')"
  note e = PollTransaction_frame [OF run]
  have "mySocket m' = mySocket m" "myOs m' = myOs m" by (subst e, simp)+
  then show ?thesis using table_goes [OF PollTransaction_ok [OF ok run] e] by simp
qed

lemma AbandonTransaction_goes:
  "mgr_ok m \<Longrightarrow> goes m (AbandonTransaction k m) \<and> settled (AbandonTransaction k m) = settled m
     \<and> Online (AbandonTransaction k m) = Online m"
  using table_goes [OF AbandonTransaction_ok AbandonTransaction_frame] by blast

lemma mgr_now_goes:
  assumes "mgr_ok m" "mgr_now m = (now, m')"
  shows "goes m m'" "settled m' = settled m" "Online m' = Online m" "myTransactions m' = myTransactions m"
proof -
  note f = mgr_now_fields [OF assms(2)]
  have "query_part m' = query_part m" by (subst f(1)) (simp add: query_part_def)
  then show "goes m m'" using mgr_now_ok [OF assms] f by (simp add: goes_def clock_mono_def)
  show "settled m' = settled m" "Online m' = Online m" "myTransactions m' = myTransactions m"
    by (subst f(1), simp add: Online_def)+
qed

lemma os_wait_goes:
  assumes "mgr_ok m" "os_op (WaitReadable s) m = (b, m')"
  shows "goes m m'" "settled m' = settled m" "Online m' = Online m"
proof -
  obtain w where w: "WaitReadable s (myOs m) = (b, w)" and m': "m' = m\<lparr>myOs := w\<rparr>"
    using assms(2) by (auto simp: os_op_def split: prod.splits)
  have f: "osFds w = osFds (myOs m)" "osClock w = osClock (myOs m)" "osClockReads w = osClockReads (myOs m)"
    using w by (auto simp: WaitReadable_def os_wait_def split: if_splits list.splits)
  show "goes m m'" using mgr_ok_os [OF assms(1) f(1)] f by (simp add: m' goes_def clock_mono_def query_part_def)
  show "settled m' = settled m" "Online m' = Online m" by (simp_all add: m' Online_def)
qed

text \<open>
  Waiting keeps the invariant.  When it reports success the transaction was answered; otherwise
  the session is down or the deadline has passed.
\<close>

lemma Wait_loop_ok:
  "mgr_ok m \<Longrightarrow> settled m \<Longrightarrow> Wait_loop fuel k deadline r m = Some (b, r', m') \<Longrightarrow>
   goes m m' \<and> settled m' \<and> (b \<longrightarrow> t_done r')"
proof (induction fuel arbitrary: m)
  case (Suc fuel)
  have pu: "goes m (Pump m)" "settled (Pump m)" using Pump_ok [OF Suc.prems(1,2)] by auto
  obtain c r1 p m2 where po: "PollTransaction k r (Pump m) = (c, r1, p, m2)" by (metis prod_cases4)
  note pg = PollTransaction_goes [OF goes_ok [OF pu(1)] po]
  have g2: "goes m m2" "settled m2" using pu pg goes_trans by blast+
  obtain now m3 where t: "mgr_now m2 = (now, m3)" by fastforce
  note ng = mgr_now_goes [OF goes_ok [OF g2(1)] t]
  have g3: "goes m m3" "settled m3" using g2 ng goes_trans by blast+
  obtain x m4 where wt: "os_op (WaitReadable (mySocket m3)) m3 = (x, m4)" by fastforce
  note wg = os_wait_goes [OF goes_ok [OF g3(1)] wt]
  have g4: "goes m m4" "settled m4" using g3 wg goes_trans by blast+
  have run: "Wait_loop (Suc fuel) k deadline r m = (if c then Some (t_done r1, r1, m2)
      else if \<not> Online m2 then Some (False, r1, m2)
      else if TimeAfter now deadline then Some (False, r1, AbandonTransaction k m3)
      else Wait_loop fuel k deadline r1 m4)"
    using po t wt by (simp add: Let_def)
  have r1: "r1 = r" if "\<not> c" using that po by (auto simp: PollTransaction_def split: option.splits if_splits)
  consider (a) "c" | (b) "\<not> c" "\<not> Online m2" | (c) "\<not> c" "Online m2" "TimeAfter now deadline"
    | (d) "\<not> c" "Online m2" "\<not> TimeAfter now deadline" by blast
  then show ?case
  proof cases
    case a
    then have "b = t_done r1" "r' = r1" "m' = m2" using run Suc.prems(3) by auto
    then show ?thesis using g2 by simp
  next
    case b
    then have "\<not> b" "m' = m2" using run Suc.prems(3) by auto
    then show ?thesis using g2 by simp
  next
    case c
    then have "\<not> b" "m' = AbandonTransaction k m3" using run Suc.prems(3) by auto
    then show ?thesis using AbandonTransaction_goes [OF goes_ok [OF g3(1)]] g3 goes_trans by blast
  next
    case d
    then have "Wait_loop fuel k deadline r m4 = Some (b, r', m')" using run Suc.prems(3) r1 by simp
    from Suc.IH [OF goes_ok [OF g4(1)] g4(2) this] g4 goes_trans show ?thesis by blast
  qed
qed simp

text \<open>
  Once the clock shows the deadline passed, in every read from number \<open>k\<close> on, waiting is over
  within \<open>k + 1\<close> passes: each pass reads the clock.
\<close>

lemma Wait_loop_ends:
  "mgr_ok m \<Longrightarrow> settled m \<Longrightarrow>
   \<forall>i \<ge> osClockReads (myOs m) + n. TimeAfter (osClock (myOs m) i) deadline \<Longrightarrow>
   \<exists>x. Wait_loop (Suc n) k deadline r m = Some x"
proof (induction n arbitrary: m r)
  case (0 m)
  have pu: "goes m (Pump m)" using Pump_ok [OF 0(1,2)] by auto
  obtain c r1 p m2 where po: "PollTransaction k r (Pump m) = (c, r1, p, m2)" by (metis prod_cases4)
  note pg = PollTransaction_goes [OF goes_ok [OF pu] po]
  obtain now m3 where t: "mgr_now m2 = (now, m3)" by fastforce
  have "now = osClock (myOs m) (osClockReads (myOs m2))" "osClockReads (myOs m) \<le> osClockReads (myOs m2)"
    using mgr_now_fields(5) [OF t] pu pg by (auto simp: goes_def clock_mono_def)
  then have "TimeAfter now deadline" using 0(3) by simp
  then show ?case using po t by (auto simp: Let_def)
next
  case (Suc n m)
  have pu: "goes m (Pump m)" "settled (Pump m)" using Pump_ok [OF Suc.prems(1,2)] by auto
  obtain c r1 p m2 where po: "PollTransaction k r (Pump m) = (c, r1, p, m2)" by (metis prod_cases4)
  note pg = PollTransaction_goes [OF goes_ok [OF pu(1)] po]
  obtain now m3 where t: "mgr_now m2 = (now, m3)" by fastforce
  note ng = mgr_now_goes [OF _ t] and nf = mgr_now_fields [OF t]
  obtain x m4 where wt: "os_op (WaitReadable (mySocket m3)) m3 = (x, m4)" by fastforce
  have g3: "goes (Pump m) m3" "settled m3" using pg ng pu goes_ok goes_trans by blast+
  note wg = os_wait_goes [OF goes_ok [OF g3(1)] wt]
  have g4: "goes m3 m4" "settled m4" using g3 wg by simp_all
  have "osClock (myOs m4) = osClock (myOs m)" "Suc (osClockReads (myOs m)) \<le> osClockReads (myOs m4)"
    using pu(1) pg nf(3,4) g4(1) by (auto simp: goes_def clock_mono_def)
  then have "\<forall>i \<ge> osClockReads (myOs m4) + n. TimeAfter (osClock (myOs m4) i) deadline"
    using Suc.prems(3) by auto
  from Suc.IH [OF goes_ok [OF g4(1)] g4(2) this]
  have "\<exists>x. Wait_loop (Suc n) k deadline r1 m4 = Some x" .
  then show ?case using po t wt by (auto simp: Let_def)
qed

text \<open>
  The same for connecting: a call that leaves the phase waiting has read the clock and found
  the deadline, which it does not move, still ahead.
\<close>

lemma pump_connecting_deadline:
  "pump_connecting m = (go, m') \<Longrightarrow> myConnectDeadline m' = myConnectDeadline m"
  by (auto simp: pump_connecting_def Let_def sock_op_def sock_Write_def NextTicket_def connect_failed_def
      split: prod.splits if_splits)

lemma pump_handshake_deadline:
  assumes "mgr_ok m" "pump_handshake m = (go, m')"
  shows "myConnectDeadline m' = myConnectDeadline m"
proof -
  obtain alive m1 where op: "sock_op SocketPump m = (alive, m1)" by fastforce
  note o = sock_op_SocketPump [OF assms(1) op]
  have "myConnectDeadline m1 = myConnectDeadline m" by (subst o(2)) simp
  moreover have "myConnectDeadline (ProcessInput m1) = myConnectDeadline m1"
    using ProcessInput_pumped [OF o(1)] by (simp add: pumped_def api_part_def)
  ultimately show ?thesis
    using assms(2) op by (auto simp: pump_handshake_def Let_def connect_failed_def split: if_splits)
qed

definition waiting :: "mgr \<Rightarrow> bool" where
  "waiting m \<longleftrightarrow> myConnectPhase m = PHASE_CONNECTING \<or> myConnectPhase m = PHASE_AWAIT_HANDSHAKE"

lemma PumpConnectPhase_waiting:
  assumes "mgr_ok m" "settled m" "waiting (PumpConnectPhase m)"
  shows "myConnectDeadline (PumpConnectPhase m) = myConnectDeadline m
    \<and> osClockReads (myOs m) < osClockReads (myOs (PumpConnectPhase m))
    \<and> (\<exists>i \<ge> osClockReads (myOs m). \<not> TimeAfter (osClock (myOs m) i) (myConnectDeadline m))"
proof -
  obtain go1 m1 where p1: "(if myConnectPhase m = PHASE_CONNECTING then pump_connecting m else (True, m)) = (go1, m1)"
    by fastforce
  obtain go2 m2 where p2: "(if myConnectPhase m1 = PHASE_AWAIT_HANDSHAKE then pump_handshake m1 else (True, m1)) = (go2, m2)"
    by fastforce
  have 1: "goes m m1" "settled m1" "\<not> go1 \<Longrightarrow> myConnectPhase m1 = PHASE_FAILED"
    "myConnectDeadline m1 = myConnectDeadline m"
    using p1 pump_connecting_ok [OF assms(1,2)] assms goes_refl pump_connecting_deadline by (auto split: if_splits)
  have 2: "goes m1 m2" "\<not> go2 \<Longrightarrow> myConnectPhase m2 = PHASE_FAILED" "myConnectDeadline m2 = myConnectDeadline m1"
    using p2 pump_handshake_ok [OF goes_ok [OF 1(1)] 1(2)] goes_refl [OF goes_ok [OF 1(1)]]
      pump_handshake_deadline [OF goes_ok [OF 1(1)]] by (auto split: if_splits)
  have r: "PumpConnectPhase m = (if \<not> go1 then m1 else if \<not> go2 then m2 else pump_deadline m2)"
    using p1 p2 by (simp add: PumpConnectPhase_def Let_def)
  have go: "go1" "go2" "PumpConnectPhase m = pump_deadline m2"
    using r assms(3) 1(3) 2(2) by (auto simp: waiting_def split: if_splits)
  obtain now m3 where t: "mgr_now m2 = (now, m3)" by fastforce
  note nf = mgr_now_fields [OF t]
  have w2: "waiting m2" "\<not> TimeAfter now (myConnectDeadline m3)" "pump_deadline m2 = m3"
    using assms(3) t go(3) by (auto simp: pump_deadline_def waiting_def connect_failed_def split: if_splits)
  have d3: "myConnectDeadline m3 = myConnectDeadline m2" by (subst nf(1)) simp
  have cl: "osClock (myOs m2) = osClock (myOs m)" "osClockReads (myOs m) \<le> osClockReads (myOs m2)"
    using 1(1) 2(1) by (auto simp: goes_def clock_mono_def)
  then have "\<not> TimeAfter (osClock (myOs m) (osClockReads (myOs m2))) (myConnectDeadline m)"
    using w2(2) d3 nf(5) 1(4) 2(3) by simp
  then show ?thesis using cl nf(4) d3 1(4) 2(3) go(3) w2(3) by auto
qed

lemma Connect_waiting_ends:
  "mgr_ok m \<Longrightarrow> settled m \<Longrightarrow> waiting m \<Longrightarrow>
   \<forall>i \<ge> osClockReads (myOs m) + n. TimeAfter (osClock (myOs m) i) (myConnectDeadline m) \<Longrightarrow>
   \<exists>x. Connect (Suc n) m = Some x"
proof (induction n arbitrary: m)
  case (0 m)
  have "ConnectInBackground [] m = (waiting (PumpConnectPhase m), PumpConnectPhase m)"
    using 0(3) by (auto simp: ConnectInBackground_def Online_def waiting_def Let_def)
  then show ?case using PumpConnectPhase_waiting [OF 0(1,2)] 0(4) by auto
next
  case (Suc n m)
  let ?m = "PumpConnectPhase m"
  have run: "ConnectInBackground [] m = (waiting ?m, ?m)"
    using Suc.prems(3) by (auto simp: ConnectInBackground_def Online_def waiting_def Let_def)
  show ?case
  proof (cases "waiting ?m")
    case True
    have g: "goes m ?m" "settled ?m" using PumpConnectPhase_ok [OF Suc.prems(1,2)] by auto
    note w = PumpConnectPhase_waiting [OF Suc.prems(1,2) True]
    have "osClock (myOs ?m) = osClock (myOs m)" using g by (simp add: goes_def clock_mono_def)
    then have "\<forall>i \<ge> osClockReads (myOs ?m) + n. TimeAfter (osClock (myOs ?m) i) (myConnectDeadline ?m)"
      using Suc.prems(4) w by auto
    from Suc.IH [OF goes_ok [OF g(1)] g(2) True this] run True show ?thesis by simp
  next
    case False
    then show ?thesis using run by simp
  qed
qed

text \<open>From any other phase the first call sets the deadline 30 seconds after the first read.\<close>

lemma StartConnecting_deadline:
  assumes "waiting (StartConnecting m)"
  shows "myConnectDeadline (StartConnecting m) = osClock (myOs m) (osClockReads (myOs m)) + CONNECT_TIMEOUT_MS
    \<and> osClock (myOs (StartConnecting m)) = osClock (myOs m)
    \<and> osClockReads (myOs (StartConnecting m)) = Suc (osClockReads (myOs m))"
proof -
  let ?c = "choose_server m"
  let ?m = "?c\<lparr>myCurrentAction := ''Connecting to '' @ myConnectedHost ?c\<rparr>"
  obtain ok s w where b: "BeginConnect (myConnectedHost ?c) (myConnectedPort ?c) (mySocket m) (myOs m) = (ok, s, w)"
    by (metis prod_cases3)
  have r: "osClock w = osClock (myOs m)" "osClockReads w = osClockReads (myOs m)"
    using BeginConnect_rest [OF b] by (auto simp: os_rest_def)
  have "sock_op (BeginConnect (myConnectedHost ?m) (myConnectedPort ?m)) ?m = (ok, ?m\<lparr>mySocket := s, myOs := w\<rparr>)"
    using b by (simp add: sock_op_def choose_server_frame)
  then show ?thesis
    using assms r by (auto simp: StartConnecting_def Let_def mgr_now_def os_op_def NowMs_def waiting_def split: if_splits)
qed

lemma Connect_ends:
  assumes ok: "mgr_ok m" "settled m" and nw: "\<not> waiting m"
    and clock: "\<forall>i \<ge> osClockReads (myOs m) + Suc n.
      TimeAfter (osClock (myOs m) i) (osClock (myOs m) (osClockReads (myOs m)) + CONNECT_TIMEOUT_MS)"
  shows "\<exists>x. Connect (Suc (Suc n)) m = Some x"
proof (cases "Online m")
  case True
  then show ?thesis by (auto simp: ConnectInBackground_def)
next
  case False
  let ?m = "StartConnecting (m\<lparr>myUsersForWWR := []\<rparr>)"
  have ok': "mgr_ok (m\<lparr>myUsersForWWR := []\<rparr>)" using ok by simp
  have run: "ConnectInBackground [] m = (waiting ?m, ?m)"
    using False nw by (cases "myConnectPhase m") (auto simp: ConnectInBackground_def waiting_def Let_def)
  show ?thesis
  proof (cases "waiting ?m")
    case True
    have g: "mgr_ok ?m" "settled ?m" using StartConnecting_ok [OF ok'] goes_ok by blast+
    have "\<forall>i \<ge> osClockReads (myOs ?m) + n. TimeAfter (osClock (myOs ?m) i) (myConnectDeadline ?m)"
      using StartConnecting_deadline [OF True] clock by simp
    from Connect_waiting_ends [OF g True this] obtain x where "Connect (Suc n) ?m = Some x" by blast
    then show ?thesis using run True by simp
  next
    case False
    then show ?thesis using run by simp
  qed
qed

section \<open>Properties\<close>

text \<open>C19: Waiting for a response ends.  When the clock has passed the deadline from its \<open>n\<close>-th further
  reading on, the wait is over after at most \<open>n + 1\<close> passes, whatever the network does, and success
  is reported only for a response that has arrived.\<close>

theorem wait_returns:
  assumes "mgr_ok m" "settled m"
    and "\<forall>i > osClockReads (myOs m) + n.
      TimeAfter (osClock (myOs m) i) (osClock (myOs m) (osClockReads (myOs m)) + timeoutMs)"
  shows "\<exists>completed result m'. WaitForTransaction (Suc n) ticket timeoutMs r m = Some (completed, result, m')
    \<and> mgr_ok m' \<and> settled m' \<and> (if completed then t_done result else True)"
proof -
  obtain now m1 where t: "mgr_now m = (now, m1)" by fastforce
  note g = mgr_now_goes [OF assms(1) t] and f = mgr_now_fields [OF t]
  have ok: "mgr_ok m1" "settled m1" using g assms(2) goes_ok by blast+
  have "\<forall>i \<ge> osClockReads (myOs m1) + n. TimeAfter (osClock (myOs m1) i) (now + timeoutMs)"
    using assms(3) f by auto
  from Wait_loop_ends [OF ok this] obtain c result m' where
    w: "Wait_loop (Suc n) ticket (now + timeoutMs) r m1 = Some (c, result, m')" by (metis prod_cases3)
  have "mgr_ok m' \<and> settled m' \<and> (c \<longrightarrow> t_done result)" using Wait_loop_ok [OF ok w] goes_ok by blast
  then show ?thesis using w t by (simp add: WaitForTransaction_def del: Wait_loop.simps)
qed

theorem wait_returns_witness:
  "\<exists>completed result m'. WaitForTransaction (Suc 8) 1 5000 Transaction_new example_online = Some (completed, result, m')
    \<and> mgr_ok m' \<and> settled m' \<and> (if completed then t_done result else True)"
proof (rule wait_returns)
  show "\<forall>i > osClockReads (myOs example_online) + 8. TimeAfter (osClock (myOs example_online) i)
      (osClock (myOs example_online) (osClockReads (myOs example_online)) + 5000)"
    using example_clock [of 5000] by (simp add: example_online_os)
qed (rule example_online_ok)+

text \<open>C18: \<open>Connect\<close> returns.  When the clock has passed 30 seconds from its \<open>n\<close>-th further reading on,
  at most \<open>n + 1\<close> calls of \<open>ConnectInBackground\<close> suffice, whatever the server answers; then the
  manager is online or has stopped trying, and the result says which.\<close>

theorem connect_returns:
  assumes "mgr_ok m" "settled m" "\<not> waiting m"
    and "\<forall>i > osClockReads (myOs m) + n.
      TimeAfter (osClock (myOs m) i) (osClock (myOs m) (osClockReads (myOs m)) + CONNECT_TIMEOUT_MS)"
  shows "\<exists>ok m'. Connect (Suc (Suc n)) m = Some (ok, m') \<and> mgr_ok m' \<and> settled m' \<and> ok = Online m' \<and> \<not> waiting m'"
proof -
  obtain ok m' where c: "Connect (Suc (Suc n)) m = Some (ok, m')"
    using Connect_ends [OF assms(1-3), of n] assms(4) by fastforce
  then show ?thesis using Connect_ok [OF assms(1,2) c] goes_ok by (auto simp: waiting_def)
qed

theorem connect_returns_witness:
  "let m = DSNetManager_new [] 0 CLIENT_MODE_MODERN (example_system\<lparr>osFds := [], osConnects := [ConnectError NN_EINPROGRESS]\<rparr>) in
   \<exists>ok m'. Connect (Suc (Suc 35)) m = Some (ok, m') \<and> mgr_ok m' \<and> settled m' \<and> ok = Online m' \<and> \<not> waiting m'"
proof -
  let ?m = "DSNetManager_new [] 0 CLIENT_MODE_MODERN (example_system\<lparr>osFds := [], osConnects := [ConnectError NN_EINPROGRESS]\<rparr>)"
  have "mgr_ok ?m" by (rule mgr_ok_DSNetManager_new) (simp add: example_system_def)
  moreover have "\<not> waiting ?m" by (simp add: waiting_def DSNetManager_new_def)
  moreover have "TimeAfter (osClock (myOs ?m) i) (osClock (myOs ?m) (osClockReads (myOs ?m)) + CONNECT_TIMEOUT_MS)"
    if "i > 35" for i
    using example_clock [of 30000 i] that by (simp add: DSNetManager_new_def example_system_def consts_simps)
  ultimately show ?thesis
    unfolding Let_def using settled_DSNetManager_new
    by (intro connect_returns) (simp_all add: DSNetManager_new_def example_system_def del: Connect.simps)
qed

end
