(* ===== verification/NetSafety.thy ===== *)
theory NetSafety imports NetSpool NetWaiting
begin

text \<open>
  Every public operation of the manager keeps the invariant, so no sequence of calls ever
  reads outside a buffer, uses a dangling iterator or leaks a descriptor.  \<open>good\<close> is the
  invariant between operations; \<open>ready\<close> is \<open>good\<close> in the online phase, where requests are sent.
\<close>

section \<open>The invariant between operations\<close>

definition good :: "mgr \<Rightarrow> bool" where
  "good m \<longleftrightarrow> mgr_ok m \<and> settled m"

definition ready :: "mgr \<Rightarrow> bool" where
  "ready m \<longleftrightarrow> good m \<and> myConnectPhase m = PHASE_ONLINE"

lemma ready_good: "ready m \<Longrightarrow> good m"
  by (simp add: ready_def)

lemma ready_Online: "good m \<Longrightarrow> Online m \<Longrightarrow> ready m"
  by (simp add: ready_def Online_def)

lemma good_upd [simp]:
  "good (m\<lparr>ourOverrideHost := x1\<rparr>) = good m" "good (m\<lparr>ourOverridePort := x2\<rparr>) = good m"
  "good (m\<lparr>ourClientMode := x3\<rparr>) = good m" "good (m\<lparr>myServerRotation := x4\<rparr>) = good m"
  "good (m\<lparr>myNickname := x5\<rparr>) = good m" "good (m\<lparr>myPassword := x6\<rparr>) = good m"
  "good (m\<lparr>myCurrentAction := x7\<rparr>) = good m" "good (m\<lparr>myServers := x8\<rparr>) = good m"
  "good (m\<lparr>myPresence := x9\<rparr>) = good m" "good (m\<lparr>myUsersForWWR := x10\<rparr>) = good m"
  "good (m\<lparr>myPendingUserFetches := x11\<rparr>) = good m" "good (m\<lparr>myRandomUserQuery := x12\<rparr>) = good m"
  "good (m\<lparr>myStatusQuery := x13\<rparr>) = good m" "good (m\<lparr>myIncomingMessages := x14\<rparr>) = good m"
  "good (m\<lparr>myQueuedMessages := x15\<rparr>) = good m" "good (m\<lparr>myOutboxDirectory := x16\<rparr>) = good m"
  "good (m\<lparr>myInboxDirectory := x17\<rparr>) = good m" "good (m\<lparr>myOutboxDirty := x18\<rparr>) = good m"
  "good (m\<lparr>myNextOutboxScan := x19\<rparr>) = good m" "good (m\<lparr>myDeleted := x20\<rparr>) = good m"
  by (simp_all add: good_def)

lemma ready_upd [simp]:
  "ready (m\<lparr>myCurrentAction := x7\<rparr>) = ready m" "ready (m\<lparr>myPresence := x9\<rparr>) = ready m"
  "ready (m\<lparr>myPendingUserFetches := x11\<rparr>) = ready m" "ready (m\<lparr>myRandomUserQuery := x12\<rparr>) = ready m"
  "ready (m\<lparr>myStatusQuery := x13\<rparr>) = ready m"
  by (simp_all add: ready_def)

section \<open>The building blocks\<close>

lemma good_os: "good m \<Longrightarrow> os_net w = os_net (myOs m) \<Longrightarrow> good (m\<lparr>myOs := w\<rparr>)"
  using os_net_fds [of w "myOs m"] by (simp add: good_def mgr_ok_os)

lemma StartTransaction_ready:
  assumes "StartTransaction k e m = (t, m')" "ready m" "e = (if k = TRANS_STATUS then 16 else 0)"
  shows "ready m'"
proof -
  have m': "m' = m\<lparr>myNextTicketNumber := t, myTransactions := myTransactions m'\<rparr>"
    using assms(1) by (metis StartTransaction_eq Pair_inject mgr.select_convs(24) mgr.surjective mgr.update_convs(22,24))
  have "mgr_ok m'" using StartTransaction_ok [OF _ assms(1) assms(3)] assms(2) by (simp add: ready_def good_def)
  moreover have "settled m'" "myConnectPhase m' = PHASE_ONLINE"
    using assms(2) by (subst m', simp add: ready_def good_def)+
  ultimately show ?thesis by (simp add: ready_def good_def)
qed

lemma sock_Write_ready:
  assumes "sock_Write data m = (ok, m')" "ready m"
  shows "ready m'"
proof -
  have m: "mgr_ok m" "settled m" "myConnectPhase m = PHASE_ONLINE" using assms(2) by (simp_all add: ready_def good_def)
  note g = sock_Write_goes [OF m(1) assms(1)] and p = sock_Write_pumped [OF assms(1)]
  have "settled m'" using m p by (auto simp: settled_def)
  then show ?thesis using g m goes_ok by (simp add: ready_def good_def)
qed

lemma mgr_now_good: "mgr_now m = (now, m') \<Longrightarrow> good m \<Longrightarrow> good m'"
  using mgr_now_goes [of m now m'] goes_ok by (auto simp: good_def)

lemma mgr_now_ready: "mgr_now m = (now, m') \<Longrightarrow> ready m \<Longrightarrow> ready m'"
  using mgr_now_good [of m now m'] by (auto simp: ready_def mgr_now_eq)

lemma AbandonTransaction_good: "good m \<Longrightarrow> good (AbandonTransaction k m)"
  using AbandonTransaction_goes goes_ok by (auto simp: good_def)

lemma PollTransaction_good: "PollTransaction k r m = (b, r', p, m') \<Longrightarrow> good m \<Longrightarrow> good m'"
  using PollTransaction_goes [of m k r b r' p m'] goes_ok by (auto simp: good_def)

lemma Pump_good: "good m \<Longrightarrow> good (Pump m)"
  using Pump_ok goes_ok by (auto simp: good_def)

lemma Pump_query: "good m \<Longrightarrow> query_part (Pump m) = query_part m"
  using Pump_ok by (auto simp: good_def goes_def)

lemma ConnectionLost_good: "mgr_ok m \<Longrightarrow> good (ConnectionLost m)"
  using ConnectionLost_ok ConnectionLost_session_over settled_over by (auto simp: good_def)

lemma Disconnect_good: "good m \<Longrightarrow> good (Disconnect m)"
  using Disconnect_ok Disconnect_session_over settled_over by (auto simp: good_def)

lemma WaitForTransaction_good:
  assumes "WaitForTransaction fuel k t r m = Some (b, r', m')" "good m"
  shows "good m'"
proof -
  obtain now m1 where n: "mgr_now m = (now, m1)" by fastforce
  have "good m1" using mgr_now_good [OF n assms(2)] .
  moreover have "Wait_loop fuel k (now + t) r m1 = Some (b, r', m')"
    using assms(1) n by (simp add: WaitForTransaction_def)
  ultimately show ?thesis using Wait_loop_ok [of m1 fuel k "now + t" r b r' m'] goes_ok by (auto simp: good_def)
qed

lemma good_pending:
  "good m \<Longrightarrow> \<forall>k. A k \<noteq> None \<longrightarrow> k \<in> myWWRMembers m \<Longrightarrow> good (m\<lparr>myPendingWWRAdds := A\<rparr>)"
  by (auto simp: good_def ok_parts)

lemma good_members: "good m \<Longrightarrow> good (m\<lparr>myWWRMembers := insert u (myWWRMembers m)\<rparr>)"
  using mgr_ok_members [of m "insert u (myWWRMembers m)"] by (auto simp: good_def)

lemma good_pending_members: "good m \<Longrightarrow> myPendingWWRAdds m u \<noteq> None \<Longrightarrow> u \<in> myWWRMembers m"
  by (auto simp: good_def ok_parts)

section \<open>The register\<close>

lemma IsUserOnline_good:
  assumes "good m" "IsUserOnline fuel user m = Some (b, m')"
  shows "good m'"
proof -
  obtain valid u where fs: "BabelUIN_FromString user = (valid, u)" by fastforce
  show ?thesis
  proof (cases "valid \<and> Online m \<and> u \<noteq> myUserUIN m \<and> myPresence m user = None")
    case False
    then show ?thesis using assms by (auto simp: IsUserOnline_def fs split: if_splits option.splits)
  next
    case True
    define m0 where "m0 = m\<lparr>myCurrentAction := ''Checking whether '' @ user @ '' is online''\<rparr>"
    obtain t m1 where st: "StartTransaction TRANS_CONNECTION_DETAIL 0 m0 = (t, m1)" by fastforce
    obtain ok m2 where w: "sock_Write (BuildGetConnectionDetail (myServerUIN m1) u t) m1 = (ok, m2)" by fastforce
    have "ready m0" using assms(1) True ready_Online by (simp add: m0_def)
    then have "ready m2" using sock_Write_ready [OF w StartTransaction_ready [OF st]] by simp
    then have g: "good m2" by (rule ready_good)
    have run: "IsUserOnline fuel user m = (if \<not> ok then Some (False, AbandonTransaction t m2\<lparr>myCurrentAction := []\<rparr>)
        else (case WaitForTransaction fuel t USER_ONLINE_TIMEOUT_MS Transaction_new m2 of None \<Rightarrow> None
           | Some (c, r, m) \<Rightarrow> Some (c \<and> t_success r, m\<lparr>myCurrentAction := []\<rparr>)))"
      using True by (simp add: IsUserOnline_def fs st w Let_def del: append.simps flip: m0_def)
    then show ?thesis
      using assms(2) g AbandonTransaction_good WaitForTransaction_good
      by (auto split: if_splits option.splits)
  qed
qed

lemma AddToWWR_good:
  assumes "good m" "AddToWWR user m = (b, m')"
  shows "good m'"
proof -
  obtain valid u where fs: "BabelUIN_FromString user = (valid, u)" by fastforce
  define m0 where "m0 = m\<lparr>myWWRMembers := insert user (myWWRMembers m)\<rparr>"
  have g0: "good m0" using assms(1) good_members by (simp add: m0_def)
  have mem: "user \<in> myWWRMembers m0" by (simp add: m0_def)
  consider (quick) "\<not> valid \<or> \<not> Online m0" | (first) "valid" "Online m0" "myPendingWWRAdds m0 user = None"
    | (poll) "valid" "Online m0" "myPendingWWRAdds m0 user \<noteq> None" by blast
  then show ?thesis
  proof cases
    case quick
    then show ?thesis using assms g0 by (auto simp: AddToWWR_def fs m0_def split: if_splits)
  next
    case first
    obtain ok m1 where w: "sock_Write (BuildWWRModify True (myServerUIN m0) u) m0 = (ok, m1)" by fastforce
    have g1: "good m1" using sock_Write_ready [OF w ready_Online [OF g0 first(2)]] by (rule ready_good)
    obtain now m2 where t: "mgr_now m1 = (now, m2)" by fastforce
    have g2: "good m2" using mgr_now_good [OF t g1] .
    have "myWWRMembers m1 = myWWRMembers m0" using w by (auto simp: sock_Write_eq)
    moreover have "myWWRMembers m2 = myWWRMembers m1" by (subst mgr_now_fields(1) [OF t]) simp
    ultimately have mem2: "user \<in> myWWRMembers m2" using mem by simp
    have "good (m2\<lparr>myPendingWWRAdds := (myPendingWWRAdds m2)(user \<mapsto> x)\<rparr>)" for x
      using g2 mem2 good_pending_members [OF g2] by (intro good_pending) auto
    moreover have "AddToWWR user m = (if \<not> ok then (False, m1) else if myPresence m0 user \<noteq> None then (False, m1)
        else (True, m2\<lparr>myPendingWWRAdds := (myPendingWWRAdds m2)(user \<mapsto> now + WWR_ADD_TIMEOUT_MS)\<rparr>))"
      using first w t by (auto simp: AddToWWR_def fs Let_def simp flip: m0_def)
    ultimately show ?thesis using assms(2) g1 by (auto split: if_splits)
  next
    case poll
    have gp: "good (Pump m0)" using g0 by (rule Pump_good)
    obtain now m2 where t: "mgr_now (Pump m0) = (now, m2)" by fastforce
    have g2: "good m2" using mgr_now_good [OF t gp] .
    have "good (m2\<lparr>myPendingWWRAdds := (myPendingWWRAdds m2)(user := None)\<rparr>)"
      using g2 good_pending_members [OF g2] by (intro good_pending) auto
    then show ?thesis using assms(2) poll gp g2 t
      by (auto simp: AddToWWR_def fs Let_def simp flip: m0_def split: option.splits if_splits)
  qed
qed

lemma RemoveFromWWR_good:
  assumes "good m"
  shows "good (RemoveFromWWR user m)"
proof -
  obtain valid u where fs: "BabelUIN_FromString user = (valid, u)" by fastforce
  define m0 where "m0 = m\<lparr>myWWRMembers := myWWRMembers m - {user},
      myPendingWWRAdds := (myPendingWWRAdds m)(user := None), myPresence := (myPresence m)(user := None)\<rparr>"
  have g0: "good m0" using assms by (auto simp: m0_def good_def ok_parts settled_def)
  obtain ok m1 where w: "sock_Write (BuildWWRModify False (myServerUIN m0) u) m0 = (ok, m1)" by fastforce
  have "Online m0 \<Longrightarrow> good m1" using sock_Write_ready [OF w ready_Online [OF g0]] ready_good by blast
  then show ?thesis using g0 w by (auto simp: RemoveFromWWR_def fs Let_def simp flip: m0_def)
qed

lemma good_changed: "good m \<Longrightarrow> distinct c \<Longrightarrow> good (m\<lparr>myChangedUsers := c\<rparr>)"
  by (simp add: good_def ok_parts)

lemma NextChangedUserWWR_good:
  assumes "good m" "NextChangedUserWWR m = (x, m')"
  shows "good m'"
proof (cases "myChangedUsers m")
  case Nil
  then show ?thesis using assms by (simp add: NextChangedUserWWR_def)
next
  case (Cons user users)
  have "distinct (user # users)" using assms(1) Cons by (simp add: good_def ok_parts)
  then show ?thesis using assms Cons good_changed by (auto simp: NextChangedUserWWR_def Let_def)
qed

section \<open>Queries\<close>

lemma FetchUserData_good:
  assumes "good m" "FetchUserData user m = (nick, b, m')"
  shows "good m'"
proof -
  obtain valid u where fs: "BabelUIN_FromString user = (valid, u)" by fastforce
  consider (quick) "\<not> valid \<or> myPendingUserFetches m user = None \<and> \<not> Online m"
    | (first) "valid" "myPendingUserFetches m user = None" "Online m"
    | (poll) q where "valid" "myPendingUserFetches m user = Some q"
    by (cases "myPendingUserFetches m user") auto
  then show ?thesis
  proof cases
    case quick
    then show ?thesis using assms by (auto simp: FetchUserData_def fs split: if_splits)
  next
    case first
    define m0 where "m0 = m\<lparr>myCurrentAction := ''Fetching details of user '' @ user\<rparr>"
    obtain t m1 where st: "StartTransaction TRANS_CLIENT_INFO 0 m0 = (t, m1)" by fastforce
    obtain now m2 where nw: "mgr_now m1 = (now, m2)" by fastforce
    obtain ok m3 where w: "sock_Write (BuildGetClientInfo (myServerUIN m2) u t) m2 = (ok, m3)" by fastforce
    have "ready m0" using assms(1) first ready_Online by (simp add: m0_def)
    then have "good m3"
      using sock_Write_ready [OF w mgr_now_ready [OF nw StartTransaction_ready [OF st]]] ready_good by simp
    moreover have "(nick, b, m') = (if \<not> ok then ([], False, AbandonTransaction t m3\<lparr>myCurrentAction := []\<rparr>)
        else ([], True, m3\<lparr>myPendingUserFetches := (myPendingUserFetches m3)(user \<mapsto>
          \<lparr>q_ticket = t, q_deadline = now + QUERY_TIMEOUT_MS\<rparr>)\<rparr>))"
      using first assms(2)
      by (cases ok) (simp_all add: FetchUserData_def fs st nw w Let_def del: append.simps flip: m0_def)
    ultimately show ?thesis using AbandonTransaction_good by (auto split: if_splits)
  next
    case (poll q)
    have gp: "good (Pump m)" using assms(1) by (rule Pump_good)
    have q: "myPendingUserFetches (Pump m) user = Some q"
      using Pump_query [OF assms(1)] poll by (simp add: query_part_def)
    obtain c r p m1 where po: "PollTransaction (q_ticket q) Transaction_new (Pump m) = (c, r, p, m1)" by (metis prod_cases4)
    have g1: "good m1" using PollTransaction_good [OF po gp] .
    obtain now m2 where nw: "mgr_now m1 = (now, m2)" by fastforce
    have g2: "good m2" using mgr_now_good [OF nw g1] .
    show ?thesis
    proof (cases c)
      case True
      then show ?thesis using assms(2) poll q po g1
        by (auto simp: FetchUserData_def fs Let_def split: if_splits option.splits)
    next
      case False
      then show ?thesis using assms(2) poll q po nw g2 AbandonTransaction_good [OF g2, of "q_ticket q"]
        by (auto simp: FetchUserData_def fs Let_def split: if_splits)
    qed
  qed
qed

lemma DSFetchRandomUser_good:
  assumes "good m" "DSFetchRandomUser m = (user, b, m')"
  shows "good m'"
proof -
  consider (quick) "q_ticket (myRandomUserQuery m) = 0" "\<not> Online m"
    | (first) "q_ticket (myRandomUserQuery m) = 0" "Online m" | (poll) "q_ticket (myRandomUserQuery m) \<noteq> 0" by blast
  then show ?thesis
  proof cases
    case quick
    then show ?thesis using assms by (simp add: DSFetchRandomUser_def)
  next
    case first
    define m0 where "m0 = m\<lparr>myCurrentAction := ''Fetching a random online user''\<rparr>"
    obtain t m1 where st: "StartTransaction TRANS_RANDOM_USER 0 m0 = (t, m1)" by fastforce
    define m1' where "m1' = m1\<lparr>myRandomUserQuery := (myRandomUserQuery m1)\<lparr>q_ticket := t\<rparr>\<rparr>"
    obtain now m2 where nw: "mgr_now m1' = (now, m2)" by fastforce
    define m2' where "m2' = m2\<lparr>myRandomUserQuery := (myRandomUserQuery m2)\<lparr>q_deadline := now + QUERY_TIMEOUT_MS\<rparr>\<rparr>"
    obtain ok m3 where w: "sock_Write (BuildFetchRandomUser (myServerUIN m2) (myUserUIN m2)
        (q_ticket (myRandomUserQuery m2))) m2' = (ok, m3)" by fastforce
    have "ready m0" using assms(1) first ready_Online by (simp add: m0_def)
    then have "ready m1'" using StartTransaction_ready [OF st] by (simp add: m1'_def)
    then have "ready m2'" using mgr_now_ready [OF nw] by (simp add: m2'_def)
    then have "good m3" using sock_Write_ready [OF w] ready_good by blast
    moreover have "DSFetchRandomUser m = (if \<not> ok then ([], False, AbandonTransaction (q_ticket (myRandomUserQuery m3)) m3
          \<lparr>myRandomUserQuery := PendingQuery_new, myCurrentAction := []\<rparr>) else ([], True, m3))"
      using first nw w by (simp add: DSFetchRandomUser_def st Let_def flip: m0_def m1'_def m2'_def)
    ultimately show ?thesis using assms(2) AbandonTransaction_good by (auto split: if_splits)
  next
    case poll
    have gp: "good (Pump m)" using assms(1) by (rule Pump_good)
    obtain c r p m1 where po: "PollTransaction (q_ticket (myRandomUserQuery (Pump m))) Transaction_new (Pump m) = (c, r, p, m1)"
      by (metis prod_cases4)
    have g1: "good m1" using PollTransaction_good [OF po gp] .
    obtain now m2 where nw: "mgr_now m1 = (now, m2)" by fastforce
    have g2: "good m2" using mgr_now_good [OF nw g1] .
    show ?thesis
    proof (cases c)
      case True
      then show ?thesis using assms(2) poll po g1 by (auto simp: DSFetchRandomUser_def Let_def split: if_splits)
    next
      case False
      then show ?thesis using assms(2) poll po nw g2 AbandonTransaction_good [OF g2]
        by (auto simp: DSFetchRandomUser_def Let_def split: if_splits)
    qed
  qed
qed

lemma DSFetchRandomUser_blocking_good:
  "good m \<Longrightarrow> DSFetchRandomUser_blocking fuel m = Some (user, m') \<Longrightarrow> good m'"
proof (induction fuel arbitrary: m)
  case (Suc fuel)
  obtain u b m1 where r: "DSFetchRandomUser m = (u, b, m1)" by (metis prod_cases3)
  have "good m1" using DSFetchRandomUser_good [OF Suc.prems(1) r] .
  then show ?case using Suc r by (auto split: if_splits)
qed simp

lemma GetStatus_good:
  assumes "good m" "GetStatus out m = (out', b, m')"
  shows "good m'"
proof -
  consider (off) "\<not> Online m" | (first) "q_ticket (myStatusQuery m) = 0" "Online m"
    | (poll) "q_ticket (myStatusQuery m) \<noteq> 0" "Online m" by blast
  then show ?thesis
  proof cases
    case off
    then show ?thesis using assms AbandonTransaction_good by (auto simp: GetStatus_def split: if_splits)
  next
    case first
    define m0 where "m0 = m\<lparr>myCurrentAction := ''Fetching connection statistics''\<rparr>"
    obtain t m1 where st: "StartTransaction TRANS_STATUS 16 m0 = (t, m1)" by fastforce
    define m1' where "m1' = m1\<lparr>myStatusQuery := (myStatusQuery m1)\<lparr>q_ticket := t\<rparr>\<rparr>"
    obtain now m2 where nw: "mgr_now m1' = (now, m2)" by fastforce
    define m2' where "m2' = m2\<lparr>myStatusQuery := (myStatusQuery m2)\<lparr>q_deadline := now + QUERY_TIMEOUT_MS\<rparr>\<rparr>"
    obtain ok m3 where w: "sock_Write (BuildGetStatus (myServerUIN m2) (q_ticket (myStatusQuery m2))) m2' = (ok, m3)"
      by fastforce
    have "ready m0" using assms(1) first ready_Online by (simp add: m0_def)
    then have "ready m1'" using StartTransaction_ready [OF st] by (simp add: m1'_def)
    then have "ready m2'" using mgr_now_ready [OF nw] by (simp add: m2'_def)
    then have "good m3" using sock_Write_ready [OF w] ready_good by blast
    moreover have "GetStatus out m = (if \<not> ok then (out, False, AbandonTransaction (q_ticket (myStatusQuery m3)) m3
          \<lparr>myStatusQuery := PendingQuery_new, myCurrentAction := []\<rparr>) else (out, True, m3))"
      using first nw w by (simp add: GetStatus_def st Let_def flip: m0_def m1'_def m2'_def)
    ultimately show ?thesis using assms(2) AbandonTransaction_good by (auto split: if_splits)
  next
    case poll
    have gp: "good (Pump m)" using assms(1) by (rule Pump_good)
    obtain c r p m1 where po: "PollTransaction (q_ticket (myStatusQuery (Pump m))) Transaction_new (Pump m) = (c, r, p, m1)"
      by (metis prod_cases4)
    have g1: "good m1" using PollTransaction_good [OF po gp] .
    define m1' where "m1' = m1\<lparr>myStatusQuery := PendingQuery_new, myCurrentAction := []\<rparr>"
    have g1': "good m1'" using g1 by (simp add: m1'_def)
    obtain now m2 where nw: "mgr_now m1' = (now, m2)" by fastforce
    obtain now3 m3 where nw3: "mgr_now m1 = (now3, m3)" by fastforce
    define m4 where "m4 = (AbandonTransaction (q_ticket (myStatusQuery m3)) m3)\<lparr>myStatusQuery := PendingQuery_new, myCurrentAction := []\<rparr>"
    have g3: "good m3" using mgr_now_good [OF nw3 g1] .
    have g4: "good m4" using AbandonTransaction_good [OF g3] by (simp add: m4_def)
    obtain now5 m5 where nw5: "mgr_now m4 = (now5, m5)" by fastforce
    have "m' = (if c then m2 else if TimeAfter now3 (q_deadline (myStatusQuery m3)) then m5 else m3)"
      using assms(2) poll po nw nw3 nw5
      by (simp add: GetStatus_def Let_def flip: m1'_def m4_def split: if_splits)
    then show ?thesis using mgr_now_good [OF nw g1'] mgr_now_good [OF nw5 g4] g3 by simp
  qed
qed

section \<open>Messages and files\<close>

text \<open>The size a caller passes must not exceed the block it points at.\<close>

lemma PostDirectMessage_good:
  assumes "good m" "nat (sint sz) \<le> length data" "PostDirectMessage user data sz m = (b, m')"
  shows "good m'"
proof -
  obtain valid u where fs: "BabelUIN_FromString user = (valid, u)" by fastforce
  show ?thesis
  proof (cases "valid \<and> Online m \<and> 0 \<le> sint sz")
    case False
    then show ?thesis using assms by (auto simp: PostDirectMessage_def fs split: if_splits)
  next
    case True
    have rd: "read_cint_bytes data 0 sz = Some (take (nat (sint sz)) data)"
      using True assms(2) by (simp add: read_cint_bytes_def read_bytes_def)
    obtain ok m1 where w: "sock_Write (BuildMessage (myServerUIN m) (myUserUIN m) u (take (nat (sint sz)) data)) m = (ok, m1)"
      by fastforce
    have g1: "good m1" using sock_Write_ready [OF w] ready_Online [OF assms(1)] True ready_good by blast
    have "m' = (if ok then m1 else ConnectionLost m1)"
      using assms(3) True rd w by (simp add: PostDirectMessage_def fs Let_def split: if_splits)
    then show ?thesis using g1 ConnectionLost_good by (simp add: good_def)
  qed
qed

lemma GetMessages_good: "good m \<Longrightarrow> GetMessages m = (us, ts, ms, m') \<Longrightarrow> good m'"
  using Pump_good by (auto simp: GetMessages_def Let_def)

lemma DSFeedHistory_good:
  assumes "good m" "\<forall>d. data = Some d \<longrightarrow> nat (sint sz) \<le> length d" "DSFeedHistory fuel data sz m = Some (b, m')"
  shows "good m'"
proof (cases "Online m \<and> (\<exists>d. data = Some d) \<and> 0 < sint sz")
  case False
  then show ?thesis using assms(1,3) by (cases data) (auto simp: DSFeedHistory_def split: if_splits)
next
  case True
  then obtain d where d: "data = Some d" by blast
  define m0 where "m0 = m\<lparr>myCurrentAction := ''Uploading creature history''\<rparr>"
  obtain t m1 where st: "StartTransaction TRANS_FEED_HISTORY 0 m0 = (t, m1)" by fastforce
  have rd: "read_cint_bytes d 0 sz = Some (take (nat (sint sz)) d)"
    using True assms(2) d by (simp add: read_cint_bytes_def read_bytes_def)
  obtain ok m2 where w: "sock_Write (BuildFeedHistory (myServerUIN m1) (myUserUIN m1) t (take (nat (sint sz)) d)) m1 = (ok, m2)"
    by fastforce
  have "ready m0" using assms(1) True ready_Online by (simp add: m0_def)
  then have g2: "good m2" using sock_Write_ready [OF w StartTransaction_ready [OF st]] ready_good by simp
  have ga: "good (ConnectionLost (AbandonTransaction t m2\<lparr>myCurrentAction := []\<rparr>))"
    using AbandonTransaction_good [OF g2] by (intro ConnectionLost_good) (simp add: good_def)
  have "DSFeedHistory fuel data sz m = (if \<not> ok then Some (False, ConnectionLost (AbandonTransaction t m2\<lparr>myCurrentAction := []\<rparr>))
      else (case WaitForTransaction fuel t HISTORY_TIMEOUT_MS Transaction_new m2 of None \<Rightarrow> None
         | Some (c, r, m) \<Rightarrow> Some (c \<and> t_success r, m\<lparr>myCurrentAction := []\<rparr>)))"
    using True by (simp add: DSFeedHistory_def d st rd w Let_def flip: m0_def)
  then show ?thesis
    using assms(3) ga WaitForTransaction_good [OF _ g2] by (auto split: if_splits option.splits)
qed

lemma ReturnUniqueOutboxFilename_good:
  assumes "good m" "ReturnUniqueOutboxFilename user m = (path, m')"
  shows "good m'"
proof -
  obtain valid u where fs: "BabelUIN_FromString user = (valid, u)" by fastforce
  obtain serial w where t: "os_time (myOs m) = (serial, w)" by fastforce
  have n: "os_net w = os_net (myOs m)" using t by (rule frame_simps)
  have g1: "good (m\<lparr>myOs := w\<rparr>)" using assms(1) n by (rule good_os)
  have g2: "good (set_fault NoFreeName (m\<lparr>myOs := w\<rparr>))"
    using g1 set_fault_NoFreeName_ok [of "m\<lparr>myOs := w\<rparr>"] by (simp add: good_def) (simp add: set_fault_def)
  have g3: "good (m\<lparr>myOs := w'\<rparr>)" if "unique_path k d u serial w = Some (p, w')" for k d p w'
    using assms(1) unique_path_net [OF that] n by (intro good_os) simp_all
  have run: "ReturnUniqueOutboxFilename user m = (if \<not> valid then ([], m) else if myOutboxDirectory m = [] then ([], m)
      else case unique_path (Suc (length (osFiles w))) (myOutboxDirectory m) u serial w of
          None \<Rightarrow> ([], set_fault NoFreeName (m\<lparr>myOs := w\<rparr>))
        | Some (path, w') \<Rightarrow> (path, m\<lparr>myOs := w', myOutboxDirty := True\<rparr>))"
    by (auto simp: ReturnUniqueOutboxFilename_def fs os_op_def t Let_def split: option.split)
  show ?thesis using assms run g2 g3 by (auto split: if_splits option.splits)
qed

lemma SendOutboxFile_good:
  assumes "good m" "SendOutboxFile path m = (ok, m')"
  shows "good m'"
proof -
  have g: "good (m\<lparr>myOs := w\<rparr>)" if "os_net w = os_net (myOs m)" for w using assms(1) that by (rule good_os)
  let ?target = "UserFromSpoolName (BaseName path)"
  obtain rd contents w where r: "ReadWholeFile path [] (myOs m) = (rd, contents, w)" by (metis prod_cases3)
  have gw: "good (m\<lparr>myOs := w\<rparr>)" using g file_net(2) [OF r] by blast
  let ?p = "pray_payload contents"
  have sz: "nat (sint (of_nat (length ?p) :: cint)) \<le> length ?p" using sint_of_nat_le [of "length ?p"] by simp
  obtain b m1 where po: "PostDirectMessage ?target ?p (of_nat (length ?p)) (m\<lparr>myOs := w\<rparr>) = (b, m1)" by fastforce
  have g1: "good m1" using PostDirectMessage_good [OF gw sz po] .
  obtain rn v where mv: "os_rename path (path @ ''.bad'') (os_remove (path @ ''.bad'') (myOs m)) = (rn, v)" by fastforce
  have "os_net v = os_net (myOs m)" using os_net_calls(6) [OF mv] by (simp add: frame_simps)
  then have gv: "good (m\<lparr>myOs := v\<rparr>)" by (rule g)
  have g1': "good (m1\<lparr>myOs := os_remove path (myOs m1)\<rparr>)" using g1 by (rule good_os) (simp add: frame_simps)
  have "m' = (if ?target = [] then m\<lparr>myOs := v\<rparr> else if \<not> rd then m\<lparr>myOs := w\<rparr> else if \<not> b then m1
      else m1\<lparr>myOs := os_remove path (myOs m1)\<rparr>)"
    using assms(2) r po mv by (simp add: SendOutboxFile_def os_op_def Let_def split: if_splits)
  then show ?thesis using gv gw g1 g1' by simp
qed

lemma SendOutboxFiles_good: "good m \<Longrightarrow> good (SendOutboxFiles names m)"
proof (induction names arbitrary: m)
  case (Cons name names)
  obtain ok m1 where s: "SendOutboxFile (myOutboxDirectory m @ name) m = (ok, m1)" by fastforce
  show ?case using Cons SendOutboxFile_good [OF Cons.prems s] s by simp
qed simp

lemma ScanOutbox_good:
  assumes "good m"
  shows "good (ScanOutbox m)"
proof -
  obtain now m1 where t: "mgr_now m = (now, m1)" by fastforce
  have g1: "good m1" using mgr_now_good [OF t assms] .
  let ?m = "m1\<lparr>myOutboxDirty := False, myNextOutboxScan := now + OUTBOX_RESCAN_MS\<rparr>"
  obtain names w where l: "ListFilesWithExtension (myOutboxDirectory m1) ''.warp'' (myOs m1) = (names, w)" by fastforce
  have "good (?m\<lparr>myOs := w\<rparr>)" using g1 file_net(3) [OF l] by (intro good_os) simp_all
  then have "good (SendOutboxFiles names (?m\<lparr>myOs := w\<rparr>))" by (rule SendOutboxFiles_good)
  then show ?thesis using assms g1 t l by (simp add: ScanOutbox_def os_op_def Let_def)
qed

lemma ProcessQueuedMessages_good:
  "good m \<Longrightarrow> \<forall>q m. good m \<longrightarrow> good (qsend q m) \<Longrightarrow> good (ProcessQueuedMessages qsend m)"
  by (simp add: ProcessQueuedMessages_def Let_def split: list.split)

lemma SendOrdinaryMessages_good:
  "good m \<Longrightarrow> \<forall>q m. good m \<longrightarrow> good (qsend q m) \<Longrightarrow> good (SendOrdinaryMessages qsend m)"
  by (simp add: SendOrdinaryMessages_def Let_def ScanOutbox_good ProcessQueuedMessages_good Pump_good)

section \<open>Polling\<close>

lemma query_parts:
  assumes "query_part m' = query_part m"
  shows "myPendingUserFetches m' = myPendingUserFetches m" "myRandomUserQuery m' = myRandomUserQuery m"
    "myStatusQuery m' = myStatusQuery m"
  using assms by (simp_all add: query_part_def)

text \<open>One polling pass: what it reads off the clock, and what it finds.\<close>

lemma poll_pass:
  assumes "good m" "PollTransaction k r (Pump m) = (c, r', p, m1)" "mgr_now m1 = (now, m2)"
  shows "goes m m1" "good m1" "goes m m2" "good m2"
    "now = osClock (myOs m) (osClockReads (myOs m1))" "osClockReads (myOs m) \<le> osClockReads (myOs m1)"
    "osClock (myOs m2) = osClock (myOs m)" "osClockReads (myOs m2) = Suc (osClockReads (myOs m1))"
proof -
  have pu: "goes m (Pump m)" "good (Pump m)" using Pump_ok Pump_good assms(1) by (auto simp: good_def)
  show g1: "good m1" using PollTransaction_good [OF assms(2) pu(2)] .
  show m1: "goes m m1" using PollTransaction_goes [OF _ assms(2)] pu goes_trans by (auto simp: good_def)
  show "good m2" using mgr_now_good [OF assms(3) g1] .
  show "goes m m2" using mgr_now_goes(1) [OF _ assms(3)] g1 m1 goes_trans by (auto simp: good_def)
  note f = mgr_now_fields [OF assms(3)]
  show "now = osClock (myOs m) (osClockReads (myOs m1))" "osClockReads (myOs m) \<le> osClockReads (myOs m1)"
    "osClock (myOs m2) = osClock (myOs m)" "osClockReads (myOs m2) = Suc (osClockReads (myOs m1))"
    using f m1 by (auto simp: goes_def clock_mono_def)
qed

end
