(* ===== verification/NetChunks.thy ===== *)
theory NetChunks imports NetInput
begin

text \<open>
  The stream reaches \<open>ProcessInput\<close> in pieces of any size.  Here: processing a piece and then
  the next one is the same as processing both at once, so what the manager does depends on the
  bytes of the stream and not on where the network cut it.
\<close>

section \<open>Handlers do not look at the rest of the buffer\<close>

definition with_input :: "byte list \<Rightarrow> mgr \<Rightarrow> mgr" where
  "with_input x m = m\<lparr>mySocket := mySocket m\<lparr>myInput := x\<rparr>\<rparr>"

lemma with_input_sel [simp]:
  "myInput (mySocket (with_input x m)) = x" "myOs (with_input x m) = myOs m"
  "myTransactions (with_input x m) = myTransactions m" "myConnectPhase (with_input x m) = myConnectPhase m"
  "myServerUIN (with_input x m) = myServerUIN m" "myInboxDirectory (with_input x m) = myInboxDirectory m"
  "myIncomingMessages (with_input x m) = myIncomingMessages m" "myNextVSN (with_input x m) = myNextVSN m"
  "myUsersForWWR (with_input x m) = myUsersForWWR m" "myWWRMembers (with_input x m) = myWWRMembers m"
  "with_input y (with_input x m) = with_input y m"
  "InputSize (mySocket (with_input x m)) = of_nat (length x)"
  by (simp_all add: with_input_def InputSize_def)

lemma with_input_self: "with_input (myInput (mySocket m)) m = m"
  by (simp add: with_input_def)

lemma with_input_upd [simp]:
  "with_input x m\<lparr>myOs := w\<rparr> = with_input x (m\<lparr>myOs := w\<rparr>)"
  "with_input x m\<lparr>myTransactions := T\<rparr> = with_input x (m\<lparr>myTransactions := T\<rparr>)"
  "with_input x m\<lparr>myNextVSN := n\<rparr> = with_input x (m\<lparr>myNextVSN := n\<rparr>)"
  "with_input x m\<lparr>myWWRMembers := W\<rparr> = with_input x (m\<lparr>myWWRMembers := W\<rparr>)"
  "with_input x m\<lparr>myIncomingMessages := ms\<rparr> = with_input x (m\<lparr>myIncomingMessages := ms\<rparr>)"
  "with_input x m\<lparr>myConnectPhase := p\<rparr> = with_input x (m\<lparr>myConnectPhase := p\<rparr>)"
  "with_input x m\<lparr>myCurrentAction := a\<rparr> = with_input x (m\<lparr>myCurrentAction := a\<rparr>)"
  "with_input x m\<lparr>myLastError := e\<rparr> = with_input x (m\<lparr>myLastError := e\<rparr>)"
  "with_input x m\<lparr>myRawError := r\<rparr> = with_input x (m\<lparr>myRawError := r\<rparr>)"
  "with_input x m\<lparr>myServerUIN := u\<rparr> = with_input x (m\<lparr>myServerUIN := u\<rparr>)"
  "with_input x m\<lparr>myUserUIN := u\<rparr> = with_input x (m\<lparr>myUserUIN := u\<rparr>)"
  "with_input x m\<lparr>myConnectedAtMs := t\<rparr> = with_input x (m\<lparr>myConnectedAtMs := t\<rparr>)"
  "with_input x m\<lparr>myServers := ss\<rparr> = with_input x (m\<lparr>myServers := ss\<rparr>)"
  "with_input x m\<lparr>myServerRotation := n\<rparr> = with_input x (m\<lparr>myServerRotation := n\<rparr>)"
  "with_input x m\<lparr>myUsersForWWR := us\<rparr> = with_input x (m\<lparr>myUsersForWWR := us\<rparr>)"
  "with_input x m\<lparr>myOutboxDirty := b\<rparr> = with_input x (m\<lparr>myOutboxDirty := b\<rparr>)"
  by (simp_all add: with_input_def)

lemma Close_with_input:
  "Close (s\<lparr>myInput := x\<rparr>) w = (case Close s w of (s', w') \<Rightarrow> (s'\<lparr>myInput := x\<rparr>, w'))"
  by (simp add: Close_def Let_def)

lemma input_inner:
  "s\<lparr>myOutput := out, myInput := x\<rparr> = s\<lparr>myInput := x, myOutput := out\<rparr>"
  "s\<lparr>myBytesSent := n, myInput := x\<rparr> = s\<lparr>myInput := x, myBytesSent := n\<rparr>"
  "s\<lparr>myLastSystemError := e, myInput := x\<rparr> = s\<lparr>myInput := x, myLastSystemError := e\<rparr>"
  by simp_all

lemma FlushOutput_loop_with_input:
  "FlushOutput_loop (s\<lparr>myInput := x\<rparr>) w = (case FlushOutput_loop s w of (ok, s', w') \<Rightarrow> (ok, s'\<lparr>myInput := x\<rparr>, w'))"
proof (induction s w rule: FlushOutput_loop.induct)
  case (1 s w)
  show ?case
  proof (cases "myOutput s = []")
    case True
    then show ?thesis by (simp add: FlushOutput_loop.simps [of s] FlushOutput_loop.simps [of "s\<lparr>myInput := x\<rparr>"])
  next
    case False
    obtain sent err v where snd: "os_send (myOutput s) w = (sent, err, v)" by (metis prod_cases3)
    show ?thesis
    proof (cases "sent > 0")
      case True
      let ?s = "s\<lparr>myBytesSent := myBytesSent s + of_nat sent, myOutput := drop sent (myOutput s)\<rparr>"
      have "FlushOutput_loop (?s\<lparr>myInput := x\<rparr>) v = (case FlushOutput_loop ?s v of (ok, s', w') \<Rightarrow> (ok, s'\<lparr>myInput := x\<rparr>, w'))"
        using 1 [OF False snd [symmetric] refl True] by simp
      then show ?thesis using False snd True
        by (simp add: input_inner FlushOutput_loop.simps [of s] FlushOutput_loop.simps [of "s\<lparr>myInput := x\<rparr>"])
    next
      case ns: False
      have "Close (s\<lparr>myLastSystemError := err\<rparr>\<lparr>myInput := x\<rparr>) v
          = (case Close (s\<lparr>myLastSystemError := err\<rparr>) v of (s', w') \<Rightarrow> (s'\<lparr>myInput := x\<rparr>, w'))"
        by (rule Close_with_input)
      then show ?thesis using False snd ns
        by (simp add: input_inner FlushOutput_loop.simps [of s] FlushOutput_loop.simps [of "s\<lparr>myInput := x\<rparr>"] split: prod.split)
    qed
  qed
qed

lemma Write_with_input:
  "Write data (s\<lparr>myInput := x\<rparr>) w = (case Write data s w of (ok, s', w') \<Rightarrow> (ok, s'\<lparr>myInput := x\<rparr>, w'))"
  using FlushOutput_loop_with_input [where s = "s\<lparr>myOutput := myOutput s @ data\<rparr>"]
  by (simp add: Write_def FlushOutput_def input_inner)

lemma sock_Write_with_input:
  "sock_Write data (with_input x m) = (case sock_Write data m of (ok, m') \<Rightarrow> (ok, with_input x m'))"
  by (simp add: sock_Write_def sock_op_def with_input_def Write_with_input split: prod.split)

lemma sock_Close_with_input: "sock_Close (with_input x m) = with_input x (sock_Close m)"
  by (simp add: sock_Close_def with_input_def Close_with_input split: prod.split)

lemma MarkEveryoneOffline_with_input: "MarkEveryoneOffline (with_input x m) = with_input x (MarkEveryoneOffline m)"
  by (simp add: MarkEveryoneOffline_def with_input_def)

lemma UpdatePresence_with_input:
  "UpdatePresence u on nick (with_input x m) = with_input x (UpdatePresence u on nick m)"
  by (simp add: UpdatePresence_def with_input_def Let_def)

lemma SpoolPrayFile_with_input:
  "SpoolPrayFile u p (with_input x m) = with_input x (SpoolPrayFile u p m)"
proof -
  obtain serial w where t: "os_time (myOs m) = (serial, w)" by fastforce
  then have t': "os_time (myOs (with_input x m)) = (serial, w)" by simp
  have "set_fault f (with_input x n) = with_input x (set_fault f n)" for f n
    by (simp add: set_fault_def with_input_def)
  then show ?thesis
    by (simp add: SpoolPrayFile_cases [OF t] SpoolPrayFile_cases [OF t'] split: option.split)
qed

lemma SendWWRRegistrations_with_input:
  "SendWWRRegistrations users (with_input x m) = with_input x (SendWWRRegistrations users m)"
proof (induction users arbitrary: m)
  case (Cons user users)
  then show ?case
    by (simp add: Let_def sock_Write_with_input split: prod.split)
qed simp

lemma ConnectionLost_with_input:
  "ConnectionLost (with_input x m) = with_input x (ConnectionLost m)"
proof -
  have "myLastSystemError (mySocket (with_input x m)) = myLastSystemError (mySocket m)"
    by (simp add: with_input_def)
  then show ?thesis
    by (simp add: ConnectionLost_def Let_def sock_Close_with_input MarkEveryoneOffline_with_input)
qed

lemma set_fault_with_input: "set_fault f (with_input x m) = with_input x (set_fault f m)"
  by (simp add: set_fault_def with_input_def)

lemma HandleHandshakeResponse_with_input:
  "HandleHandshakeResponse h raw n (with_input x m) = with_input x (HandleHandshakeResponse h raw n m)"
proof (cases "myConnectPhase m = PHASE_AWAIT_HANDSHAKE")
  case True
  show ?thesis
  proof (cases "drop 1 raw")
    case Nil
    then show ?thesis using True by (simp add: HandleHandshakeResponse_def set_fault_with_input)
  next
    case (Cons c cs)
    then show ?thesis using True
      by (simp add: HandleHandshakeResponse_def Let_def mgr_now_def os_op_def NowMs_def sock_Close_with_input
          set_fault_with_input SendWWRRegistrations_with_input split: option.split)
  qed
qed (simp add: HandleHandshakeResponse_def)

lemma HandlePacket_with_input:
  "HandlePacket h body n (with_input x m) = (case HandlePacket h body n m of (alive, m') \<Rightarrow> (alive, with_input x m'))"
proof -
  have vsn: "NextVSN (with_input x m) = (case NextVSN m of (v, m') \<Rightarrow> (v, with_input x m'))"
    by (simp add: NextVSN_def Let_def)
  show ?thesis
    unfolding HandlePacket_def Let_def
    by (simp add: vsn UpdatePresence_with_input SpoolPrayFile_with_input sock_Write_with_input set_fault_with_input
        ConnectionLost_with_input split: option.split prod.split)
qed

lemma handle_frame_with_input:
  "handle_frame h p n (with_input x m) = (case handle_frame h p n m of (alive, m') \<Rightarrow> (alive, with_input x m'))"
  unfolding handle_frame_def Let_def
  by (simp add: HandlePacket_with_input HandleHandshakeResponse_with_input set_fault_with_input split: option.split prod.split)

section \<open>More bytes behind the buffer\<close>

text \<open>\<open>feed b m\<close>: the manager with \<open>b\<close> behind its buffered input, as a read appends it.\<close>

definition feed :: "byte list \<Rightarrow> mgr \<Rightarrow> mgr" where
  "feed b m = m\<lparr>mySocket := mySocket m\<lparr>myInput := myInput (mySocket m) @ b\<rparr>\<rparr>"

lemma feed_eq: "feed b m = with_input (myInput (mySocket m) @ b) m"
  by (simp add: feed_def with_input_def)

lemma feed_Nil [simp]: "feed [] m = m"
  by (simp add: feed_def)

lemma feed_feed: "feed c (feed b m) = feed (b @ c) m"
  by (simp add: feed_def)

lemma mgr_ok_feed: "mgr_ok m \<Longrightarrow> mgr_ok (feed b m)"
  by (auto simp: feed_def ok_parts sock_ok_def live_def)

lemma frame_size_more:
  assumes "frame_size T h input n = FrameSize k" "48 \<le> sint n \<Longrightarrow> 48 \<le> length input" "sint n \<le> sint n'"
  shows "frame_size T h (input @ b) n' = FrameSize k"
proof -
  have "48 \<le> sint n \<Longrightarrow> GetInt (input @ b) 44 = GetInt input 44"
    using assms(2) by (intro GetInt_prefix) simp
  then show ?thesis using assms(1,3)
    by (auto simp: frame_size_def Let_def consts_simps split: if_splits option.splits)
qed

text \<open>A pass that handles a packet does the same whatever follows the packet.\<close>

lemma process_step_feed:
  assumes ok: "mgr_ok m" and len: "int (length (myInput (mySocket m) @ b)) \<le> INT_MAX"
    and run: "process_step m = (True, m')"
  shows "process_step (feed b m) = (True, feed b m')"
proof -
  let ?i = "myInput (mySocket m)"
  obtain h n m1 where st: "PacketHeader_Read ?i = Some h"
    "frame_size (myTransactions m) h ?i (InputSize (mySocket m)) = FrameSize n"
    "32 \<le> sint (InputSize (mySocket m))" "sint n \<le> sint (InputSize (mySocket m))"
    "handle_frame h (take (nat (sint n)) ?i) n m = (True, m1)"
    "m' = m1\<lparr>mySocket := ConsumeInput n (mySocket m1)\<rparr>"
    using process_step_again [OF run] .
  have n: "32 \<le> sint n" using frame_size_bounds(1) [OF mgr_okD(2) [OF ok] st(2)] by simp
  have sz: "sint (InputSize (mySocket m)) = int (length ?i)" using len by (intro InputSize_exact) simp
  have sz': "sint (of_nat (length ?i + length b) :: cint) = int (length ?i) + int (length b)"
    using len sint_of_nat_id [of "length ?i + length b"] by simp
  have szm: "sint (of_nat (length ?i) :: cint) = int (length ?i)" using sz by (simp add: InputSize_def)
  have hd: "PacketHeader_Read (?i @ b) = Some h"
    using PacketHeader_Read_prefix [of ?i b] st(1,3) sz by simp
  have fr: "frame_size (myTransactions m) h (?i @ b) (of_nat (length ?i + length b)) = FrameSize n"
    using frame_size_more [OF st(2)] sz sz' by simp
  have tk: "take (nat (sint n)) (?i @ b) = take (nat (sint n)) ?i" using st(4) sz by simp
  have i1: "myInput (mySocket m1) = ?i"
    using handle_frame_ok [OF ok st(2) _ st(5)] st(4) sz by (simp add: same_input_def)
  have step: "process_step (feed b m) = (True, with_input (?i @ b) m1\<lparr>mySocket :=
      ConsumeInput n (mySocket (with_input (?i @ b) m1))\<rparr>)"
    unfolding feed_eq process_step_def Let_def
    using st(3,4,5) sz sz' hd fr tk
    by (simp add: consts_simps handle_frame_with_input)
  have "myInput (ConsumeInput n (mySocket (with_input (?i @ b) m1))) = drop (nat (sint n)) ?i @ b"
    using n st(4) sz sz' i1 by (cases b) (auto simp: ConsumeInput_def)
  moreover have "myInput (ConsumeInput n (mySocket m1)) = drop (nat (sint n)) ?i"
    using n st(4) sz szm i1 by (auto simp: ConsumeInput_def InputSize_def)
  ultimately have "with_input (?i @ b) m1\<lparr>mySocket := ConsumeInput n (mySocket (with_input (?i @ b) m1))\<rparr> = feed b m'"
    unfolding st(6) feed_def
    by (subst (1 2 3) ConsumeInput_eq) (simp add: with_input_def)
  then show ?thesis using step by simp
qed

text \<open>A pass that stops either waits for more bytes, changing nothing, or has lost the connection.\<close>

lemma process_step_stop:
  assumes ok: "mgr_ok m" and run: "process_step m = (False, m')"
  shows "m' = m \<or> myConnectPhase m' = PHASE_IDLE"
proof -
  have lost: "myConnectPhase (ConnectionLost n) = PHASE_IDLE" for n
    using ConnectionLost_session_over by (simp add: session_over_def)
  have hf: "myConnectPhase m1 = PHASE_IDLE" if "handle_frame h p n m = (False, m1)" for h p n m1
    using that lost by (auto simp: handle_frame_def HandlePacket_def Let_def split: if_splits option.splits prod.splits)
  let ?i = "myInput (mySocket m)"
  show ?thesis
  proof (cases "sint (InputSize (mySocket m)) < 32")
    case True
    then show ?thesis using run by (simp add: process_step_def consts_simps)
  next
    case False
    then have "32 \<le> length ?i" using InputSize_le [of "mySocket m"] by linarith
    then obtain h where h: "PacketHeader_Read ?i = Some h" using PacketHeader_Read_defined by blast
    have "frame_size (myTransactions m) h ?i (InputSize (mySocket m)) \<noteq> FrameFault"
      using False InputSize_le by (intro frame_size_no_fault) auto
    then show ?thesis using run False h lost hf
      by (auto simp: process_step_def Let_def consts_simps split: if_splits framing.splits prod.splits)
  qed
qed

lemma ProcessInput_chunks:
  "mgr_ok m \<Longrightarrow> int (length (myInput (mySocket m) @ b)) \<le> INT_MAX \<Longrightarrow>
   myConnectPhase (ProcessInput m) \<noteq> PHASE_IDLE \<Longrightarrow>
   ProcessInput (feed b (ProcessInput m)) = ProcessInput (feed b m)"
proof (induction "length (myInput (mySocket m))" arbitrary: m rule: less_induct)
  case less
  obtain again m' where r: "process_step m = (again, m')" by fastforce
  note st = process_step_ok [OF less.prems(1) r]
  show ?case
  proof (cases again)
    case True
    have p: "ProcessInput m = ProcessInput m'" using ProcessInput_unfold [OF less.prems(1)] r True by simp
    have "process_step (feed b m) = (True, feed b m')"
      using process_step_feed [OF less.prems(1,2)] r True by simp
    then have "ProcessInput (feed b m) = ProcessInput (feed b m')"
      using ProcessInput_unfold [OF mgr_ok_feed [OF less.prems(1)]] by simp
    moreover have "ProcessInput (feed b (ProcessInput m')) = ProcessInput (feed b m')"
      using st True less.prems(2,3) p by (intro less.hyps) simp_all
    ultimately show ?thesis using p by simp
  next
    case False
    then have "ProcessInput m = m'" using ProcessInput_unfold [OF less.prems(1)] r by simp
    then show ?thesis using process_step_stop [OF less.prems(1)] r False less.prems(3) by auto
  qed
qed

end
