(* ===== verification/NetDelivery.thy ===== *)
theory NetDelivery imports NetChunks NetSpool
begin

text \<open>
  What the manager makes of particular packets: messages, warp files, answers to requests, a
  login.  Each is stated for a packet in front of any further input.

  The server is not part of the repository.  Between the sender's \<open>BuildMessage\<close> and the packet
  the receiver gets, the only thing assumed of it is that it forwards the packed message, the
  bytes from offset 40 on, behind a header of its own.
\<close>

section \<open>One packet in front of the buffer\<close>

lemma process_packet:
  assumes ok: "mgr_ok m" and inp: "myInput (mySocket m) = header_bytes h @ body @ rest"
    and len: "int (length (myInput (mySocket m))) \<le> INT_MAX"
    and fr: "frame_size (myTransactions m) h (myInput (mySocket m)) (InputSize (mySocket m)) = FrameSize n"
    and n: "sint n = 32 + int (length body)"
    and hf: "handle_frame h (header_bytes h @ body) n m = (True, m1)"
  shows "ProcessInput m = ProcessInput (with_input rest m1)"
proof -
  have sz: "sint (InputSize (mySocket m)) = int (length (myInput (mySocket m)))" using len by (rule InputSize_exact)
  have tk: "take (nat (sint n)) (myInput (mySocket m)) = header_bytes h @ body"
    using n inp by (simp add: nat_add_distrib)
  have i1: "myInput (mySocket m1) = myInput (mySocket m)"
    using handle_frame_ok [OF ok fr _ hf] n by (simp add: same_input_def nat_add_distrib)
  have "ConsumeInput n (mySocket m1) = mySocket m1\<lparr>myInput := rest\<rparr>"
    using n inp i1 sz len by (cases rest) (auto simp: ConsumeInput_def InputSize_def nat_add_distrib)
  then have "process_step m = (True, with_input rest m1)"
    using sz inp fr n hf tk
    by (simp add: process_step_def consts_simps PacketHeader_Read_header with_input_def Let_def)
  then show ?thesis using ProcessInput_unfold [OF ok] by simp
qed

lemma ProcessInput_empty:
  assumes "mgr_ok m" "myInput (mySocket m) = []"
  shows "ProcessInput m = m"
proof -
  have "process_step m = (False, m)" using assms(2) by (simp add: process_step_def InputSize_def consts_simps)
  then show ?thesis using ProcessInput_unfold [OF assms(1)] by simp
qed

section \<open>Messages\<close>

text \<open>The packet type and the further data of a message packet; the server's other fields are free.\<close>

definition message_header :: "PacketHeader \<Rightarrow> nat \<Rightarrow> bool" where
  "message_header h size_of_body \<longleftrightarrow> ptype h AND 0xFF = PACKET_MESSAGE \<and> pticket h = 0
     \<and> furtherData h = of_nat size_of_body \<and> size_of_body \<le> 33554432"

lemma message_frame:
  assumes "message_header h k"
  shows "frame_size T h input inputSize = FrameSize (32 + of_nat k)" "sint (32 + of_nat k :: cint) = 32 + int k"
    "sint (32 + of_nat k - 32 :: cint) = int k" "\<not> is_transaction T h"
proof -
  have k: "sint (of_nat k :: cint) = int k" using assms by (intro sint_of_nat_id) (simp add: message_header_def)
  show "\<not> is_transaction T h" using assms by (simp add: message_header_def is_transaction_def)
  then show "frame_size T h input inputSize = FrameSize (32 + of_nat k)"
    using assms k by (simp add: frame_size_def message_header_def consts_simps)
  show "sint (32 + of_nat k :: cint) = 32 + int k"
    using assms k by (subst sint_add_id) (simp_all add: message_header_def)
  show "sint (32 + of_nat k - 32 :: cint) = int k" using k by simp
qed

text \<open>What the sender's socket carries from offset 40 on is the packed message.\<close>

lemma BuildMessage_packed: "drop 40 (BuildMessage server user target payload) = packed_message user payload"
  by (simp add: BuildMessage_eq packed_message_def)

definition sender_of :: "BabelUIN \<Rightarrow> BabelUIN" where
  "sender_of u = \<lparr>uid = uid u, hid = hid u AND 0xFFFF\<rparr>"

lemma handle_message:
  assumes h: "message_header h (36 + length body)"
  shows "handle_frame h (header_bytes h @ packed_message user (c2e_payload messageType body)) (32 + of_nat (36 + length body)) m
    = (True, if messageType = MESG_PRAY_FILE then SpoolPrayFile (sender_of user) body m
             else m\<lparr>myIncomingMessages := myIncomingMessages m @
                [\<lparr>im_user = BabelUIN_ToString (sender_of user), im_type = messageType, im_payload = body\<rparr>]\<rparr>)"
proof -
  have "ParsePackedBabelMessage (packed_message user (c2e_payload messageType body) @ []) (36 + of_nat (length body)) BabelUIN_zero 0 []
      = Some (True, sender_of user, messageType, body)"
    unfolding sender_of_def using h by (intro Parse_packed_message) (simp add: message_header_def)
  moreover have "\<not> is_transaction (myTransactions m) h" using message_frame(4) [OF h] .
  ultimately show ?thesis
    using h by (simp add: handle_frame_def HandlePacket_def message_header_def consts_simps Let_def)
qed

lemma process_message:
  assumes ok: "mgr_ok m" and h: "message_header h (36 + length body)"
    and inp: "myInput (mySocket m) = header_bytes h @ drop 40 (BuildMessage server user target (c2e_payload messageType body)) @ rest"
    and len: "int (length (myInput (mySocket m))) \<le> INT_MAX"
  shows "ProcessInput m = ProcessInput (with_input rest
    (if messageType = MESG_PRAY_FILE then SpoolPrayFile (sender_of user) body m
     else m\<lparr>myIncomingMessages := myIncomingMessages m @
        [\<lparr>im_user = BabelUIN_ToString (sender_of user), im_type = messageType, im_payload = body\<rparr>]\<rparr>))"
  using message_frame [OF h] handle_message [OF h, of user messageType m] inp
  by (intro process_packet [OF ok _ len]) (simp_all add: BuildMessage_packed)

section \<open>Warp files\<close>

lemma os_io_Nil: "osIo w = [] \<Longrightarrow> os_io w = (IoOk, w)"
  by (simp add: os_io_def)

lemma os_put_io [simp]: "osIo (os_put p c w) = osIo w"
  by (simp add: os_put_def)

lemma os_remove_io [simp]: "osIo w = [] \<Longrightarrow> osIo (os_remove p w) = []"
  by (simp add: os_remove_def os_io_Nil)

text \<open>On a disk that does not fail an atomic write succeeds.\<close>

lemma WriteWholeFileAtomic_works:
  assumes "osIo w = []"
  shows "\<exists>w'. WriteWholeFileAtomic path contents w = (True, w')"
proof -
  let ?tmp = "path @ ''.tmp''"
  define w1 where "w1 = (if contents \<noteq> [] then os_put ?tmp contents (os_put ?tmp [] w) else os_put ?tmp [] w)"
  have io: "osIo w1 = []" using assms by (simp add: w1_def)
  have "os_file (os_remove path w1) ?tmp = Some contents" by (simp add: w1_def)
  then obtain w2 where mv: "os_rename ?tmp path (os_remove path w1) = (True, w2)"
    using io by (auto simp: os_rename_def os_io_Nil split: option.split)
  have "WriteWholeFileAtomic path contents w = (True, w2)"
    using mv io assms
    by (simp add: WriteWholeFileAtomic_def os_io_Nil Let_def flip: w1_def) (simp add: w1_def os_io_Nil split: if_splits)
  then show ?thesis ..
qed

text \<open>Spooling finds a free name, and the name gives the sender back.\<close>

lemma SpoolPrayFile_works:
  assumes dir: "myInboxDirectory m \<noteq> []" "myInboxDirectory m = EnsureTrailingSeparator d"
    and disk: "osIo (myOs m) = []" "length (osFiles (myOs m)) < 4294967296"
    and sender: "0 \<le> sint (uid u)" "0 \<le> sint (hid u)"
  shows "\<exists>path w'. SpoolPrayFile u payload m = m\<lparr>myOs := w'\<rparr>
    \<and> os_file (myOs m) path = None \<and> os_file w' path = Some payload
    \<and> (\<forall>q. q \<noteq> path \<and> q \<noteq> path @ ''.tmp'' \<longrightarrow> os_file w' q = os_file (myOs m) q)
    \<and> FindUserWhoSentFile path = BabelUIN_ToString u"
proof -
  obtain serial w0 where t: "os_time (myOs m) = (serial, w0)" by fastforce
  have w0: "osFiles w0 = osFiles (myOs m)" "osIo w0 = []" using t disk(1) by (auto simp: os_time_def)
  obtain path w1 where up: "unique_path (Suc (length (osFiles w0))) (myInboxDirectory m) u serial w0 = Some (path, w1)"
    using unique_path_ends [of w0] disk(2) w0 by fastforce
  obtain k where r: "osFiles w1 = osFiles w0" "path = myInboxDirectory m @ spool_name (serial + of_nat k) u"
    "os_file w0 path = None" using unique_path_result [OF up] w0 by blast
  have io: "osIo w1 = []"
  proof -
    have "osIo w' = []" if "unique_path n dir u s w = Some (p, w')" "osIo w = []" for n dir s w p w'
      using that by (induction n arbitrary: s w)
        (auto simp: unique_path.simps Let_def FileExists_def os_fopen_rb_def os_io_Nil split: option.splits)
    then show ?thesis using up w0 by blast
  qed
  obtain w2 where wr: "WriteWholeFileAtomic path payload w1 = (True, w2)"
    using WriteWholeFileAtomic_works [OF io] by blast
  note sp = WriteWholeFileAtomic_spec [OF wr]
  have same: "os_file w1 q = os_file (myOs m) q" "os_file w0 q = os_file (myOs m) q" for q
    using r(1) w0 by (simp_all add: os_file_def)
  have "FindUserWhoSentFile path = BabelUIN_ToString u"
    using EnsureTrailingSeparator_last [of d] dir(2) spool_name_no_separator UserFromSpoolName_spool [OF sender]
    by (simp add: FindUserWhoSentFile_def r(2) BaseName_append)
  then show ?thesis
    using SpoolPrayFile_cases [OF t, of u payload] dir(1) up wr sp r(3) same
    by (intro exI [of _ path] exI [of _ w2]) simp
qed

lemma hid_mask_nonneg: "0 \<le> sint (h AND 0xFFFF :: cint)"
proof -
  have "unat (h AND 0xFFFF) < 65536" unfolding low_half by simp
  then have "int (unat (h AND 0xFFFF)) \<le> INT_MAX" by linarith
  from sint_of_nat_id [OF this] show ?thesis by simp
qed

section \<open>Answers\<close>

text \<open>
  A response is recognised by its ticket, whatever its type field says: the entry is completed
  by \<open>HandleTransactionResponse\<close>, or dropped when nobody waits for it, and the next packet
  starts where the request said the response ends.
\<close>

lemma process_response:
  assumes ok: "mgr_ok m" and t: "myTransactions m (pticket h) = Some t"
    and f: "0 \<le> sint (furtherData h)" "sint (furtherData h) \<le> 33554432"
    and body: "int (length body) = sint (t_fixedExtra t) + sint (furtherData h)"
    and inp: "myInput (mySocket m) = header_bytes h @ body @ rest"
    and len: "int (length (myInput (mySocket m))) \<le> INT_MAX"
  shows "\<exists>t'. HandleTransactionResponse t h body (of_nat (length body)) = Some t' \<and> t_done t'
    \<and> ProcessInput m = ProcessInput (with_input rest (m\<lparr>myTransactions := (myTransactions m)(pticket h :=
        (if t_kind t = TRANS_ABANDONED then None else Some t'))\<rparr>))"
proof -
  have tab: "pticket h \<noteq> 0" "t_fixedExtra t = 0 \<or> t_fixedExtra t = 16"
    using table_okD [OF mgr_okD(2) [OF ok]] t by auto
  have is_t: "is_transaction (myTransactions m) h" using t tab by (simp add: is_transaction_def)
  let ?n = "32 + t_fixedExtra t + furtherData h"
  note st = sint_total [OF tab(2) f]
  have fr: "frame_size (myTransactions m) h (myInput (mySocket m)) (InputSize (mySocket m)) = FrameSize ?n"
    using f is_t t by (simp add: frame_size_def consts_simps)
  have bs: "sint (?n - 32) = int (length body)" using st(5) body by simp
  then have bn: "?n - 32 = of_nat (length body)" by (rule cint_of_sint)
  have bl: "length body = nat (sint (t_fixedExtra t) + sint (furtherData h))" using body by linarith
  obtain t' where h: "HandleTransactionResponse t h body (?n - 32) = Some t'" "t_done t'" "t_kind t' = t_kind t"
    using HandleTransactionResponse_in_bounds [OF tab(2) f(1), of "?n - 32" body] bs body bl by auto
  have "handle_frame h (header_bytes h @ body) ?n m =
      (True, m\<lparr>myTransactions := (myTransactions m)(pticket h := (if t_kind t = TRANS_ABANDONED then None else Some t'))\<rparr>)"
    using is_t t h by (simp add: handle_frame_def consts_simps)
  from process_packet [OF ok inp len fr _ this] st(1) body h bn show ?thesis by auto
qed

section \<open>A login\<close>

text \<open>The server list as the parser's comments describe it.\<close>

definition server_entry :: "CBabelServerInfo \<Rightarrow> byte list" where
  "server_entry i = le_bytes (si_myPort i) @ le_bytes (si_myID i)
     @ si_myHost i @ [CHR 0x00] @ si_myFriendlyName i @ [CHR 0x00]"

definition server_list_bytes :: "CBabelServerInfo list \<Rightarrow> byte list" where
  "server_list_bytes ss = concat (map le_bytes [1, 1, of_nat (length ss)]) @ concat (map server_entry ss)"

definition no_nul :: "CBabelServerInfo \<Rightarrow> bool" where
  "no_nul i \<longleftrightarrow> CHR 0x00 \<notin> set (si_myHost i) \<and> CHR 0x00 \<notin> set (si_myFriendlyName i)"

lemma scan_string_eq:
  "CHR 0x00 \<notin> set s \<Longrightarrow> length pre + length s < rawSize \<Longrightarrow>
   scan_string (pre @ s @ CHR 0x00 # post) rawSize (length pre) = Some (s, length pre + length s)"
proof (induction s arbitrary: pre)
  case Nil
  then show ?case by (simp add: scan_string.simps)
next
  case (Cons c s)
  have "scan_string ((pre @ [c]) @ s @ CHR 0x00 # post) rawSize (length (pre @ [c])) = Some (s, length (pre @ [c]) + length s)"
    using Cons.prems by (intro Cons.IH) simp_all
  then show ?case using Cons.prems by (auto simp: scan_string.simps [of _ _ "length pre"])
qed

lemma parse_servers_eq:
  "\<forall>i \<in> set ss. no_nul i \<Longrightarrow> raw = pre @ concat (map server_entry ss) \<Longrightarrow>
   parse_servers raw (length raw) (length ss) (length pre) acc = Some (acc @ ss)"
proof (induction ss arbitrary: pre acc)
  case (Cons i ss)
  let ?post = "concat (map server_entry ss)"
  let ?a = "pre @ le_bytes (si_myPort i) @ le_bytes (si_myID i)"
  let ?b = "?a @ si_myHost i @ [CHR 0x00]"
  let ?c = "?b @ si_myFriendlyName i @ [CHR 0x00]"
  have raw: "raw = pre @ le_bytes (si_myPort i) @ le_bytes (si_myID i) @ (si_myHost i @ CHR 0x00 # si_myFriendlyName i @ CHR 0x00 # ?post)"
    using Cons.prems(2) by (simp add: server_entry_def [of i])
  have g: "GetInt raw (length pre) = Some (si_myPort i)" "GetInt raw (length pre + 4) = Some (si_myID i)"
    unfolding raw using int32.dec_enc_at [of pre "length pre"] int32.dec_enc_at [of "pre @ le_bytes (si_myPort i)" "length pre + 4"]
    by simp_all
  have s1: "scan_string raw (length raw) (length pre + 8) = Some (si_myHost i, length pre + 8 + length (si_myHost i))"
    using scan_string_eq [of "si_myHost i" ?a "length raw" "si_myFriendlyName i @ CHR 0x00 # ?post"] Cons.prems(1)
    by (simp add: raw no_nul_def add.assoc add.commute add.left_commute)
  have s2: "scan_string raw (length raw) (length pre + 8 + length (si_myHost i) + 1)
      = Some (si_myFriendlyName i, length pre + 8 + length (si_myHost i) + 1 + length (si_myFriendlyName i))"
    using scan_string_eq [of "si_myFriendlyName i" ?b "length raw" ?post] Cons.prems(1)
    by (simp add: raw no_nul_def add.assoc add.commute add.left_commute)
  have rest: "parse_servers raw (length raw) (length ss) (length ?c) (acc @ [i]) = Some ((acc @ [i]) @ ss)"
    using Cons.prems by (intro Cons.IH) (simp_all add: server_entry_def [of i])
  have "SetServer (si_myHost i) (si_myFriendlyName i) (si_myPort i) (si_myID i) = i"
    by (simp add: SetServer_def)
  moreover have "length raw = length pre + 8 + length (si_myHost i) + 1 + length (si_myFriendlyName i) + 1 + length ?post"
    using raw by simp
  ultimately show ?case
    using g s1 s2 rest by (simp add: add.assoc add.commute add.left_commute)
qed simp

lemma handshake_servers_eq:
  assumes "length pre = 48" "\<forall>i \<in> set ss. no_nul i" "0 < length ss" "length ss < 1000"
    and "int (length (pre @ server_list_bytes ss)) \<le> INT_MAX"
  shows "handshake_servers (pre @ server_list_bytes ss) (of_nat (length (pre @ server_list_bytes ss))) = Some ss"
proof -
  let ?raw = "pre @ server_list_bytes ss"
  have sz: "sint (of_nat (length ?raw) :: cint) = int (length ?raw)" using assms(5) by (rule sint_of_nat_id)
  have c: "sint (of_nat (length ss) :: cint) = int (length ss)" using assms(4) by (intro sint_of_nat_id) simp
  have raw: "?raw = pre @ concat (map le_bytes [1, 1, of_nat (length ss)]) @ concat (map server_entry ss)"
    by (simp add: server_list_bytes_def)
  have g: "GetInt ?raw 48 = Some 1" "GetInt ?raw 52 = Some 1" "GetInt ?raw 56 = Some (of_nat (length ss))"
    using int32.dec_concat [of 0 "[1, 1, of_nat (length ss)]" pre "concat (map server_entry ss)"]
      int32.dec_concat [of 1 "[1, 1, of_nat (length ss)]" pre "concat (map server_entry ss)"]
      int32.dec_concat [of 2 "[1, 1, of_nat (length ss)]" pre "concat (map server_entry ss)"] assms(1)
    by (simp_all add: server_list_bytes_def)
  have "parse_servers ?raw (length ?raw) (length ss) (length (pre @ concat (map le_bytes [1, 1, of_nat (length ss)]))) []
      = Some ([] @ ss)"
    using assms(2) raw by (intro parse_servers_eq) simp_all
  then have p: "parse_servers ?raw (length ?raw) (length ss) 60 [] = Some ss" using assms(1) by simp
  have "60 \<le> length ?raw" using assms(1) by (simp add: server_list_bytes_def)
  then show ?thesis using g sz c assms(3,4) p by (simp add: handshake_servers_def del: length_append)
qed

text \<open>What a handshake response does, as a whole.\<close>

lemma HandleHandshakeResponse_result:
  assumes len: "48 \<le> length raw" "nat (sint rawSize) \<le> length raw" and ph: "myConnectPhase m = PHASE_AWAIT_HANDSHAKE"
  shows "let m' = HandleHandshakeResponse h raw rawSize m; code = word_of (raw ! 1) in
    if code = 0 \<and> fieldA h \<noteq> 0
    then myConnectPhase m' = PHASE_ONLINE \<and> myLastError m' = ERROR_OK
      \<and> myUserUIN m' = \<lparr>uid = fieldC h, hid = fieldD h\<rparr> \<and> myServerUIN m' = \<lparr>uid = fieldA h, hid = fieldB h\<rparr>
      \<and> myUsersForWWR m' = [] \<and> myOutboxDirty m'
      \<and> (IsConnected (mySocket m') \<longrightarrow> written (mySocket m') (myOs m') = written (mySocket m) (myOs m)
          @ concat (registration_packets (myServerUIN m') (myUsersForWWR m))
          \<and> myWWRMembers m' = myWWRMembers m \<union> {user \<in> set (myUsersForWWR m). fst (BabelUIN_FromString user)})
    else myConnectPhase m' = PHASE_FAILED \<and> myLastError m' = MapHandshakeError code \<and> myRawError m' = code
      \<and> myState (mySocket m') = STATE_CLOSED"
  using len ph
proof (cases rule: HandleHandshakeResponse_cases [where h = h])
  case (refused code)
  have "myLastError (sock_Close n) = myLastError n \<and> myRawError (sock_Close n) = myRawError n" for n
    by (subst sock_Close_fields(1), subst (2) sock_Close_fields(1)) simp
  then show ?thesis using refused(1,2) unfolding refused(3) by (auto simp: Let_def sock_Close_fields(2))
next
  case (accepted now w servers m1)
  let ?m2 = "SendWWRRegistrations (myUsersForWWR m) m1"
  have w: "osWire w = osWire (myOs m)" using accepted(3) by (auto simp: NowMs_def)
  have m1: "myConnectPhase m1 = PHASE_ONLINE" "myLastError m1 = ERROR_OK" "myUserUIN m1 = \<lparr>uid = fieldC h, hid = fieldD h\<rparr>"
    "myServerUIN m1 = \<lparr>uid = fieldA h, hid = fieldB h\<rparr>" "mySocket m1 = mySocket m" "myOs m1 = w" "myWWRMembers m1 = myWWRMembers m"
    by (simp_all add: accepted(5))
  have m2: "myConnectPhase ?m2 = PHASE_ONLINE" "myLastError ?m2 = ERROR_OK" "myUserUIN ?m2 = \<lparr>uid = fieldC h, hid = fieldD h\<rparr>"
    "myServerUIN ?m2 = \<lparr>uid = fieldA h, hid = fieldB h\<rparr>"
    by (subst SendWWRRegistrations_frame, simp add: m1)+
  have "written (mySocket ?m2) (myOs ?m2) = written (mySocket m) (myOs m)
      @ concat (registration_packets \<lparr>uid = fieldA h, hid = fieldB h\<rparr> (myUsersForWWR m))
      \<and> myWWRMembers ?m2 = myWWRMembers m \<union> {user \<in> set (myUsersForWWR m). fst (BabelUIN_FromString user)}"
    if "IsConnected (mySocket ?m2)"
    using SendWWRRegistrations_stream [OF that] w by (simp add: m1 written_def valid_users_def)
  then show ?thesis using accepted(1,2) m2 unfolding accepted(6) by (simp add: Let_def)
qed

end
