(* ===== verification/NetCalls.thy ===== *)
theory NetCalls imports NetSafety NetDelivery
begin

text \<open>
  The public interface as relations on the manager, and what such a relation may do.

  \<open>watch\<close> is the part of the manager a session shows: its phase, the register, what is known of
  the users, the messages.  The locale \<open>session_relation\<close> is the contract of a relation between
  the states before and after: it is transitive, sees only \<open>watch\<close>, and holds for a pump and for
  the end of a session.  Then it holds for every public call that neither dials nor edits the
  register nor takes from a queue.  \<open>NetSystem\<close> uses this for the phases, \<open>NetWatch\<close> for the
  presence of users, \<open>NetMail\<close> for the messages.
\<close>

section \<open>Runs of the public interface\<close>

text \<open>
  One public call: \<open>connecting_call\<close> for the two that connect, \<open>quiet_call\<close> for the others, of
  which \<open>plain_call\<close> are those that neither edit the register nor take from a queue.  A block passed with its
  size must have at least that size; the calls that wait have returned.  A tick also sends a
  queued message; \<open>qsend\<close> is what the engine's messages then do.
\<close>

inductive connecting_call :: "mgr \<Rightarrow> mgr \<Rightarrow> bool" where
  connect_in_background: "ConnectInBackground users m = (block, m') \<Longrightarrow> connecting_call m m'"
| connect: "Connect fuel m = Some (ok, m') \<Longrightarrow> connecting_call m m'"

inductive plain_call :: "mgr \<Rightarrow> mgr \<Rightarrow> bool" where
  set_user: "plain_call m (SetUser nickname password m)"
| override_host: "plain_call m (OverrideHost host port m)"
| set_client_mode: "plain_call m (SetClientMode mode m)"
| set_server_list: "plain_call m (SetServerList servers m)"
| queue_message: "plain_call m (QueueMessage q m)"
| set_outbox: "plain_call m (SetOutboxDirectory dir m)"
| set_inbox: "plain_call m (SetInboxDirectory dir m)"
| disconnect: "plain_call m (Disconnect m)"
| is_user_online: "IsUserOnline fuel user m = Some (online, m') \<Longrightarrow> plain_call m m'"
| reset_iterator: "plain_call m (ResetIteratorWWR m)"
| fetch_user_data: "FetchUserData user m = (nick, block, m') \<Longrightarrow> plain_call m m'"
| random_user: "DSFetchRandomUser m = (user, block, m') \<Longrightarrow> plain_call m m'"
| random_user_blocking: "DSFetchRandomUser_blocking fuel m = Some (user, m') \<Longrightarrow> plain_call m m'"
| get_status: "GetStatus out m = (out', block, m') \<Longrightarrow> plain_call m m'"
| post_direct_message: "PostDirectMessage user data sz m = (ok, m') \<Longrightarrow> nat (sint sz) \<le> length data \<Longrightarrow> plain_call m m'"
| feed_history: "DSFeedHistory fuel data sz m = Some (ok, m') \<Longrightarrow>
    \<forall>d. data = Some d \<longrightarrow> nat (sint sz) \<le> length d \<Longrightarrow> plain_call m m'"
| outbox_filename: "ReturnUniqueOutboxFilename user m = (path, m') \<Longrightarrow> plain_call m m'"

inductive quiet_call :: "mgr \<Rightarrow> mgr \<Rightarrow> bool" where
  plain: "plain_call m m' \<Longrightarrow> quiet_call m m'"
| add_to_wwr: "AddToWWR user m = (block, m') \<Longrightarrow> quiet_call m m'"
| remove_from_wwr: "quiet_call m (RemoveFromWWR user m)"
| next_changed: "NextChangedUserWWR m = (x, m') \<Longrightarrow> quiet_call m m'"
| get_messages: "GetMessages m = (users, types, messages, m') \<Longrightarrow> quiet_call m m'"

definition call_step :: "mgr \<Rightarrow> mgr \<Rightarrow> bool" where
  "call_step m m' \<longleftrightarrow> connecting_call m m' \<or> quiet_call m m'"

inductive api_step :: "(qmsg \<Rightarrow> mgr \<Rightarrow> mgr) \<Rightarrow> mgr \<Rightarrow> mgr \<Rightarrow> bool" for qsend where
  call: "call_step m m' \<Longrightarrow> api_step qsend m m'"
| tick: "api_step qsend m (SendOrdinaryMessages qsend m)"

inductive_cases connecting_callE: "connecting_call m m'"
inductive_cases plain_callE: "plain_call m m'"
inductive_cases quiet_callE: "quiet_call m m'"
inductive_cases api_stepE: "api_step qsend m m'"

definition fresh :: "mgr \<Rightarrow> bool" where
  "fresh m \<longleftrightarrow> (\<exists>host port mode w. osFds w = [] \<and> m = DSNetManager_new host port mode w)"

definition reachable :: "(qmsg \<Rightarrow> mgr \<Rightarrow> mgr) \<Rightarrow> mgr \<Rightarrow> bool" where
  "reachable qsend m \<longleftrightarrow> (\<exists>m0. fresh m0 \<and> (api_step qsend)\<^sup>*\<^sup>* m0 m)"

text \<open>A queued message that is sent makes public calls.\<close>

definition well_behaved :: "(qmsg \<Rightarrow> mgr \<Rightarrow> mgr) \<Rightarrow> bool" where
  "well_behaved qsend \<longleftrightarrow> (\<forall>q m. call_step\<^sup>*\<^sup>* m (qsend q m))"

lemmas setter_defs = SetUser_def OverrideHost_def SetClientMode_def SetServerList_def QueueMessage_def
  SetOutboxDirectory_def SetInboxDirectory_def ResetIteratorWWR_def

lemma connecting_call_good:
  assumes "connecting_call m m'" "good m"
  shows "good m'"
  using assms(1)
proof cases
  case connect_in_background
  then show ?thesis using ConnectInBackground_ok assms(2) goes_ok by (simp add: good_def) blast
next
  case connect
  then show ?thesis using Connect_ok assms(2) goes_ok by (simp add: good_def) blast
qed

lemma plain_call_good:
  assumes "plain_call m m'" "good m"
  shows "good m'"
  using assms(1)
  by cases (use assms(2) in \<open>auto simp: setter_defs intro: Disconnect_good IsUserOnline_good
    FetchUserData_good DSFetchRandomUser_good DSFetchRandomUser_blocking_good GetStatus_good
    PostDirectMessage_good DSFeedHistory_good ReturnUniqueOutboxFilename_good\<close>)

lemma quiet_call_good: "quiet_call m m' \<Longrightarrow> good m \<Longrightarrow> good m'"
  by (induction rule: quiet_call.induct)
    (use plain_call_good AddToWWR_good RemoveFromWWR_good NextChangedUserWWR_good GetMessages_good in blast)+

lemma plain_calls_good: "plain_call\<^sup>*\<^sup>* m m' \<Longrightarrow> good m \<Longrightarrow> good m'"
  by (induction rule: rtranclp_induct) (use plain_call_good in blast)+

lemma call_step_good: "call_step m m' \<Longrightarrow> good m \<Longrightarrow> good m'"
  using connecting_call_good quiet_call_good by (auto simp: call_step_def)

lemma call_steps_good: "call_step\<^sup>*\<^sup>* m m' \<Longrightarrow> good m \<Longrightarrow> good m'"
  by (induction rule: rtranclp_induct) (use call_step_good in blast)+

lemma api_step_good:
  assumes "api_step qsend m m'" "well_behaved qsend" "good m"
  shows "good m'"
  using assms(1)
proof cases
  case call
  then show ?thesis using call_step_good assms(3) by blast
next
  case tick
  have "good m1 \<Longrightarrow> good (qsend q m1)" for q m1
    using assms(2) call_steps_good by (auto simp: well_behaved_def)
  then show ?thesis using tick SendOrdinaryMessages_good [OF assms(3)] by simp
qed

lemma fresh_good: "fresh m \<Longrightarrow> good m"
  using mgr_ok_DSNetManager_new settled_DSNetManager_new by (auto simp: fresh_def good_def)

lemma reachable_good:
  assumes "reachable qsend m" "well_behaved qsend"
  shows "good m"
proof -
  obtain m0 where "fresh m0" and run: "(api_step qsend)\<^sup>*\<^sup>* m0 m" using assms(1) by (auto simp: reachable_def)
  then have "good m0" by (simp add: fresh_good)
  from run this show ?thesis
    by (induction rule: rtranclp_induct) (use api_step_good assms(2) in blast)+
qed

section \<open>What a session shows\<close>

definition watch :: "mgr \<Rightarrow> ConnectPhase \<times> string set \<times> string list \<times> (string \<rightharpoonup> u32) \<times> (string \<Rightarrow> bool) \<times> IncomingMessage list" where
  "watch m = (myConnectPhase m, myWWRMembers m, myChangedUsers m, myPendingWWRAdds m, known_online m, myIncomingMessages m)"

lemma watch_upd [simp]:
  "watch (m\<lparr>ourOverrideHost := x0\<rparr>) = watch m"
  "watch (m\<lparr>ourOverridePort := x1\<rparr>) = watch m"
  "watch (m\<lparr>ourClientMode := x2\<rparr>) = watch m"
  "watch (m\<lparr>mySocket := x3\<rparr>) = watch m"
  "watch (m\<lparr>myOs := x4\<rparr>) = watch m"
  "watch (m\<lparr>myConnectDeadline := x5\<rparr>) = watch m"
  "watch (m\<lparr>myServerRotation := x6\<rparr>) = watch m"
  "watch (m\<lparr>myNickname := x7\<rparr>) = watch m"
  "watch (m\<lparr>myPassword := x8\<rparr>) = watch m"
  "watch (m\<lparr>myUserUIN := x9\<rparr>) = watch m"
  "watch (m\<lparr>myServerUIN := x10\<rparr>) = watch m"
  "watch (m\<lparr>myConnectedAtMs := x11\<rparr>) = watch m"
  "watch (m\<lparr>myLastError := x12\<rparr>) = watch m"
  "watch (m\<lparr>myRawError := x13\<rparr>) = watch m"
  "watch (m\<lparr>myCurrentAction := x14\<rparr>) = watch m"
  "watch (m\<lparr>myServers := x15\<rparr>) = watch m"
  "watch (m\<lparr>myConnectedHost := x16\<rparr>) = watch m"
  "watch (m\<lparr>myConnectedPort := x17\<rparr>) = watch m"
  "watch (m\<lparr>myConnectedID := x18\<rparr>) = watch m"
  "watch (m\<lparr>myConnectedFriendlyName := x19\<rparr>) = watch m"
  "watch (m\<lparr>myNextTicketNumber := x20\<rparr>) = watch m"
  "watch (m\<lparr>myNextVSN := x21\<rparr>) = watch m"
  "watch (m\<lparr>myTransactions := x22\<rparr>) = watch m"
  "watch (m\<lparr>myUsersForWWR := x23\<rparr>) = watch m"
  "watch (m\<lparr>myPendingUserFetches := x24\<rparr>) = watch m"
  "watch (m\<lparr>myRandomUserQuery := x25\<rparr>) = watch m"
  "watch (m\<lparr>myStatusQuery := x26\<rparr>) = watch m"
  "watch (m\<lparr>myQueuedMessages := x28\<rparr>) = watch m"
  "watch (m\<lparr>myOutboxDirectory := x29\<rparr>) = watch m"
  "watch (m\<lparr>myInboxDirectory := x30\<rparr>) = watch m"
  "watch (m\<lparr>myOutboxDirty := x31\<rparr>) = watch m"
  "watch (m\<lparr>myNextOutboxScan := x32\<rparr>) = watch m"
  "watch (m\<lparr>myFault := x33\<rparr>) = watch m"
  "watch (m\<lparr>myDeleted := x34\<rparr>) = watch m"
  by (simp_all add: watch_def known_online_def fun_eq_iff)

lemma watch_phase: "watch m' = watch m \<Longrightarrow> myConnectPhase m' = myConnectPhase m"
  by (simp add: watch_def)

lemma watch_nick [simp]:
  "myPresence m = P \<Longrightarrow> P user = Some p \<Longrightarrow> watch (m\<lparr>myPresence := P(user \<mapsto> p\<lparr>pr_nickName := nick\<rparr>)\<rparr>) = watch m"
  by (auto simp: watch_def known_online_def fun_eq_iff)

lemma keeps_watch:
  "NextTicket m = (k, m') \<Longrightarrow> watch m' = watch m"
  "StartTransaction kind extra m = (k, m') \<Longrightarrow> watch m' = watch m"
  "watch (AbandonTransaction k m) = watch m"
  "PollTransaction k r m = (b, r', p, m') \<Longrightarrow> watch m' = watch m"
  "mgr_now m = (t, m') \<Longrightarrow> watch m' = watch m"
  "os_op f m = (x, m') \<Longrightarrow> watch m' = watch m"
  "sock_Write data m = (ok, m') \<Longrightarrow> watch m' = watch m"
  "watch (set_fault flt m) = watch m"
  by (auto simp: NextTicket_def StartTransaction_eq AbandonTransaction_def PollTransaction_def mgr_now_def os_op_def
      sock_Write_eq set_fault_def Let_def split: option.splits if_splits prod.splits)

lemma watch_socket [simp]: "sock_op f m = (x, m') \<Longrightarrow> watch m' = watch m"
  by (auto simp: sock_op_def split: prod.splits)

lemma watch_NextVSN: "NextVSN m = (k, m') \<Longrightarrow> watch m' = watch m"
  by (auto simp: NextVSN_def Let_def)

lemma watch_SpoolPrayFile: "watch (SpoolPrayFile sender payload m) = watch m"
proof -
  have "watch (snd (os_op f n)) = watch n" for f :: "os \<Rightarrow> bool \<times> os" and n
    using keeps_watch(6) [of f n] by (cases "os_op f n") simp
  then show ?thesis
    by (auto simp: SpoolPrayFile_def Let_def keeps_watch(8) split: prod.split option.split dest!: keeps_watch(6))
qed

lemma request_written:
  assumes "ready m" "StartTransaction kind extra m = (k, m1)" "extra = (if kind = TRANS_STATUS then 16 else 0)" "sock_Write data m1 = (ok, m2)"
  shows "good m2" "watch m2 = watch m"
proof -
  have "ready m1" using StartTransaction_ready [OF assms(2,1,3)] .
  then show "good m2" using sock_Write_ready [OF assms(4)] ready_good by blast
  show "watch m2 = watch m" using keeps_watch(2) [OF assms(2)] keeps_watch(7) [OF assms(4)] by simp
qed

section \<open>The contract of a session relation\<close>

locale session_relation =
  fixes R :: "mgr \<Rightarrow> mgr \<Rightarrow> bool"
  assumes R_trans: "R a b \<Longrightarrow> R b c \<Longrightarrow> R a c"
    and R_watch: "watch m' = watch m \<Longrightarrow> R m m'"
    and R_Pump: "good m \<Longrightarrow> R m (Pump m)"
    and R_lost: "R m (ConnectionLost m)"
    and R_disconnect: "R m (Disconnect m)"
begin

lemma R_right: "R m n \<Longrightarrow> watch m' = watch n \<Longrightarrow> R m m'"
  using R_trans R_watch by blast

lemma R_after_Pump: "good m \<Longrightarrow> watch m' = watch (Pump m) \<Longrightarrow> R m m'"
  by (rule R_right [OF R_Pump])

lemma R_then_lost: "watch n = watch m \<Longrightarrow> R m (ConnectionLost n)"
  using R_trans R_watch R_lost by blast

lemma Wait_loop_R:
  "good m \<Longrightarrow> Wait_loop fuel k deadline r m = Some (b, r', m') \<Longrightarrow> R m m'"
proof (induction fuel arbitrary: m r)
  case (Suc fuel)
  obtain c r1 p m2 where po: "PollTransaction k r (Pump m) = (c, r1, p, m2)" by (metis prod_cases4)
  obtain now m3 where t: "mgr_now m2 = (now, m3)" by fastforce
  obtain x m4 where wt: "os_op (WaitReadable (mySocket m3)) m3 = (x, m4)" by fastforce
  have g2: "good m2" using PollTransaction_good [OF po Pump_good [OF Suc.prems(1)]] .
  have g3: "good m3" using mgr_now_good [OF t g2] .
  have g4: "good m4" using os_wait_goes [OF _ wt] g3 goes_ok by (auto simp: good_def)
  have f: "R m m2" "R m (AbandonTransaction k m3)" "R m m4"
    using keeps_watch(4) [OF po] keeps_watch(5) [OF t] keeps_watch(6) [OF wt]
    by (intro R_after_Pump [OF Suc.prems(1)]; simp add: keeps_watch(3))+
  have run: "Wait_loop (Suc fuel) k deadline r m = (if c then Some (t_done r1, r1, m2)
      else if \<not> Online m2 then Some (False, r1, m2)
      else if TimeAfter now deadline then Some (False, r1, AbandonTransaction k m3)
      else Wait_loop fuel k deadline r1 m4)"
    using po t wt by (simp add: Let_def)
  consider "m' = m2" | "m' = AbandonTransaction k m3" | "Wait_loop fuel k deadline r1 m4 = Some (b, r', m')"
    using run Suc.prems(2) by (auto split: if_splits)
  then show ?case
    using f Suc.IH [OF g4] R_trans by cases blast+
qed simp

lemma WaitForTransaction_R:
  assumes "good m" "WaitForTransaction fuel k t r m = Some (b, r', m')"
  shows "R m m'"
proof -
  obtain now m1 where n: "mgr_now m = (now, m1)" by fastforce
  then have "Wait_loop fuel k (now + t) r m1 = Some (b, r', m')" using assms(2) by (simp add: WaitForTransaction_def)
  from Wait_loop_R [OF mgr_now_good [OF n assms(1)] this] show ?thesis
    using R_trans R_watch [OF keeps_watch(5) [OF n]] by blast
qed

lemma IsUserOnline_R:
  assumes "good m" "IsUserOnline fuel user m = Some (b, m')"
  shows "R m m'"
proof -
  obtain valid u where fs: "BabelUIN_FromString user = (valid, u)" by fastforce
  show ?thesis
  proof (cases "valid \<and> Online m \<and> u \<noteq> myUserUIN m \<and> myPresence m user = None")
    case False
    then have "m' = m" using assms by (auto simp: IsUserOnline_def fs split: if_splits option.splits)
    then show ?thesis by (simp add: R_watch)
  next
    case True
    define m0 where "m0 = m\<lparr>myCurrentAction := ''Checking whether '' @ user @ '' is online''\<rparr>"
    obtain t m1 where st: "StartTransaction TRANS_CONNECTION_DETAIL 0 m0 = (t, m1)" by fastforce
    obtain ok m2 where w: "sock_Write (BuildGetConnectionDetail (myServerUIN m1) u t) m1 = (ok, m2)" by fastforce
    have "ready m0" using assms(1) True ready_Online by (simp add: m0_def)
    from request_written [OF this st _ w] have g2: "good m2" "watch m2 = watch m" by (simp_all add: m0_def)
    have "Some (b, m') = (if \<not> ok then Some (False, (AbandonTransaction t m2)\<lparr>myCurrentAction := []\<rparr>)
        else case WaitForTransaction fuel t USER_ONLINE_TIMEOUT_MS Transaction_new m2 of None \<Rightarrow> None
          | Some (c, r, m) \<Rightarrow> Some (c \<and> t_success r, m\<lparr>myCurrentAction := []\<rparr>))"
      using assms(2) True w by (simp add: IsUserOnline_def fs st Let_def del: append.simps flip: m0_def split: if_splits)
    then consider "m' = (AbandonTransaction t m2)\<lparr>myCurrentAction := []\<rparr>"
      | c r m3 where "WaitForTransaction fuel t USER_ONLINE_TIMEOUT_MS Transaction_new m2 = Some (c, r, m3)"
        "m' = m3\<lparr>myCurrentAction := []\<rparr>" by (auto split: if_splits option.splits)
    then show ?thesis
    proof cases
      case 1
      then show ?thesis using g2(2) by (simp add: R_watch keeps_watch(3))
    next
      case 2
      have "R m m3" using WaitForTransaction_R [OF g2(1) 2(1)] R_watch [OF g2(2)] R_trans by blast
      then show ?thesis by (rule R_right) (simp add: 2(2))
    qed
  qed
qed

lemma DSFeedHistory_R:
  assumes "good m" "DSFeedHistory fuel data sz m = Some (b, m')"
  shows "R m m'"
proof (cases "\<not> Online m \<or> data = None \<or> sint sz \<le> 0")
  case True
  then have "m' = m" using assms(2) by (auto simp: DSFeedHistory_def split: if_splits)
  then show ?thesis by (simp add: R_watch)
next
  case False
  define m0 where "m0 = m\<lparr>myCurrentAction := ''Uploading creature history''\<rparr>"
  obtain t m1 where st: "StartTransaction TRANS_FEED_HISTORY 0 m0 = (t, m1)" by fastforce
  show ?thesis
  proof (cases "read_cint_bytes (the data) 0 sz")
    case None
    then have "m' = set_fault OutOfBounds m1" using assms(2) False by (simp add: DSFeedHistory_def st Let_def flip: m0_def split: if_splits)
    then show ?thesis using keeps_watch(2) [OF st] by (simp add: R_watch keeps_watch(8) m0_def)
  next
    case (Some blob)
    obtain ok m2 where w: "sock_Write (BuildFeedHistory (myServerUIN m1) (myUserUIN m1) t blob) m1 = (ok, m2)" by fastforce
    have "ready m0" using assms(1) False ready_Online by (simp add: m0_def)
    from request_written [OF this st _ w] have g2: "good m2" "watch m2 = watch m" by (simp_all add: m0_def)
    have "Some (b, m') = (if \<not> ok then Some (False, ConnectionLost ((AbandonTransaction t m2)\<lparr>myCurrentAction := []\<rparr>))
        else case WaitForTransaction fuel t HISTORY_TIMEOUT_MS Transaction_new m2 of None \<Rightarrow> None
          | Some (c, r, m) \<Rightarrow> Some (c \<and> t_success r, m\<lparr>myCurrentAction := []\<rparr>))"
      using assms(2) False Some w by (simp add: DSFeedHistory_def st Let_def flip: m0_def split: if_splits)
    then consider "m' = ConnectionLost ((AbandonTransaction t m2)\<lparr>myCurrentAction := []\<rparr>)"
      | c r m3 where "WaitForTransaction fuel t HISTORY_TIMEOUT_MS Transaction_new m2 = Some (c, r, m3)"
        "m' = m3\<lparr>myCurrentAction := []\<rparr>" by (auto split: if_splits option.splits)
    then show ?thesis
    proof cases
      case 1
      then show ?thesis using g2(2) by (simp add: R_then_lost keeps_watch(3))
    next
      case 2
      have "R m m3" using WaitForTransaction_R [OF g2(1) 2(1)] R_watch [OF g2(2)] R_trans by blast
      then show ?thesis by (rule R_right) (simp add: 2(2))
    qed
  qed
qed

text \<open>The polled calls: either they only send, or they pump first.\<close>

lemma FetchUserData_R:
  assumes "good m" "FetchUserData user m = (nick, block, m')"
  shows "R m m'"
proof (cases "myPendingUserFetches m user = None")
  case True
  have "watch m' = watch m"
    using assms(2) True by (auto simp: FetchUserData_def Let_def keeps_watch(3) split: if_splits prod.splits dest!: keeps_watch(2,5,7))
  then show ?thesis by (rule R_watch)
next
  case False
  have "watch m' = watch (Pump m) \<or> m' = m"
    using assms(2) False by (auto simp: FetchUserData_def Let_def keeps_watch(3,8) split: if_splits prod.splits option.splits dest!: keeps_watch(4,5))
  then show ?thesis using R_after_Pump [OF assms(1)] R_watch by blast
qed

lemma DSFetchRandomUser_R:
  assumes "good m" "DSFetchRandomUser m = (user, block, m')"
  shows "R m m'"
proof (cases "q_ticket (myRandomUserQuery m) = 0")
  case True
  have "watch m' = watch m"
    using assms(2) True by (auto simp: DSFetchRandomUser_def Let_def keeps_watch(3) split: if_splits prod.splits dest!: keeps_watch(2,5,7))
  then show ?thesis by (rule R_watch)
next
  case False
  have "watch m' = watch (Pump m)"
    using assms(2) False by (auto simp: DSFetchRandomUser_def Let_def keeps_watch(3) split: if_splits prod.splits dest!: keeps_watch(4,5))
  then show ?thesis by (rule R_after_Pump [OF assms(1)])
qed

lemma DSFetchRandomUser_blocking_R:
  "good m \<Longrightarrow> DSFetchRandomUser_blocking fuel m = Some (user, m') \<Longrightarrow> R m m'"
proof (induction fuel arbitrary: m)
  case (Suc fuel)
  obtain u b m1 where r: "DSFetchRandomUser m = (u, b, m1)" by (metis prod_cases3)
  show ?case
    using Suc.IH [OF DSFetchRandomUser_good [OF Suc.prems(1) r]] DSFetchRandomUser_R [OF Suc.prems(1) r] Suc.prems(2) r R_trans
    by (auto split: if_splits)
qed simp

lemma GetStatus_R:
  assumes "good m" "GetStatus out m = (out', block, m')"
  shows "R m m'"
proof (cases "Online m \<and> q_ticket (myStatusQuery m) \<noteq> 0")
  case False
  have "watch m' = watch m"
    using assms(2) False by (auto simp: GetStatus_def Let_def keeps_watch(3) split: if_splits prod.splits dest!: keeps_watch(2,5,7))
  then show ?thesis by (rule R_watch)
next
  case True
  have "watch m' = watch (Pump m)"
    using assms(2) True by (auto simp: GetStatus_def Let_def keeps_watch(3) split: if_splits prod.splits dest!: keeps_watch(4,5))
  then show ?thesis by (rule R_after_Pump [OF assms(1)])
qed

lemma PostDirectMessage_R: "PostDirectMessage user data sz m = (ok, m') \<Longrightarrow> R m m'"
  by (auto simp: PostDirectMessage_def Let_def keeps_watch(8) split: if_splits prod.splits option.splits
      intro: R_watch R_then_lost dest!: keeps_watch(7))

lemma SendOutboxFile_R:
  assumes "SendOutboxFile path m = (ok, m')"
  shows "R m m'"
proof -
  obtain rd contents w where r: "ReadWholeFile path [] (myOs m) = (rd, contents, w)" by (metis prod_cases3)
  let ?p = "pray_payload contents" and ?m = "m\<lparr>myOs := w\<rparr>"
  obtain b m1 where po: "PostDirectMessage (UserFromSpoolName (BaseName path)) ?p (of_nat (length ?p)) ?m = (b, m1)" by fastforce
  have f: "R m m1" using PostDirectMessage_R [OF po] R_trans R_watch [of ?m m] by simp
  have "watch m' = watch m \<or> watch m' = watch m1"
    using assms r po by (auto simp: SendOutboxFile_def Let_def split: if_splits prod.splits dest!: keeps_watch(6))
  then show ?thesis using R_watch R_right [OF f] by blast
qed

lemma SendOutboxFiles_R: "R m (SendOutboxFiles names m)"
proof (induction names arbitrary: m)
  case (Cons name names)
  obtain ok m1 where s: "SendOutboxFile (myOutboxDirectory m @ name) m = (ok, m1)" by fastforce
  show ?case using SendOutboxFile_R [OF s] Cons.IH [of m1] R_trans s by (auto intro: R_watch)
qed (simp add: R_watch)

lemma ScanOutbox_R: "R m (ScanOutbox m)"
proof -
  obtain now m1 where t: "mgr_now m = (now, m1)" by fastforce
  let ?m1 = "m1\<lparr>myOutboxDirty := False, myNextOutboxScan := now + OUTBOX_RESCAN_MS\<rparr>"
  obtain names m2 where l: "os_op (ListFilesWithExtension (myOutboxDirectory ?m1) ''.warp'') ?m1 = (names, m2)" by fastforce
  have "watch m2 = watch m" "watch m1 = watch m"
    using keeps_watch(5) [OF t] keeps_watch(6) [OF l] by simp_all
  then have "R m m2" "R m m1" "R m m" by (simp_all add: R_watch)
  then show ?thesis
    using R_trans [OF _ SendOutboxFiles_R [of m2 names]] t l by (auto simp: ScanOutbox_def Let_def)
qed

text \<open>All of them, in any order, and the tick.\<close>

lemma plain_call_R:
  assumes "plain_call m m'" "good m"
  shows "R m m'"
  using assms(1)
proof cases
  case (outbox_filename user path)
  then show ?thesis
    by (auto simp: ReturnUniqueOutboxFilename_def Let_def keeps_watch(8) split: if_splits prod.splits option.splits
        intro!: R_watch dest!: keeps_watch(6))
next
  case disconnect
  then show ?thesis using R_disconnect by simp
qed (use assms(2) in \<open>auto simp: setter_defs intro: R_watch IsUserOnline_R
    FetchUserData_R DSFetchRandomUser_R DSFetchRandomUser_blocking_R GetStatus_R PostDirectMessage_R DSFeedHistory_R\<close>)

lemma plain_calls_R:
  "plain_call\<^sup>*\<^sup>* m m' \<Longrightarrow> good m \<Longrightarrow> R m m'"
proof (induction rule: rtranclp_induct)
  case (step a b)
  have "good a" using plain_calls_good [OF step.hyps(1) step.prems] .
  then show ?case using step plain_call_R R_trans by blast
qed (simp add: R_watch)

lemma SendOrdinaryMessages_R:
  assumes "good m" "\<And>q m. good m \<Longrightarrow> R m (qsend q m)"
  shows "R m (SendOrdinaryMessages qsend m)"
proof -
  let ?m1 = "Pump m"
  have g1: "good ?m1" using assms(1) by (rule Pump_good)
  have "R ?m1 (ProcessQueuedMessages qsend ?m1)"
  proof (cases "myQueuedMessages ?m1")
    case (Cons q qs)
    let ?m2 = "?m1\<lparr>myQueuedMessages := qs\<rparr>"
    have "R ?m1 (qsend q ?m2)" using R_trans [OF R_watch [of ?m2 ?m1]] assms(2) [of ?m2 q] g1 by simp
    then show ?thesis using Cons by (auto simp: ProcessQueuedMessages_def Let_def intro: R_right)
  qed (simp add: ProcessQueuedMessages_def R_watch)
  then have "R m (ProcessQueuedMessages qsend ?m1)" using R_Pump [OF assms(1)] R_trans by blast
  then show ?thesis using R_trans [OF _ ScanOutbox_R] by (simp add: SendOrdinaryMessages_def Let_def)
qed

end

end
