(* ===== verification/NetSystem.thy ===== *)
theory NetSystem imports NetCalls
begin

text \<open>
  The abstract machine of the connection phases, which every public operation follows.
\<close>

section \<open>The machine of the connection phases\<close>

text \<open>
  \<open>dial\<close> starts an attempt to connect; \<open>session_step\<close> is what happens to a session without
  dialling: the attempt gets on or is given up, the connection is lost.
\<close>

inductive dial :: "ConnectPhase \<Rightarrow> ConnectPhase \<Rightarrow> bool" where
  dialled: "p \<in> {PHASE_IDLE, PHASE_FAILED, PHASE_ONLINE} \<Longrightarrow> dial p PHASE_CONNECTING"
| dial_failed: "p \<in> {PHASE_IDLE, PHASE_FAILED, PHASE_ONLINE} \<Longrightarrow> dial p PHASE_FAILED"

inductive session_step :: "ConnectPhase \<Rightarrow> ConnectPhase \<Rightarrow> bool" where
  established: "session_step PHASE_CONNECTING PHASE_AWAIT_HANDSHAKE"
| gave_up: "p \<in> {PHASE_CONNECTING, PHASE_AWAIT_HANDSHAKE} \<Longrightarrow> session_step p PHASE_FAILED"
| accepted: "session_step PHASE_AWAIT_HANDSHAKE PHASE_ONLINE"
| lost: "session_step p PHASE_IDLE"

inductive_simps session_step_online: "session_step p PHASE_ONLINE"
inductive_cases session_stepE: "session_step p q"

text \<open>Where a session can get to; without dialling, only a waiting manager gets online.\<close>

lemma session_ends:
  "session_step\<^sup>*\<^sup>* p q \<Longrightarrow> p \<in> {PHASE_IDLE, PHASE_FAILED, PHASE_ONLINE} \<Longrightarrow> q = p \<or> q = PHASE_IDLE"
  by (induction rule: rtranclp_induct) (auto elim: session_stepE)

lemma session_from:
  "session_step\<^sup>*\<^sup>* PHASE_IDLE q \<longleftrightarrow> q = PHASE_IDLE"
  "session_step\<^sup>*\<^sup>* PHASE_FAILED q \<longleftrightarrow> q \<in> {PHASE_FAILED, PHASE_IDLE}"
  "session_step\<^sup>*\<^sup>* PHASE_ONLINE q \<longleftrightarrow> q \<in> {PHASE_ONLINE, PHASE_IDLE}"
  using session_ends [of PHASE_IDLE q] session_ends [of PHASE_FAILED q] session_ends [of PHASE_ONLINE q] lost
  by auto

lemma connect_moves_session:
  assumes "connect_moves p q" "p = PHASE_CONNECTING \<or> p = PHASE_AWAIT_HANDSHAKE"
  shows "session_step\<^sup>*\<^sup>* p q"
proof -
  have "session_step\<^sup>*\<^sup>* PHASE_CONNECTING PHASE_ONLINE"
    using established accepted by (meson converse_rtranclp_into_rtranclp r_into_rtranclp)
  then show ?thesis using assms lost gave_up [of p] established accepted by (auto simp: connect_moves_def)
qed

definition follows :: "mgr \<Rightarrow> mgr \<Rightarrow> bool" where
  "follows m m' \<longleftrightarrow> session_step\<^sup>*\<^sup>* (myConnectPhase m) (myConnectPhase m')"

lemma follows_same: "myConnectPhase m' = myConnectPhase m \<Longrightarrow> follows m m'"
  by (simp add: follows_def)

lemma follows_trans: "follows a b \<Longrightarrow> follows b c \<Longrightarrow> follows a c"
  by (auto simp: follows_def)

lemma follows_over: "session_over m' \<Longrightarrow> follows m m'"
  using lost by (auto simp: follows_def session_over_def)

lemma follows_PumpConnectPhase:
  assumes "good m" "waiting m"
  shows "follows m (PumpConnectPhase m)"
  using PumpConnectPhase_ok [of m] assms by (auto simp: follows_def good_def waiting_def intro: connect_moves_session)

lemma follows_Pump:
  assumes "good m"
  shows "follows m (Pump m)"
proof -
  have ok: "mgr_ok m" using assms by (simp add: good_def)
  consider "waiting m" | "myConnectPhase m = PHASE_ONLINE" | "myConnectPhase m = PHASE_IDLE \<or> myConnectPhase m = PHASE_FAILED"
    by (cases "myConnectPhase m") (auto simp: waiting_def)
  then show ?thesis
  proof cases
    case 1
    then show ?thesis using follows_PumpConnectPhase [OF assms] by (simp add: Pump_def waiting_def)
  next
    case 2
    obtain alive m1 where op: "sock_op SocketPump m = (alive, m1)" by fastforce
    note pp = pump_and_process [OF ok op]
    have "myConnectPhase (ProcessInput m1) = PHASE_ONLINE \<or> myConnectPhase (ProcessInput m1) = PHASE_IDLE"
      using pp(2,3) 2 by (auto simp: input_moves_def)
    moreover have "Pump m = (if \<not> alive \<and> myConnectPhase (ProcessInput m1) = PHASE_ONLINE
        then ConnectionLost (ProcessInput m1) else ProcessInput m1)"
      using 2 op by (simp add: Pump_def Let_def)
    ultimately show ?thesis
      using 2 ConnectionLost_session_over [of "ProcessInput m1"] lost by (auto simp: follows_def session_over_def)
  next
    case 3
    then show ?thesis by (auto simp: Pump_def intro: follows_same)
  qed
qed

text \<open>So every call of the contract follows the machine.\<close>

interpretation phases: session_relation follows
proof
  show "follows a c" if "follows a b" "follows b c" for a b c using follows_trans that .
  show "follows m m'" if "watch m' = watch m" for m m' using follows_same watch_phase [OF that] .
qed (rule follows_Pump follows_over [OF ConnectionLost_session_over] follows_over [OF Disconnect_session_over]; assumption?)+

text \<open>Getting connected dials at most once.\<close>

definition dials_once :: "mgr \<Rightarrow> mgr \<Rightarrow> bool" where
  "dials_once m m' \<longleftrightarrow> follows m m' \<or> (\<exists>p. dial (myConnectPhase m) p \<and> session_step\<^sup>*\<^sup>* p (myConnectPhase m'))"

lemma ConnectInBackground_dials:
  assumes "good m" "ConnectInBackground users m = (block, m')"
  shows "if waiting m \<or> Online m then follows m m' else dial (myConnectPhase m) (myConnectPhase m')"
proof (cases "waiting m \<or> Online m")
  case True
  then show ?thesis
    using assms follows_PumpConnectPhase [OF assms(1)]
    by (auto simp: ConnectInBackground_def Let_def waiting_def Online_def intro: follows_same)
next
  case False
  then have p: "myConnectPhase m \<in> {PHASE_IDLE, PHASE_FAILED, PHASE_ONLINE}" by (cases "myConnectPhase m") (auto simp: waiting_def)
  have m': "m' = StartConnecting (m\<lparr>myUsersForWWR := users\<rparr>)"
    using assms(2) False p by (auto simp: ConnectInBackground_def waiting_def Let_def)
  have "myConnectPhase m' = PHASE_CONNECTING \<or> myConnectPhase m' = PHASE_FAILED"
    using StartConnecting_ok [of "m\<lparr>myUsersForWWR := users\<rparr>"] assms(1) unfolding m' by (simp add: good_def)
  then show ?thesis using False dialled [OF p] dial_failed [OF p] by (elim disjE) simp_all
qed

lemma Connect_dials:
  assumes "good m" "Connect fuel m = Some (ok, m')"
  shows "dials_once m m'"
proof -
  have w: "follows n n'" if "good n" "waiting n" "Connect k n = Some (ok, n')" for k n n'
    using that
  proof (induction k arbitrary: n)
    case (Suc k)
    obtain block n1 where c: "ConnectInBackground [] n = (block, n1)" by fastforce
    have 1: "follows n n1" using ConnectInBackground_dials [OF Suc.prems(1) c] Suc.prems(2) by simp
    have g: "good n1" "block \<longleftrightarrow> waiting n1"
      using ConnectInBackground_ok [OF _ _ c] Suc.prems(1) goes_ok by (auto simp: good_def waiting_def)
    show ?case using Suc.IH [OF g(1)] g(2) Suc.prems(3) c 1 follows_trans by (auto split: if_splits)
  qed simp
  obtain k where k: "fuel = Suc k" using assms(2) by (cases fuel) auto
  obtain block m1 where c: "ConnectInBackground [] m = (block, m1)" by fastforce
  have g: "good m1" "block \<longleftrightarrow> waiting m1"
    using ConnectInBackground_ok [OF _ _ c] assms(1) goes_ok by (auto simp: good_def waiting_def)
  have "follows m1 m'" using assms(2) k c g w by (auto split: if_splits intro: follows_same)
  then show ?thesis
    using ConnectInBackground_dials [OF assms(1) c] follows_trans by (auto simp: dials_once_def follows_def split: if_splits)
qed

section \<open>Every call follows the machine\<close>

lemmas keeps_phase = keeps_watch [THEN watch_phase]

lemma AddToWWR_follows:
  assumes "good m" "AddToWWR user m = (block, m')"
  shows "follows m m'"
proof -
  let ?m = "m\<lparr>myWWRMembers := insert user (myWWRMembers m)\<rparr>"
  have "myConnectPhase m' = myConnectPhase m \<or> myConnectPhase m' = myConnectPhase (Pump ?m)"
    using assms(2) by (auto simp: AddToWWR_def Let_def split: if_splits prod.splits option.splits dest!: keeps_phase(5,7))
  then show ?thesis using follows_Pump [OF good_members [OF assms(1)], of user] by (auto simp: follows_def)
qed

lemma RemoveFromWWR_follows: "follows m (RemoveFromWWR user m)"
proof -
  have "myConnectPhase (snd (sock_Write data n)) = myConnectPhase n" for data n
    using keeps_phase(7) [of data n] by (cases "sock_Write data n") simp
  then show ?thesis by (auto simp: RemoveFromWWR_def Let_def split: prod.split intro!: follows_same)
qed

lemma NextChangedUserWWR_follows: "NextChangedUserWWR m = (x, m') \<Longrightarrow> follows m m'"
  by (auto simp: NextChangedUserWWR_def Let_def split: list.splits intro!: follows_same)

lemma GetMessages_follows: "GetMessages m = (users, types, messages, m') \<Longrightarrow> good m \<Longrightarrow> follows m m'"
  using follows_Pump [of m] by (auto simp: GetMessages_def Let_def follows_def)

lemma quiet_call_follows: "quiet_call m m' \<Longrightarrow> good m \<Longrightarrow> follows m m'"
  by (induction rule: quiet_call.induct)
    (use phases.plain_call_R AddToWWR_follows RemoveFromWWR_follows NextChangedUserWWR_follows GetMessages_follows in blast)+

lemma connecting_call_dials:
  assumes "connecting_call m m'" "good m"
  shows "dials_once m m'"
  using assms(1)
proof cases
  case (connect_in_background users block)
  then show ?thesis using ConnectInBackground_dials [OF assms(2) connect_in_background]
    by (auto simp: dials_once_def split: if_splits)
next
  case (connect fuel ok)
  then show ?thesis using Connect_dials [OF assms(2)] by blast
qed

text \<open>A queued message that does not connect: none of its public calls does.\<close>

definition never_dials :: "(qmsg \<Rightarrow> mgr \<Rightarrow> mgr) \<Rightarrow> bool" where
  "never_dials qsend \<longleftrightarrow> (\<forall>q m. quiet_call\<^sup>*\<^sup>* m (qsend q m))"

lemma quiet_calls_follow:
  assumes "quiet_call\<^sup>*\<^sup>* m m'" "good m"
  shows "follows m m' \<and> good m'"
  using assms(1)
proof (induction rule: rtranclp_induct)
  case base
  then show ?case using assms(2) by (simp add: follows_same)
next
  case (step a b)
  then show ?case using quiet_call_follows quiet_call_good follows_trans by blast
qed

lemma api_step_follows:
  assumes "api_step qsend m m'" "never_dials qsend" "good m" "\<not> connecting_call m m'"
  shows "follows m m'"
  using assms(1)
proof cases
  case call
  then show ?thesis using quiet_call_follows assms(3,4) by (auto simp: call_step_def)
next
  case tick
  then show ?thesis
    using phases.SendOrdinaryMessages_R [OF assms(3), of qsend] assms(2) quiet_calls_follow by (auto simp: never_dials_def)
qed

end
