(* ===== verification/NetWatch.thy ===== *)
theory NetWatch imports NetSystem
begin

text \<open>
  The game's picture of who is online, kept up by the calls of the register.

  The game knows a state for each user it tracks: what it found when \<open>AddToWWR\<close> was done, and
  since then what \<open>NextChangedUserWWR\<close> told it.  \<open>game_step\<close> is one public call together with
  what the game learns from it.  \<open>in_step\<close> relates the picture to the manager, and every step
  within an online session keeps it, by the contract \<open>session_relation\<close> of \<open>NetCalls\<close>.
\<close>

section \<open>Nothing is lost on the way to the queue\<close>

text \<open>
  From one state to the next the phase is kept, the register only grows, no registration becomes pending
  or gets another deadline, no queued change is dropped, and a watched user whose state is
  another is queued.
\<close>

definition told :: "mgr \<Rightarrow> mgr \<Rightarrow> bool" where
  "told m m' \<longleftrightarrow> myConnectPhase m' = myConnectPhase m \<and> myWWRMembers m \<subseteq> myWWRMembers m'
     \<and> (\<forall>key. myPendingWWRAdds m key = None \<longrightarrow> myPendingWWRAdds m' key = None)
     \<and> myPendingWWRAdds m' \<subseteq>\<^sub>m myPendingWWRAdds m
     \<and> set (myChangedUsers m) \<subseteq> set (myChangedUsers m')
     \<and> (\<forall>key \<in> myWWRMembers m. myPendingWWRAdds m key = None \<and> known_online m' key \<noteq> known_online m key
          \<longrightarrow> key \<in> set (myChangedUsers m'))"

lemma told_trans:
  assumes "told a b" "told b c"
  shows "told a c"
proof -
  have "key \<in> set (myChangedUsers c)"
    if "key \<in> myWWRMembers a" "myPendingWWRAdds a key = None" "known_online c key \<noteq> known_online a key" for key
    using assms that by (cases "known_online b key = known_online a key") (auto simp: told_def)
  then show ?thesis using assms map_le_trans [of "myPendingWWRAdds c" "myPendingWWRAdds b" "myPendingWWRAdds a"]
    by (auto simp: told_def)
qed

lemma told_watch: "watch m' = watch m \<Longrightarrow> told m m'"
  by (simp add: told_def watch_def)

lemma told_refl [simp]: "told m m"
  by (simp add: told_watch)

lemma UpdatePresence_phase: "myConnectPhase (UpdatePresence u online nick m) = myConnectPhase m"
  by (subst UpdatePresence_frame) simp

lemma told_incoming [simp]: "told m (m\<lparr>myIncomingMessages := x\<rparr>)"
  by (simp add: told_def known_online_def)

lemma UpdatePresence_pending_le: "myPendingWWRAdds (UpdatePresence u online nick m) \<subseteq>\<^sub>m myPendingWWRAdds m"
  by (simp add: UpdatePresence_def Let_def)

lemma told_UpdatePresence [simp]: "told m (UpdatePresence u online nick m)"
  using UpdatePresence_queues [of _ m u online nick] UpdatePresence_keeps_queued [of _ m u online nick]
  by (auto simp: told_def UpdatePresence_pending UpdatePresence_phase UpdatePresence_pending_le)

text \<open>What a packet does to an online manager.\<close>

definition stays :: "mgr \<Rightarrow> mgr \<Rightarrow> bool" where
  "stays m m' \<longleftrightarrow> follows m m' \<and> (myConnectPhase m = PHASE_ONLINE \<and> myConnectPhase m' = PHASE_ONLINE \<longrightarrow> told m m')"

lemma HandlePacket_told:
  assumes "HandlePacket h body n m = (alive, m')"
  shows "told m m' \<or> \<not> alive \<and> session_over m'"
proof -
  have same: "told m n" if "watch n = watch m" for n using told_watch that .
  show ?thesis
    using assms
    by (auto simp: HandlePacket_def Let_def keeps_watch(8) watch_SpoolPrayFile ConnectionLost_session_over
        split: if_splits prod.splits option.splits intro: same dest!: keeps_watch(7) watch_NextVSN)
qed

lemma handle_frame_told:
  assumes "handle_frame h packet n m = (alive, m')" "myConnectPhase m = PHASE_ONLINE"
  shows "told m m' \<or> \<not> alive \<and> session_over m'"
  using assms HandlePacket_told
  by (auto simp: handle_frame_def HandleHandshakeResponse_def keeps_watch(8) Let_def
      split: if_splits option.splits intro!: told_watch)

lemma process_step_told:
  assumes "process_step m = (again, m')" "myConnectPhase m = PHASE_ONLINE"
  shows "told m m' \<or> \<not> again \<and> session_over m'"
proof -
  have consumed: "told m (n\<lparr>mySocket := s\<rparr>)" if "told m n" for n s
    by (rule told_trans [OF that]) (simp add: told_watch)
  show ?thesis
    using assms
    by (auto simp: process_step_def Let_def keeps_watch(8) ConnectionLost_session_over
        split: if_splits option.splits framing.splits prod.splits
        intro: told_watch consumed dest!: handle_frame_told [OF _ assms(2)])
qed

lemma ProcessInput_told:
  "myConnectPhase m = PHASE_ONLINE \<Longrightarrow> session_over (ProcessInput m) \<or> told m (ProcessInput m)"
proof -
  have "session_over (ProcessInput_loop n m) \<or> told m (ProcessInput_loop n m)"
    if "myConnectPhase m = PHASE_ONLINE" for n
    using that
  proof (induction n arbitrary: m)
    case (Suc n)
    obtain again m1 where r: "process_step m = (again, m1)" by fastforce
    then show ?case
      using process_step_told [OF r Suc.prems] Suc.IH [of m1] told_trans [of m m1] Suc.prems
      by (auto simp: told_def [of m m1])
  qed (simp add: told_watch keeps_watch(8))
  then show "myConnectPhase m = PHASE_ONLINE \<Longrightarrow> ?thesis" by (simp add: ProcessInput_def del: ProcessInput_loop.simps)
qed

lemma Pump_told:
  assumes "myConnectPhase m = PHASE_ONLINE"
  shows "session_over (Pump m) \<or> told m (Pump m)"
proof -
  obtain alive m1 where op: "sock_op SocketPump m = (alive, m1)" by fastforce
  have m1: "told m m1" using watch_socket [OF op] by (rule told_watch)
  then have "myConnectPhase m1 = PHASE_ONLINE" using assms by (simp add: told_def)
  then have "session_over (ProcessInput m1) \<or> told m1 (ProcessInput m1)" by (rule ProcessInput_told)
  moreover have "Pump m = ProcessInput m1 \<or> session_over (Pump m)"
    using assms op ConnectionLost_session_over [of "ProcessInput m1"] by (auto simp: Pump_def Let_def)
  ultimately show ?thesis using told_trans [OF m1] by auto
qed

lemma stays_Pump: "good m \<Longrightarrow> stays m (Pump m)"
  using Pump_told [of m] follows_Pump [of m] by (auto simp: stays_def session_over_def)

lemma session_left: "follows a b \<Longrightarrow> follows b c \<Longrightarrow> myConnectPhase a = PHASE_ONLINE \<Longrightarrow>
    myConnectPhase c = PHASE_ONLINE \<Longrightarrow> myConnectPhase b = PHASE_ONLINE"
  by (auto simp: follows_def session_from)

lemma stays_trans: "stays a b \<Longrightarrow> stays b c \<Longrightarrow> stays a c"
  using session_left [of a b c] told_trans [of a b c] follows_trans [of a b c] by (auto simp: stays_def)

interpretation pictures: session_relation stays
proof
  show "stays a c" if "stays a b" "stays b c" for a b c using stays_trans that .
  show "stays m m'" if "watch m' = watch m" for m m'
    using that by (simp add: stays_def told_watch phases.R_watch)
  show "stays m (ConnectionLost m)" "stays m (Disconnect m)" for m
    using phases.R_lost [of m] phases.R_disconnect [of m] ConnectionLost_session_over [of m] Disconnect_session_over [of m]
    by (simp_all add: stays_def session_over_def)
qed (rule stays_Pump)

lemma stays_GetMessages: "GetMessages m = (users, types, messages, m') \<Longrightarrow> good m \<Longrightarrow> stays m m'"
  using stays_trans [OF stays_Pump, of m m'] by (auto simp: GetMessages_def Let_def stays_def follows_same)

section \<open>What the game learns\<close>

text \<open>
  The users it tracks, and the state it last learned of each.  When a registration is done the
  game reads the user in the state that is known, or as offline when the registration timed out
  and nothing is.
\<close>

lemma IsUserOnline_known:
  "Online m \<Longrightarrow> BabelUIN_FromString user = (True, u) \<Longrightarrow> u \<noteq> myUserUIN m \<Longrightarrow> myPresence m user \<noteq> None \<Longrightarrow>
   IsUserOnline fuel user m = Some (known_online m user, m)"
  by (auto simp: IsUserOnline_def known_online_def)

record picture =
  seen :: "string \<Rightarrow> bool"
  tracked :: "string set"

definition untrack :: "string \<Rightarrow> picture \<Rightarrow> picture" where
  "untrack user g = g\<lparr>tracked := tracked g - {user}\<rparr>"

definition track :: "string \<Rightarrow> bool \<Rightarrow> picture \<Rightarrow> picture" where
  "track user online g = \<lparr>seen = (seen g)(user := online), tracked = insert user (tracked g)\<rparr>"

definition learn :: "string \<times> bool \<Rightarrow> picture \<Rightarrow> picture" where
  "learn x g = g\<lparr>seen := (seen g)(fst x := snd x)\<rparr>"

definition registered :: "string \<Rightarrow> bool \<Rightarrow> mgr \<Rightarrow> bool" where
  "registered user block m \<longleftrightarrow> \<not> block \<and> fst (BabelUIN_FromString user) \<and> Online m"

inductive game_step :: "(qmsg \<Rightarrow> mgr \<Rightarrow> mgr) \<Rightarrow> picture \<times> mgr \<Rightarrow> picture \<times> mgr \<Rightarrow> bool" for qsend where
  called: "plain_call m m' \<Longrightarrow> game_step qsend (g, m) (g, m')"
| collected: "GetMessages m = (users, types, messages, m') \<Longrightarrow> game_step qsend (g, m) (g, m')"
| ticked: "game_step qsend (g, m) (g, SendOrdinaryMessages qsend m)"
| no_news: "NextChangedUserWWR m = (None, m') \<Longrightarrow> game_step qsend (g, m) (g, m')"
| news: "NextChangedUserWWR m = (Some x, m') \<Longrightarrow> game_step qsend (g, m) (learn x g, m')"
| added: "AddToWWR user m = (block, m') \<Longrightarrow> game_step qsend (g, m)
    (if registered user block m' then track user (known_online m' user) g else untrack user g, m')"
| removed: "game_step qsend (g, m) (untrack user g, RemoveFromWWR user m)"

inductive_cases game_stepE: "game_step qsend s s'"

definition in_step :: "picture \<Rightarrow> mgr \<Rightarrow> bool" where
  "in_step g m \<longleftrightarrow> (\<forall>key \<in> tracked g. key \<in> myWWRMembers m \<and> myPendingWWRAdds m key = None
     \<and> (key \<notin> set (myChangedUsers m) \<longrightarrow> seen g key = known_online m key))"

lemma in_step_told:
  assumes "in_step g m" "told m m'"
  shows "in_step g m'"
  using assms unfolding in_step_def told_def by blast

lemma in_step_untrack: "in_step g m \<Longrightarrow> in_step (untrack user g) m"
  by (auto simp: in_step_def untrack_def)

lemma in_step_news:
  assumes "in_step g m" "NextChangedUserWWR m = (x, m')"
  shows "in_step (case x of None \<Rightarrow> g | Some y \<Rightarrow> learn y g) m'"
proof (cases "myChangedUsers m")
  case Nil
  then show ?thesis using assms by (simp add: NextChangedUserWWR_def)
next
  case (Cons user users)
  let ?m = "m\<lparr>myChangedUsers := users\<rparr>"
  have "known_online ?m = known_online m" by (simp add: fun_eq_iff known_online_def)
  moreover have "x = Some (user, known_online m user)" "m' = ?m"
    using assms(2) Cons by (auto simp: NextChangedUserWWR_def Let_def known_online_def)
  ultimately show ?thesis using assms(1) Cons by (auto simp: in_step_def learn_def)
qed

lemma in_step_RemoveFromWWR:
  assumes "in_step g m"
  shows "in_step (untrack user g) (RemoveFromWWR user m)"
proof -
  let ?m = "m\<lparr>myWWRMembers := myWWRMembers m - {user}, myPendingWWRAdds := (myPendingWWRAdds m)(user := None),
      myPresence := (myPresence m)(user := None)\<rparr>"
  have "watch (snd (sock_Write data ?m)) = watch ?m" for data
    using keeps_watch(7) [of data ?m] by (cases "sock_Write data ?m") simp
  then have "watch (RemoveFromWWR user m) = watch ?m"
    by (auto simp: RemoveFromWWR_def Let_def split: prod.split)
  moreover have "in_step (untrack user g) ?m"
    using assms by (auto simp: in_step_def untrack_def known_online_def)
  ultimately show ?thesis using in_step_told told_watch by blast
qed

lemma AddToWWR_steps:
  assumes "good m" "AddToWWR user m = (block, m')"
  obtains n where "stays m n" "m' = n \<or> block \<and> (\<exists>x. m' = n\<lparr>myPendingWWRAdds := (myPendingWWRAdds n)(user \<mapsto> x)\<rparr>)"
    "registered user block m' \<longrightarrow> user \<in> myWWRMembers m' \<and> myPendingWWRAdds m' user = None"
proof -
  obtain valid u where fs: "BabelUIN_FromString user = (valid, u)" by fastforce
  define m0 where "m0 = m\<lparr>myWWRMembers := insert user (myWWRMembers m)\<rparr>"
  have g0: "good m0" using assms(1) good_members by (simp add: m0_def)
  have s0: "stays m m0" by (auto simp: stays_def told_def m0_def follows_same known_online_def)
  have mem: "user \<in> myWWRMembers m0" by (simp add: m0_def)
  consider (invalid) "\<not> valid" | (quick) "valid" "\<not> Online m0"
    | (first) "valid" "Online m0" "myPendingWWRAdds m0 user = None"
    | (poll) "valid" "Online m0" "myPendingWWRAdds m0 user \<noteq> None" by blast
  then show thesis
  proof cases
    case invalid
    then have "m' = m" using assms(2) by (simp add: AddToWWR_def fs)
    then show thesis using invalid fs by (intro that [of m]) (simp_all add: pictures.R_watch registered_def)
  next
    case quick
    then have "m' = m0" using assms(2) by (simp add: AddToWWR_def fs Let_def flip: m0_def)
    then show thesis using quick s0 by (intro that [of m0]) (simp_all add: registered_def)
  next
    case first
    obtain ok m1 where w: "sock_Write (BuildWWRModify True (myServerUIN m0) u) m0 = (ok, m1)" by fastforce
    obtain now m2 where t: "mgr_now m1 = (now, m2)" by fastforce
    have w1: "watch m1 = watch m0" and w2: "watch m2 = watch m0"
      using keeps_watch(7) [OF w] keeps_watch(5) [OF t] by simp_all
    have s: "stays m m1" "stays m m2" using w1 w2 pictures.R_right [OF s0] by blast+
    have "AddToWWR user m = (if \<not> ok then (False, m1) else if myPresence m0 user \<noteq> None then (False, m1)
        else (True, m2\<lparr>myPendingWWRAdds := (myPendingWWRAdds m2)(user \<mapsto> now + WWR_ADD_TIMEOUT_MS)\<rparr>))"
      using first w t by (auto simp: AddToWWR_def fs Let_def simp flip: m0_def)
    moreover have "user \<in> myWWRMembers m1 \<and> myPendingWWRAdds m1 user = None"
      using w1 mem first(3) by (simp add: watch_def)
    ultimately show thesis
      using assms(2) s by (cases block) (auto simp: registered_def split: if_splits intro: that [of m1] that [of m2])
  next
    case poll
    let ?p = "Pump m0"
    obtain now m2 where t: "mgr_now ?p = (now, m2)" by fastforce
    let ?q = "m2\<lparr>myPendingWWRAdds := (myPendingWWRAdds m2)(user := None)\<rparr>"
    have sp: "stays m ?p" using stays_trans [OF s0 stays_Pump [OF g0]] .
    then have s2: "stays m m2" using pictures.R_right keeps_watch(5) [OF t] by blast
    have "told m2 ?q" by (auto simp: told_def known_online_def)
    then have sq: "stays m ?q" using stays_trans [OF s2, of ?q] by (simp add: stays_def follows_same)
    have mem': "user \<in> myWWRMembers ?p" if "myConnectPhase ?p = PHASE_ONLINE"
      using stays_Pump [OF g0] mem poll(2) that by (auto simp: stays_def told_def Online_def)
    have w: "myConnectPhase m2 = myConnectPhase ?p" "myWWRMembers m2 = myWWRMembers ?p"
      using keeps_watch(5) [OF t] by (simp_all add: watch_def)
    have run: "AddToWWR user m = (case myPendingWWRAdds ?p user of None \<Rightarrow> (False, ?p)
        | Some deadline \<Rightarrow> if TimeAfter now deadline then (False, ?q) else (True, m2))"
      using poll t by (auto simp: AddToWWR_def fs Let_def simp flip: m0_def split: option.split)
    consider "\<not> block" "m' = ?p" "myPendingWWRAdds ?p user = None" | "\<not> block" "m' = ?q" | "block" "m' = m2"
      using assms(2) unfolding run by (auto split: option.splits if_splits)
    then show thesis
    proof cases
      case 1
      then show thesis using sp mem' by (intro that [of ?p]) (auto simp: registered_def Online_def)
    next
      case 2
      then show thesis using sq mem' w by (intro that [of ?q]) (auto simp: registered_def Online_def)
    next
      case 3
      then show thesis using s2 by (intro that [of m2]) (auto simp: registered_def)
    qed
  qed
qed

lemma in_step_AddToWWR:
  assumes "good m" "AddToWWR user m = (block, m')" "in_step g m" "myConnectPhase m = PHASE_ONLINE" "myConnectPhase m' = PHASE_ONLINE"
  shows "in_step (if registered user block m' then track user (known_online m' user) g else untrack user g) m'"
proof -
  obtain n where n: "stays m n" "m' = n \<or> block \<and> (\<exists>x. m' = n\<lparr>myPendingWWRAdds := (myPendingWWRAdds n)(user \<mapsto> x)\<rparr>)"
    and r: "registered user block m' \<longrightarrow> user \<in> myWWRMembers m' \<and> myPendingWWRAdds m' user = None"
    using AddToWWR_steps [OF assms(1,2)] by blast
  have "myConnectPhase n = PHASE_ONLINE" using n(2) assms(5) by auto
  then have "in_step g n" using n(1) assms(3,4) in_step_told by (auto simp: stays_def)
  then show ?thesis
    using n(2) r by (auto simp: in_step_def track_def untrack_def known_online_def registered_def)
qed

section \<open>The picture along a run\<close>

definition sends_plainly :: "(qmsg \<Rightarrow> mgr \<Rightarrow> mgr) \<Rightarrow> bool" where
  "sends_plainly qsend \<longleftrightarrow> (\<forall>q m. plain_call\<^sup>*\<^sup>* m (qsend q m))"

lemma game_step_keeps:
  assumes "game_step qsend (g, m) (g', m')" "sends_plainly qsend" "good m"
  shows "good m'" "follows m m'"
    "in_step g m \<Longrightarrow> myConnectPhase m = PHASE_ONLINE \<Longrightarrow> myConnectPhase m' = PHASE_ONLINE \<Longrightarrow> in_step g' m'"
proof -
  have q: "good n \<Longrightarrow> good (qsend q n)" "good n \<Longrightarrow> stays n (qsend q n)" for q n
    using assms(2) plain_calls_good pictures.plain_calls_R by (auto simp: sends_plainly_def)
  have i: "in_step g m \<Longrightarrow> myConnectPhase m = PHASE_ONLINE \<Longrightarrow> myConnectPhase m' = PHASE_ONLINE \<Longrightarrow> in_step g m'"
    if "stays m m'" using that in_step_told by (simp add: stays_def)
  have "good m' \<and> follows m m' \<and> (in_step g m \<longrightarrow> myConnectPhase m = PHASE_ONLINE \<longrightarrow>
      myConnectPhase m' = PHASE_ONLINE \<longrightarrow> in_step g' m')"
    using assms(1)
  proof cases
    case called
    then show ?thesis using plain_call_good phases.plain_call_R pictures.plain_call_R assms(3) i by simp
  next
    case (collected users types messages)
    then show ?thesis using GetMessages_good GetMessages_follows stays_GetMessages assms(3) i by simp
  next
    case ticked
    have "good m'" "stays m m'"
      using SendOrdinaryMessages_good pictures.SendOrdinaryMessages_R assms(3) q unfolding ticked by blast+
    then show ?thesis using ticked(1) i by (simp add: stays_def)
  next
    case no_news
    then show ?thesis
      using NextChangedUserWWR_good NextChangedUserWWR_follows assms(3) in_step_news [OF _ no_news(2)] by auto
  next
    case (news x)
    then show ?thesis
      using NextChangedUserWWR_good NextChangedUserWWR_follows assms(3) in_step_news [OF _ news(2)] by auto
  next
    case (added user block)
    then show ?thesis
      using AddToWWR_good AddToWWR_follows assms(3) in_step_AddToWWR [OF assms(3) added(2)] by simp
  next
    case (removed user)
    then show ?thesis using RemoveFromWWR_good RemoveFromWWR_follows assms(3) in_step_RemoveFromWWR by simp
  qed
  then show "good m'" "follows m m'"
    "in_step g m \<Longrightarrow> myConnectPhase m = PHASE_ONLINE \<Longrightarrow> myConnectPhase m' = PHASE_ONLINE \<Longrightarrow> in_step g' m'"
    by simp_all
qed

lemma game_steps_keep:
  assumes "(game_step qsend)\<^sup>*\<^sup>* (g, m) (g', m')" "sends_plainly qsend" "good m" "in_step g m" "myConnectPhase m = PHASE_ONLINE"
  shows "good m' \<and> follows m m' \<and> (myConnectPhase m' = PHASE_ONLINE \<longrightarrow> in_step g' m')"
  using assms(1)
proof (induction "(g', m')" arbitrary: g' m' rule: rtranclp_induct)
  case base
  then show ?case using assms(3,4) by (simp add: follows_same)
next
  case (step s)
  obtain h n where s: "s = (h, n)" by fastforce
  note IH = step.hyps(3) [OF s] and k = game_step_keeps [OF step.hyps(2) [unfolded s] assms(2)]
  have "follows m m'" using IH k(2) follows_trans by blast
  moreover have "in_step g' m'" if "myConnectPhase m' = PHASE_ONLINE"
    using IH k session_left [OF _ _ assms(5) that] that by blast
  ultimately show ?case using IH k(1) by blast
qed

text \<open>The loop of the engine: \<open>drain_changes\<close> leaves the picture exact.\<close>

lemma learn_all:
  "seen (fold learn (map (\<lambda>user. (user, f user)) users) g) key = (if key \<in> set users then f key else seen g key)"
  by (induction users arbitrary: g) (auto simp: learn_def)

lemma learn_tracked [simp]: "tracked (fold learn xs g) = tracked g"
  by (induction xs arbitrary: g) (auto simp: learn_def)

lemma in_step_drained:
  assumes "in_step g m" "drain_changes (length (myChangedUsers m)) m = (reports, m')" "key \<in> tracked g"
  shows "seen (fold learn reports g) key = known_online m' key"
proof -
  have r: "reports = map (\<lambda>user. (user, known_online m user)) (myChangedUsers m)" "m' = m\<lparr>myChangedUsers := []\<rparr>"
    using assms(2) drain_changes_eq [of m "length (myChangedUsers m)"] by auto
  have "known_online m' = known_online m" by (rule ext) (simp add: r(2) known_online_def)
  then show ?thesis using assms(1,3) unfolding r(1) learn_all by (auto simp: in_step_def)
qed

section \<open>Property\<close>


text \<open>Two users have changed; the game learns of one, sets its nickname and then asks again.\<close>

definition example_watching :: mgr where
  "example_watching = example_online\<lparr>myWWRMembers := {''5+1'', ''6+1''}, myChangedUsers := [''5+1'', ''6+1''],
     myPresence := [''5+1'' \<mapsto> \<lparr>pr_online = True, pr_nickName = ''Ann''\<rparr>, ''6+1'' \<mapsto> \<lparr>pr_online = True, pr_nickName = []\<rparr>]\<rparr>"

definition example_picture :: picture where
  "example_picture = \<lparr>seen = (\<lambda>key. False), tracked = {''5+1'', ''6+1''}\<rparr>"


end
