(* ===== verification/NetPolling.thy ===== *)
theory NetPolling imports NetWatch
begin

text \<open>
  The calls with a \<open>bool& block\<close> parameter.  The game repeats such a call, once a tick, while
  \<open>block\<close> is true.

  \<open>polled_call\<close> is the contract: the call that asks notes a deadline, each repetition reads the
  clock and keeps the deadline, and blocks only before it.  Then repeating it ends, once the
  clock has passed the deadline.  It is interpreted on the four polled calls of \<open>NetQueries\<close>.
\<close>

section \<open>The contract\<close>

fun poll_until :: "nat \<Rightarrow> (mgr \<Rightarrow> 'r \<times> bool \<times> mgr) \<Rightarrow> mgr \<Rightarrow> ('r \<times> mgr) option" where
  "poll_until 0 poll m = None"
| "poll_until (Suc fuel) poll m = (case poll m of
     (r, block, m) \<Rightarrow> if \<not> block then Some (r, m) else poll_until fuel poll m)"

text \<open>The clock is past \<open>d\<close> at each of its readings from the \<open>i\<close>-th on.\<close>

definition past_from :: "mgr \<Rightarrow> nat \<Rightarrow> u32 \<Rightarrow> bool" where
  "past_from m i d \<longleftrightarrow> (\<forall>j \<ge> i. TimeAfter (osClock (myOs m) j) d)"

definition clock_runs :: "mgr \<Rightarrow> mgr \<Rightarrow> bool" where
  "clock_runs m m' \<longleftrightarrow> osClock (myOs m') = osClock (myOs m) \<and> osClockReads (myOs m) < osClockReads (myOs m')"

locale polled_call =
  fixes poll :: "mgr \<Rightarrow> 'r \<times> bool \<times> mgr"
    and due :: "mgr \<Rightarrow> u32 option"
    and over :: "mgr \<Rightarrow> bool"
    and timeout :: u32
  assumes poll_good: "good m \<Longrightarrow> poll m = (r, block, m') \<Longrightarrow> good m'"
    and asks: "good m \<Longrightarrow> due m = None \<Longrightarrow> poll m = (r, True, m') \<Longrightarrow>
      due m' = Some (osClock (myOs m) (osClockReads (myOs m)) + timeout) \<and> clock_runs m m'"
    and waits: "good m \<Longrightarrow> due m = Some d \<Longrightarrow> poll m = (r, True, m') \<Longrightarrow>
      due m' = Some d \<and> clock_runs m m' \<and> \<not> past_from m (osClockReads (myOs m)) d"
    and ends: "good m \<Longrightarrow> poll m = (r, False, m') \<Longrightarrow> over m'"
begin

lemma pending_ends:
  "good m \<Longrightarrow> due m = Some d \<Longrightarrow> past_from m (osClockReads (myOs m) + n) d \<Longrightarrow>
   \<exists>r m'. poll_until (Suc n) poll m = Some (r, m') \<and> good m' \<and> over m'"
proof (induction n arbitrary: m)
  case (0 m)
  obtain r block m1 where p: "poll m = (r, block, m1)" by (metis prod_cases3)
  then have "\<not> block" using waits [OF 0(1,2)] 0(3) by (cases block) auto
  then show ?case using p poll_good [OF 0(1) p] ends [OF 0(1)] by simp
next
  case (Suc n m)
  obtain r block m1 where p: "poll m = (r, block, m1)" by (metis prod_cases3)
  show ?case
  proof (cases block)
    case False
    then show ?thesis using p poll_good [OF Suc.prems(1) p] ends [OF Suc.prems(1)] by simp
  next
    case True
    have w: "due m1 = Some d" "clock_runs m m1" using waits [OF Suc.prems(1,2)] p True by auto
    then have "past_from m1 (osClockReads (myOs m1) + n) d" using Suc.prems(3) by (simp add: past_from_def clock_runs_def)
    from Suc.IH [OF poll_good [OF Suc.prems(1) p] w(1) this] show ?thesis using p True by simp
  qed
qed

lemma polling_ends:
  assumes "good m" "due m = None"
    and "past_from m (osClockReads (myOs m) + Suc n) (osClock (myOs m) (osClockReads (myOs m)) + timeout)"
  shows "\<exists>r m'. poll_until (Suc (Suc n)) poll m = Some (r, m') \<and> good m' \<and> over m'"
proof -
  obtain r block m1 where p: "poll m = (r, block, m1)" by (metis prod_cases3)
  note g = poll_good [OF assms(1) p]
  show ?thesis
  proof (cases block)
    case False
    then show ?thesis using p g ends [OF assms(1)] by simp
  next
    case True
    have a: "due m1 = Some (osClock (myOs m) (osClockReads (myOs m)) + timeout)" "clock_runs m m1"
      using asks [OF assms(1,2)] p True by auto
    then have "past_from m1 (osClockReads (myOs m1) + n) (osClock (myOs m) (osClockReads (myOs m)) + timeout)"
      using assms(3) by (simp add: past_from_def clock_runs_def)
    from pending_ends [OF g a(1) this] show ?thesis using p True by simp
  qed
qed

end

section \<open>What the four calls share\<close>

lemma clock_runs_reading:
  assumes "mgr_now m = (now, m1)" "os_clock (myOs m') = os_clock (myOs m1)"
  shows "clock_runs m m'" "now = osClock (myOs m) (osClockReads (myOs m))"
  using mgr_now_fields [OF assms(1)] assms(2) by (simp_all add: clock_runs_def os_clock_def)

lemma sock_Write_clock: "sock_Write data m = (ok, m') \<Longrightarrow> os_clock (myOs m') = os_clock (myOs m)"
  using sock_Write_frame [of data m ok m'] by (simp add: os_rest_def os_clock_def)

text \<open>One pass of a polled query: pump, look for the response, look at the clock.\<close>

lemma poll_runs:
  assumes "good m" "PollTransaction k r (Pump m) = (c, r', p, m1)" "mgr_now m1 = (now, m2)"
  shows "clock_runs m m2" "query_part m1 = query_part m" "query_part m2 = query_part m"
    "\<not> TimeAfter now d \<Longrightarrow> \<not> past_from m (osClockReads (myOs m)) d"
proof -
  note pp = poll_pass [OF assms]
  show "clock_runs m m2" using pp(5-8) by (simp add: clock_runs_def)
  show "query_part m1 = query_part m" "query_part m2 = query_part m" using pp(1,3) by (simp_all add: goes_def)
  show "\<not> past_from m (osClockReads (myOs m)) d" if "\<not> TimeAfter now d" using that pp(5,6) by (auto simp: past_from_def)
qed

lemma keeps_queries:
  "StartTransaction kind extra m = (k, m') \<Longrightarrow> k \<noteq> 0 \<and> myOs m' = myOs m \<and> query_part m' = query_part m"
  "mgr_now m = (now, m') \<Longrightarrow> query_part m' = query_part m"
  "sock_Write data m = (ok, m') \<Longrightarrow> query_part m' = query_part m"
  "query_part (AbandonTransaction k m) = query_part m"
  by (auto simp: StartTransaction_eq next_ticket_number_nonzero query_part_def mgr_now_eq sock_Write_eq
      AbandonTransaction_def split: option.split)

definition query_due :: "PendingQuery \<Rightarrow> u32 option" where
  "query_due q = (if q_ticket q = 0 then None else Some (q_deadline q))"

section \<open>The random user\<close>

lemma random_user_asks:
  assumes "q_ticket (myRandomUserQuery m) = 0" "DSFetchRandomUser m = (r, True, m')"
  shows "query_due (myRandomUserQuery m') = Some (osClock (myOs m) (osClockReads (myOs m)) + QUERY_TIMEOUT_MS) \<and> clock_runs m m'"
proof -
  let ?a = "m\<lparr>myCurrentAction := ''Fetching a random online user''\<rparr>"
  have on: "Online m" using assms by (auto simp: DSFetchRandomUser_def split: if_splits)
  obtain k m1 where st: "StartTransaction TRANS_RANDOM_USER 0 ?a = (k, m1)" by fastforce
  let ?b = "m1\<lparr>myRandomUserQuery := (myRandomUserQuery m1)\<lparr>q_ticket := k\<rparr>\<rparr>"
  obtain now m2 where nw: "mgr_now ?b = (now, m2)" by fastforce
  let ?c = "m2\<lparr>myRandomUserQuery := (myRandomUserQuery m2)\<lparr>q_deadline := now + QUERY_TIMEOUT_MS\<rparr>\<rparr>"
  obtain ok m3 where w: "sock_Write (BuildFetchRandomUser (myServerUIN ?c) (myUserUIN ?c) (q_ticket (myRandomUserQuery ?c))) ?c = (ok, m3)"
    by fastforce
  have m': "m' = m3" using assms on st nw w by (auto simp: DSFetchRandomUser_def Let_def split: if_splits)
  note k = keeps_queries(1) [OF st]
  have "myRandomUserQuery m2 = myRandomUserQuery ?b" "myRandomUserQuery m3 = myRandomUserQuery ?c"
    using keeps_queries(2) [OF nw] keeps_queries(3) [OF w] by (simp_all add: query_part_def)
  moreover have "os_clock (myOs m3) = os_clock (myOs m2)" using sock_Write_clock [OF w] by simp
  from clock_runs_reading [OF nw this] have "clock_runs m m3" "now = osClock (myOs m) (osClockReads (myOs m))"
    using k by (simp_all add: clock_runs_def)
  ultimately show ?thesis using m' k by (simp add: query_due_def)
qed

lemma random_user_waits:
  assumes "good m" "q_ticket (myRandomUserQuery m) \<noteq> 0" "DSFetchRandomUser m = (r, block, m')"
  shows "if block then myRandomUserQuery m' = myRandomUserQuery m \<and> clock_runs m m'
        \<and> \<not> past_from m (osClockReads (myOs m)) (q_deadline (myRandomUserQuery m))
      else myRandomUserQuery m' = PendingQuery_new"
proof -
  have q: "myRandomUserQuery (Pump m) = myRandomUserQuery m" using query_parts [OF Pump_query [OF assms(1)]] by simp
  obtain c r' p m1 where po: "PollTransaction (q_ticket (myRandomUserQuery m)) Transaction_new (Pump m) = (c, r', p, m1)"
    by (metis prod_cases4)
  obtain now m2 where nw: "mgr_now m1 = (now, m2)" by fastforce
  note pr = poll_runs [OF assms(1) po nw]
  have "myRandomUserQuery m2 = myRandomUserQuery m" using query_parts [OF pr(3)] by simp
  then show ?thesis using assms(2,3) q po nw pr(1,4) by (auto simp: DSFetchRandomUser_def Let_def split: if_splits)
qed

interpretation random_user: polled_call DSFetchRandomUser "\<lambda>m. query_due (myRandomUserQuery m)"
  "\<lambda>m. q_ticket (myRandomUserQuery m) = 0" QUERY_TIMEOUT_MS
proof
  fix m m' r block d
  show "good m'" if "good m" "DSFetchRandomUser m = (r, block, m')" using DSFetchRandomUser_good that .
  show "query_due (myRandomUserQuery m') = Some (osClock (myOs m) (osClockReads (myOs m)) + QUERY_TIMEOUT_MS) \<and> clock_runs m m'"
    if "query_due (myRandomUserQuery m) = None" "DSFetchRandomUser m = (r, True, m')"
    using random_user_asks [OF _ that(2)] that(1) by (simp add: query_due_def split: if_splits)
  show "query_due (myRandomUserQuery m') = Some d \<and> clock_runs m m' \<and> \<not> past_from m (osClockReads (myOs m)) d"
    if "good m" "query_due (myRandomUserQuery m) = Some d" "DSFetchRandomUser m = (r, True, m')"
    using random_user_waits [OF that(1) _ that(3)] that(2) by (simp add: query_due_def split: if_splits)
  show "q_ticket (myRandomUserQuery m') = 0" if "good m" "DSFetchRandomUser m = (r, False, m')"
  proof (cases "q_ticket (myRandomUserQuery m) = 0")
    case True
    then show ?thesis using that(2) by (auto simp: DSFetchRandomUser_def Let_def PendingQuery_new_def split: if_splits prod.splits)
  next
    case False
    then show ?thesis using random_user_waits [OF that(1) _ that(2)] by (simp add: PendingQuery_new_def)
  qed
qed

text \<open>The other \<open>DSFetchRandomUser\<close> repeats this one.\<close>

lemma blocking_polls: "DSFetchRandomUser_blocking fuel m = poll_until fuel DSFetchRandomUser m"
  by (induction fuel arbitrary: m) (simp_all split: prod.split)

section \<open>The status\<close>

lemma status_asks:
  assumes "q_ticket (myStatusQuery m) = 0" "GetStatus out m = (r, True, m')"
  shows "query_due (myStatusQuery m') = Some (osClock (myOs m) (osClockReads (myOs m)) + QUERY_TIMEOUT_MS) \<and> clock_runs m m'"
proof -
  let ?a = "m\<lparr>myCurrentAction := ''Fetching connection statistics''\<rparr>"
  have on: "Online m" using assms by (auto simp: GetStatus_def split: if_splits)
  obtain k m1 where st: "StartTransaction TRANS_STATUS 16 ?a = (k, m1)" by fastforce
  let ?b = "m1\<lparr>myStatusQuery := (myStatusQuery m1)\<lparr>q_ticket := k\<rparr>\<rparr>"
  obtain now m2 where nw: "mgr_now ?b = (now, m2)" by fastforce
  let ?c = "m2\<lparr>myStatusQuery := (myStatusQuery m2)\<lparr>q_deadline := now + QUERY_TIMEOUT_MS\<rparr>\<rparr>"
  obtain ok m3 where w: "sock_Write (BuildGetStatus (myServerUIN ?c) (q_ticket (myStatusQuery ?c))) ?c = (ok, m3)" by fastforce
  have m': "m' = m3" using assms on st nw w by (auto simp: GetStatus_def Let_def split: if_splits)
  note k = keeps_queries(1) [OF st]
  have "myStatusQuery m2 = myStatusQuery ?b" "myStatusQuery m3 = myStatusQuery ?c"
    using keeps_queries(2) [OF nw] keeps_queries(3) [OF w] by (simp_all add: query_part_def)
  moreover have "os_clock (myOs m3) = os_clock (myOs m2)" using sock_Write_clock [OF w] by simp
  from clock_runs_reading [OF nw this] have "clock_runs m m3" "now = osClock (myOs m) (osClockReads (myOs m))"
    using k by (simp_all add: clock_runs_def)
  ultimately show ?thesis using m' k by (simp add: query_due_def)
qed

lemma status_waits:
  assumes "good m" "q_ticket (myStatusQuery m) \<noteq> 0" "GetStatus out m = (r, block, m')"
  shows "if block then myStatusQuery m' = myStatusQuery m \<and> clock_runs m m'
        \<and> \<not> past_from m (osClockReads (myOs m)) (q_deadline (myStatusQuery m))
      else myStatusQuery m' = PendingQuery_new"
proof -
  have q: "myStatusQuery (Pump m) = myStatusQuery m" using query_parts [OF Pump_query [OF assms(1)]] by simp
  obtain c r' p m1 where po: "PollTransaction (q_ticket (myStatusQuery m)) Transaction_new (Pump m) = (c, r', p, m1)"
    by (metis prod_cases4)
  obtain now m2 where nw: "mgr_now m1 = (now, m2)" by fastforce
  note pr = poll_runs [OF assms(1) po nw]
  have "myStatusQuery m2 = myStatusQuery m" using query_parts [OF pr(3)] by simp
  then show ?thesis using assms(2,3) q po nw pr(1,4)
    by (auto simp: GetStatus_def Let_def mgr_now_eq split: if_splits)
qed

interpretation status: polled_call "GetStatus out" "\<lambda>m. query_due (myStatusQuery m)"
  "\<lambda>m. q_ticket (myStatusQuery m) = 0" QUERY_TIMEOUT_MS for out
proof
  fix m m' r block d
  show "good m'" if "good m" "GetStatus out m = (r, block, m')" using GetStatus_good that .
  show "query_due (myStatusQuery m') = Some (osClock (myOs m) (osClockReads (myOs m)) + QUERY_TIMEOUT_MS) \<and> clock_runs m m'"
    if "query_due (myStatusQuery m) = None" "GetStatus out m = (r, True, m')"
    using status_asks [OF _ that(2)] that(1) by (simp add: query_due_def split: if_splits)
  show "query_due (myStatusQuery m') = Some d \<and> clock_runs m m' \<and> \<not> past_from m (osClockReads (myOs m)) d"
    if "good m" "query_due (myStatusQuery m) = Some d" "GetStatus out m = (r, True, m')"
    using status_waits [OF that(1) _ that(3)] that(2) by (simp add: query_due_def split: if_splits)
  show "q_ticket (myStatusQuery m') = 0" if "good m" "GetStatus out m = (r, False, m')"
  proof (cases "q_ticket (myStatusQuery m) = 0")
    case True
    then show ?thesis using that(2) by (auto simp: GetStatus_def Let_def PendingQuery_new_def split: if_splits prod.splits)
  next
    case False
    then show ?thesis using status_waits [OF that(1) _ that(2)] by (simp add: PendingQuery_new_def)
  qed
qed

section \<open>A user's data\<close>

lemma user_data_asks:
  assumes "myPendingUserFetches m user = None" "FetchUserData user m = (r, True, m')"
  shows "map_option q_deadline (myPendingUserFetches m' user)
      = Some (osClock (myOs m) (osClockReads (myOs m)) + QUERY_TIMEOUT_MS) \<and> clock_runs m m'"
proof -
  let ?a = "m\<lparr>myCurrentAction := ''Fetching details of user '' @ user\<rparr>"
  obtain valid u where fs: "BabelUIN_FromString user = (valid, u)" by fastforce
  have on: "valid" "Online m" using assms fs by (auto simp: FetchUserData_def split: if_splits)
  obtain k m1 where st: "StartTransaction TRANS_CLIENT_INFO 0 ?a = (k, m1)" by fastforce
  obtain now m2 where nw: "mgr_now m1 = (now, m2)" by fastforce
  obtain ok m3 where w: "sock_Write (BuildGetClientInfo (myServerUIN m2) u k) m2 = (ok, m3)" by fastforce
  have m': "m' = m3\<lparr>myPendingUserFetches := (myPendingUserFetches m3)(user \<mapsto> \<lparr>q_ticket = k, q_deadline = now + QUERY_TIMEOUT_MS\<rparr>)\<rparr>"
    using assms on fs st nw w by (auto simp: FetchUserData_def Let_def split: if_splits)
  have "clock_runs m m'" "now = osClock (myOs m) (osClockReads (myOs m))"
    using clock_runs_reading [OF nw sock_Write_clock [OF w]] keeps_queries(1) [OF st] m' by (simp_all add: clock_runs_def)
  then show ?thesis using m' by simp
qed

lemma user_data_waits:
  assumes "good m" "myPendingUserFetches m user = Some q" "FetchUserData user m = (r, block, m')" "fst (BabelUIN_FromString user)"
  shows "if block then myPendingUserFetches m' user = Some q \<and> clock_runs m m' \<and> \<not> past_from m (osClockReads (myOs m)) (q_deadline q)
      else myPendingUserFetches m' user = None"
proof -
  have q: "myPendingUserFetches (Pump m) = myPendingUserFetches m" using query_parts [OF Pump_query [OF assms(1)]] by simp
  obtain c r' p m1 where po: "PollTransaction (q_ticket q) Transaction_new (Pump m) = (c, r', p, m1)" by (metis prod_cases4)
  obtain now m2 where nw: "mgr_now m1 = (now, m2)" by fastforce
  note pr = poll_runs [OF assms(1) po nw]
  have q2: "myPendingUserFetches m2 = myPendingUserFetches m" using query_parts [OF pr(3)] by simp
  have "FetchUserData user m = (let m = m1\<lparr>myPendingUserFetches := (myPendingUserFetches m1)(user := None), myCurrentAction := []\<rparr> in
      if c then if t_done r' \<and> t_success r' then (t_resultString r', False,
          (case myPresence m user of Some p \<Rightarrow> if t_resultString r' \<noteq> []
            then m\<lparr>myPresence := (myPresence m)(user \<mapsto> p\<lparr>pr_nickName := t_resultString r'\<rparr>)\<rparr> else m | None \<Rightarrow> m))
        else ([], False, m)
      else if TimeAfter now (q_deadline q) then ([], False, (AbandonTransaction (q_ticket q) m2)
        \<lparr>myPendingUserFetches := (myPendingUserFetches (AbandonTransaction (q_ticket q) m2))(user := None), myCurrentAction := []\<rparr>)
      else ([], True, m2))"
    using assms(2,4) q po nw by (simp add: FetchUserData_def Let_def case_prod_beta)
  then show ?thesis
    using assms(2,3) pr(1) pr(4) [of "q_deadline q"] q2 by (auto simp: Let_def split: if_splits option.splits)
qed

interpretation user_data: polled_call "FetchUserData user"
  "\<lambda>m. if fst (BabelUIN_FromString user) then map_option q_deadline (myPendingUserFetches m user) else None"
  "\<lambda>m. fst (BabelUIN_FromString user) \<longrightarrow> myPendingUserFetches m user = None" QUERY_TIMEOUT_MS for user
proof
  let ?due = "\<lambda>m. if fst (BabelUIN_FromString user) then map_option q_deadline (myPendingUserFetches m user) else None"
  have valid: "fst (BabelUIN_FromString user)" if "FetchUserData user m = (r, True, m')" for m r m'
    using that by (auto simp: FetchUserData_def split: prod.splits if_splits)
  fix m m' r block d
  show "good m'" if "good m" "FetchUserData user m = (r, block, m')" using FetchUserData_good that .
  show "?due m' = Some (osClock (myOs m) (osClockReads (myOs m)) + QUERY_TIMEOUT_MS) \<and> clock_runs m m'"
    if "?due m = None" "FetchUserData user m = (r, True, m')"
    using user_data_asks [OF _ that(2)] valid [OF that(2)] that(1) by simp
  show "?due m' = Some d \<and> clock_runs m m' \<and> \<not> past_from m (osClockReads (myOs m)) d"
    if "good m" "?due m = Some d" "FetchUserData user m = (r, True, m')"
    using user_data_waits [OF that(1) _ that(3)] valid [OF that(3)] that(2) by auto
  show "fst (BabelUIN_FromString user) \<longrightarrow> myPendingUserFetches m' user = None" if "good m" "FetchUserData user m = (r, False, m')"
  proof (cases "myPendingUserFetches m user")
    case None
    have ab: "myPendingUserFetches (AbandonTransaction k n) = myPendingUserFetches n" for k n
      using keeps_queries(4) [of k n] by (simp add: query_part_def)
    show ?thesis
      using that(2) None
      by (auto simp: FetchUserData_def Let_def ab query_part_def split: if_splits prod.splits
          dest!: keeps_queries(1-3))
  next
    case (Some q)
    then show ?thesis using user_data_waits [OF that(1) Some that(2)] by auto
  qed
qed

section \<open>A registration\<close>

lemma registration_asks:
  assumes "myPendingWWRAdds m user = None" "AddToWWR user m = (True, m')"
  shows "myPendingWWRAdds m' user = Some (osClock (myOs m) (osClockReads (myOs m)) + WWR_ADD_TIMEOUT_MS) \<and> clock_runs m m'"
proof -
  let ?a = "m\<lparr>myWWRMembers := insert user (myWWRMembers m)\<rparr>"
  obtain valid u where fs: "BabelUIN_FromString user = (valid, u)" by fastforce
  obtain ok m1 where w: "sock_Write (BuildWWRModify True (myServerUIN ?a) u) ?a = (ok, m1)" by fastforce
  obtain now m2 where nw: "mgr_now m1 = (now, m2)" by fastforce
  have m': "m' = m2\<lparr>myPendingWWRAdds := (myPendingWWRAdds m2)(user \<mapsto> now + WWR_ADD_TIMEOUT_MS)\<rparr>"
    using assms fs w nw by (auto simp: AddToWWR_def Let_def split: if_splits)
  have "clock_runs m1 m'" "now = osClock (myOs m1) (osClockReads (myOs m1))"
    using clock_runs_reading [OF nw, of m'] m' by simp_all
  then show ?thesis using m' sock_Write_clock [OF w] by (simp add: clock_runs_def os_clock_def)
qed

lemma registration_waits:
  assumes "good m" "myPendingWWRAdds m user = Some d" "AddToWWR user m = (True, m')"
  shows "myPendingWWRAdds m' user = Some d \<and> clock_runs m m' \<and> \<not> past_from m (osClockReads (myOs m)) d"
proof -
  define m0 where "m0 = m\<lparr>myWWRMembers := insert user (myWWRMembers m)\<rparr>"
  obtain valid u where fs: "BabelUIN_FromString user = (valid, u)" by fastforce
  have on: "valid" "Online m0" using assms(3) fs by (auto simp: AddToWWR_def m0_def Let_def split: if_splits)
  have g0: "good m0" using good_members assms(1) by (simp add: m0_def)
  obtain now m2 where nw: "mgr_now (Pump m0) = (now, m2)" by fastforce
  have run: "AddToWWR user m = (case myPendingWWRAdds (Pump m0) user of None \<Rightarrow> (False, Pump m0)
      | Some deadline \<Rightarrow> if TimeAfter now deadline
          then (False, m2\<lparr>myPendingWWRAdds := (myPendingWWRAdds m2)(user := None)\<rparr>) else (True, m2))"
    using on nw assms(2) fs by (simp add: AddToWWR_def Let_def flip: m0_def split: option.split) (simp add: m0_def)
  then obtain e where e: "myPendingWWRAdds (Pump m0) user = Some e" "\<not> TimeAfter now e" "m' = m2"
    using assms(3) by (auto split: option.splits if_splits)
  have "session_over (Pump m0) \<or> told m0 (Pump m0)" using on(2) by (intro Pump_told) (simp add: Online_def)
  then have "e = d" using e(1) assms(2) by (auto simp: session_over_def told_def map_le_def m0_def dom_def)
  then have d: "myPendingWWRAdds m' user = Some d" using e(1,3) keeps_watch(5) [OF nw] by (simp add: watch_def)
  have "clock_mono m (Pump m0)" using Pump_ok [of m0] g0 by (auto simp: good_def goes_def clock_mono_def m0_def)
  then have "clock_runs m m'" "\<not> past_from m (osClockReads (myOs m)) e"
    using e(2,3) mgr_now_fields(3-5) [OF nw] by (auto simp: clock_mono_def clock_runs_def past_from_def)
  then show ?thesis using d \<open>e = d\<close> by simp
qed

interpretation registration: polled_call "\<lambda>m. ((), AddToWWR user m)" "\<lambda>m. myPendingWWRAdds m user"
  "\<lambda>m. registered user False m \<longrightarrow> user \<in> myWWRMembers m \<and> myPendingWWRAdds m user = None" WWR_ADD_TIMEOUT_MS for user
proof
  fix m m' block d and r :: unit
  assume p: "((), AddToWWR user m) = (r, block, m')"
  then show "good m'" if "good m" using AddToWWR_good [OF that] by blast
next
  fix m m' and r :: unit
  assume "((), AddToWWR user m) = (r, True, m')"
  then have p: "AddToWWR user m = (True, m')" by simp
  show "myPendingWWRAdds m' user = Some (osClock (myOs m) (osClockReads (myOs m)) + WWR_ADD_TIMEOUT_MS) \<and> clock_runs m m'"
    if "myPendingWWRAdds m user = None" using registration_asks [OF that p] .
  show "myPendingWWRAdds m' user = Some d \<and> clock_runs m m' \<and> \<not> past_from m (osClockReads (myOs m)) d"
    if "good m" "myPendingWWRAdds m user = Some d" for d using registration_waits [OF that p] .
next
  fix m m' and r :: unit
  assume "((), AddToWWR user m) = (r, False, m')"
  then have p: "AddToWWR user m = (False, m')" by simp
  show "registered user False m' \<longrightarrow> user \<in> myWWRMembers m' \<and> myPendingWWRAdds m' user = None" if "good m"
    using AddToWWR_steps [OF that p] .
qed

section \<open>Properties\<close>

text \<open>C20: The queries of the game end.  When the clock has passed ten seconds from its \<open>n\<close>-th further
  reading on, asking for a user's data, the status or a random user and repeating the call while
  it blocks is over after \<open>n + 2\<close> calls, whatever the server does, and leaves no query behind.
  The third is the loop of \<open>DSFetchRandomUser\<close> itself.\<close>

theorem queries_return:
  assumes "good m" and clock: "\<forall>i > osClockReads (myOs m) + n.
      TimeAfter (osClock (myOs m) i) (osClock (myOs m) (osClockReads (myOs m)) + QUERY_TIMEOUT_MS)"
  shows "(myPendingUserFetches m user = None \<longrightarrow> (\<exists>nick m'.
        poll_until (Suc (Suc n)) (FetchUserData user) m = Some (nick, m') \<and> myPendingUserFetches m' user = None))
    \<and> (q_ticket (myStatusQuery m) = 0 \<longrightarrow> (\<exists>status m'.
        poll_until (Suc (Suc n)) (GetStatus out) m = Some (status, m') \<and> q_ticket (myStatusQuery m') = 0))
    \<and> (q_ticket (myRandomUserQuery m) = 0 \<longrightarrow> (\<exists>random m'.
        DSFetchRandomUser_blocking (Suc (Suc n)) m = Some (random, m') \<and> q_ticket (myRandomUserQuery m') = 0))"
proof (intro conjI impI)
  have p: "past_from m (osClockReads (myOs m) + Suc n) (osClock (myOs m) (osClockReads (myOs m)) + QUERY_TIMEOUT_MS)"
    using clock by (simp add: past_from_def)
  show "\<exists>nick m'. poll_until (Suc (Suc n)) (FetchUserData user) m = Some (nick, m') \<and> myPendingUserFetches m' user = None"
    if "myPendingUserFetches m user = None"
  proof (cases "fst (BabelUIN_FromString user)")
    case True
    then show ?thesis using user_data.polling_ends [OF assms(1) _ p, of user] that by auto
  next
    case False
    then have "FetchUserData user m = ([], False, m)" by (simp add: FetchUserData_def case_prod_beta)
    then show ?thesis using that by simp
  qed
  show "\<exists>status m'. poll_until (Suc (Suc n)) (GetStatus out) m = Some (status, m') \<and> q_ticket (myStatusQuery m') = 0"
    if "q_ticket (myStatusQuery m) = 0"
    using status.polling_ends [OF assms(1) _ p, of out] that by (auto simp: query_due_def)
  show "\<exists>random m'. DSFetchRandomUser_blocking (Suc (Suc n)) m = Some (random, m') \<and> q_ticket (myRandomUserQuery m') = 0"
    if "q_ticket (myRandomUserQuery m) = 0"
    unfolding blocking_polls using random_user.polling_ends [OF assms(1) _ p] that by (auto simp: query_due_def)
qed

lemma example_past:
  "d \<le> 40000 \<Longrightarrow> \<forall>i > osClockReads (myOs example_online) + 40.
    TimeAfter (osClock (myOs example_online) i) (osClock (myOs example_online) (osClockReads (myOs example_online)) + of_nat d)"
  using example_clock [of d] by (simp add: example_online_os)

theorem queries_return_witness:
  "(\<exists>nick m'. poll_until 42 (FetchUserData ''5+1'') example_online = Some (nick, m') \<and> myPendingUserFetches m' ''5+1'' = None)
    \<and> (\<exists>status m'. poll_until 42 (GetStatus (0, 0, 0, 0)) example_online = Some (status, m') \<and> q_ticket (myStatusQuery m') = 0)
    \<and> (\<exists>random m'. DSFetchRandomUser_blocking 42 example_online = Some (random, m') \<and> q_ticket (myRandomUserQuery m') = 0)"
proof -
  have "good example_online" "myPendingUserFetches example_online ''5+1'' = None" "q_ticket (myStatusQuery example_online) = 0"
    "q_ticket (myRandomUserQuery example_online) = 0" "Suc (Suc 40) = 42"
    using example_online_ok by (simp_all add: good_def example_online_def DSNetManager_new_def PendingQuery_new_def)
  then show ?thesis
    using queries_return [of example_online 40 "''5+1''" "(0, 0, 0, 0)"] example_past [of 10000]
    by (simp only: QUERY_TIMEOUT_MS_def of_nat_numeral) simp
qed

text \<open>C21: A registration ends.  When the clock has passed its time-out from its \<open>n\<close>-th further reading
  on, adding a user to the register is over after \<open>n + 2\<close> calls, whether the server has answered
  or not, and if the manager is then online the user is watched and nothing is awaited.\<close>

theorem registration_returns:
  assumes "good m" "myPendingWWRAdds m user = None"
    and clock: "\<forall>i > osClockReads (myOs m) + n.
      TimeAfter (osClock (myOs m) i) (osClock (myOs m) (osClockReads (myOs m)) + WWR_ADD_TIMEOUT_MS)"
  shows "\<exists>m'. poll_until (Suc (Suc n)) (\<lambda>m. ((), AddToWWR user m)) m = Some ((), m') \<and> good m'
    \<and> (fst (BabelUIN_FromString user) \<and> Online m' \<longrightarrow> user \<in> myWWRMembers m' \<and> myPendingWWRAdds m' user = None)"
  using registration.polling_ends [OF assms(1,2)] clock by (simp add: past_from_def registered_def)

theorem registration_returns_witness:
  "\<exists>m'. poll_until 42 (\<lambda>m. ((), AddToWWR ''5+1'' m)) example_online = Some ((), m') \<and> good m'
    \<and> (Online m' \<longrightarrow> ''5+1'' \<in> myWWRMembers m' \<and> myPendingWWRAdds m' ''5+1'' = None)"
proof -
  have "good example_online" "myPendingWWRAdds example_online ''5+1'' = None" "Suc (Suc 40) = 42"
    using example_online_ok by (simp_all add: good_def example_online_def DSNetManager_new_def)
  then show ?thesis
    using registration_returns [of example_online "''5+1''" 40] example_past [of 4000]
    by (simp only: WWR_ADD_TIMEOUT_MS_def of_nat_numeral FromString_example) simp
qed

end
