(* ===== verification/NetMail.thy ===== *)
theory NetMail imports NetSystem "HOL-Library.Sublist"
begin

text \<open>
  The queue of received messages, from the packet that brings one to \<open>GetMessages\<close>.

  \<open>keeps_mail\<close> says that messages are only added, at the end.  It holds for every public call
  but \<open>GetMessages\<close>, those that connect and those that lose the connection included, by the
  contract \<open>session_relation\<close> of \<open>NetCalls\<close>.
\<close>

section \<open>Messages are only added\<close>

definition keeps_mail :: "mgr \<Rightarrow> mgr \<Rightarrow> bool" where
  "keeps_mail m m' \<longleftrightarrow> prefix (myIncomingMessages m) (myIncomingMessages m')"

lemma keeps_mail_trans [trans]: "keeps_mail a b \<Longrightarrow> keeps_mail b c \<Longrightarrow> keeps_mail a c"
  by (auto simp: keeps_mail_def prefix_def)

lemma keeps_mail_same: "myIncomingMessages m' = myIncomingMessages m \<Longrightarrow> keeps_mail m m'"
  by (simp add: keeps_mail_def)

lemma keeps_mail_refl [simp]: "keeps_mail m m"
  by (simp add: keeps_mail_same)

lemma watch_mail: "watch m' = watch m \<Longrightarrow> myIncomingMessages m' = myIncomingMessages m"
  by (simp add: watch_def)

lemmas same_mail = keeps_watch [THEN watch_mail] watch_socket [THEN watch_mail] watch_NextVSN [THEN watch_mail]
  watch_SpoolPrayFile [THEN watch_mail]

lemma mail_sock_Close [simp]: "myIncomingMessages (sock_Close m) = myIncomingMessages m"
  using sock_Close_eq [of m] by auto

lemma mail_lost [simp]:
  "myIncomingMessages (ConnectionLost m) = myIncomingMessages m"
  "myIncomingMessages (Disconnect m) = myIncomingMessages m"
  by (simp_all add: ConnectionLost_def Disconnect_def MarkEveryoneOffline_def Let_def)

lemma mail_UpdatePresence [simp]: "myIncomingMessages (UpdatePresence u online nick m) = myIncomingMessages m"
  by (subst UpdatePresence_frame) simp

lemma mail_SendWWRRegistrations [simp]: "myIncomingMessages (SendWWRRegistrations users m) = myIncomingMessages m"
  by (subst SendWWRRegistrations_frame) simp

section \<open>Pumping\<close>

lemma HandlePacket_mail:
  "HandlePacket h body n m = (alive, m') \<Longrightarrow> keeps_mail m m'"
  by (auto simp: HandlePacket_def keeps_mail_def Let_def same_mail(8,11) split: if_splits prod.splits option.splits
      dest!: same_mail(7,10))

lemma HandleHandshakeResponse_mail:
  "myIncomingMessages (HandleHandshakeResponse h raw n m) = myIncomingMessages m"
  by (auto simp: HandleHandshakeResponse_def Let_def same_mail(8) split: list.split option.split prod.split
      dest!: same_mail(5))

lemma handle_frame_mail:
  "handle_frame h packet n m = (alive, m') \<Longrightarrow> keeps_mail m m'"
  using HandlePacket_mail HandleHandshakeResponse_mail
  by (auto simp: handle_frame_def Let_def same_mail(8) split: if_splits option.splits intro: keeps_mail_same)

lemma process_step_mail:
  "process_step m = (again, m') \<Longrightarrow> keeps_mail m m'"
  by (auto simp: process_step_def Let_def same_mail(8) keeps_mail_def split: if_splits option.splits framing.splits prod.splits
      dest!: handle_frame_mail)

lemma ProcessInput_mail: "keeps_mail m (ProcessInput m)"
proof -
  have "keeps_mail m (ProcessInput_loop n m)" for n
  proof (induction n arbitrary: m)
    case (Suc n)
    obtain again m1 where r: "process_step m = (again, m1)" by fastforce
    then show ?case using process_step_mail [OF r] Suc.IH [of m1] keeps_mail_trans by auto
  qed (simp add: keeps_mail_same same_mail(8))
  then show ?thesis by (simp add: ProcessInput_def del: ProcessInput_loop.simps)
qed

lemma pump_connecting_mail: "pump_connecting m = (go, m') \<Longrightarrow> keeps_mail m m'"
  by (rule keeps_mail_same) (auto simp: pump_connecting_def connect_failed_def Let_def split: if_splits prod.splits
      dest!: same_mail(1,7,9))

lemma pump_handshake_mail: "pump_handshake m = (go, m') \<Longrightarrow> keeps_mail m m'"
proof -
  obtain alive m1 where op: "sock_op SocketPump m = (alive, m1)" by fastforce
  have "keeps_mail m m1" using same_mail(9) [OF op] by (rule keeps_mail_same)
  then have "keeps_mail m (ProcessInput m1)" using ProcessInput_mail keeps_mail_trans by blast
  then show "pump_handshake m = (go, m') \<Longrightarrow> ?thesis"
    using op by (auto simp: pump_handshake_def connect_failed_def Let_def keeps_mail_def split: if_splits)
qed

lemma pump_deadline_mail: "keeps_mail m (pump_deadline m)"
  by (rule keeps_mail_same) (auto simp: pump_deadline_def connect_failed_def Let_def split: prod.split dest!: same_mail(5))

lemma PumpConnectPhase_mail: "keeps_mail m (PumpConnectPhase m)"
proof -
  obtain go1 m1 where c: "(if myConnectPhase m = PHASE_CONNECTING then pump_connecting m else (True, m)) = (go1, m1)" by fastforce
  obtain go2 m2 where h: "(if myConnectPhase m1 = PHASE_AWAIT_HANDSHAKE then pump_handshake m1 else (True, m1)) = (go2, m2)" by fastforce
  have 1: "keeps_mail m m1" using c pump_connecting_mail by (auto split: if_splits)
  have "keeps_mail m1 m2" using h pump_handshake_mail by (auto split: if_splits)
  then have 2: "keeps_mail m m2" using 1 keeps_mail_trans by blast
  then have "keeps_mail m (pump_deadline m2)" using pump_deadline_mail keeps_mail_trans by blast
  then show ?thesis using 1 2 c h by (simp add: PumpConnectPhase_def)
qed

lemma Pump_mail: "keeps_mail m (Pump m)"
proof -
  obtain alive m1 where op: "sock_op SocketPump m = (alive, m1)" by fastforce
  have "keeps_mail m m1" using same_mail(9) [OF op] by (rule keeps_mail_same)
  then have "keeps_mail m (ProcessInput m1)" using ProcessInput_mail keeps_mail_trans by blast
  then show ?thesis using PumpConnectPhase_mail [of m] op by (auto simp: Pump_def Let_def keeps_mail_def)
qed

interpretation mail: session_relation keeps_mail
proof
  show "keeps_mail a c" if "keeps_mail a b" "keeps_mail b c" for a b c using keeps_mail_trans that .
  show "keeps_mail m m'" if "watch m' = watch m" for m m' using watch_mail [OF that] by (rule keeps_mail_same)
qed (rule Pump_mail keeps_mail_same mail_lost)+

section \<open>The other calls\<close>

lemma choose_server_mail [simp]: "myIncomingMessages (choose_server m) = myIncomingMessages m"
  by (simp add: choose_server_def Let_def)

lemma StartConnecting_mail: "keeps_mail m (StartConnecting m)"
  by (rule keeps_mail_same) (auto simp: StartConnecting_def Let_def split: prod.split dest!: same_mail(5,9))

lemma ConnectInBackground_mail: "ConnectInBackground users m = (block, m') \<Longrightarrow> keeps_mail m m'"
  using StartConnecting_mail [of "m\<lparr>myUsersForWWR := users\<rparr>"] PumpConnectPhase_mail [of m]
  by (auto simp: ConnectInBackground_def Let_def keeps_mail_def split: if_splits)

lemma Connect_mail: "Connect fuel m = Some (ok, m') \<Longrightarrow> keeps_mail m m'"
proof (induction fuel arbitrary: m)
  case (Suc fuel)
  obtain block m1 where c: "ConnectInBackground [] m = (block, m1)" by fastforce
  show ?case
    using ConnectInBackground_mail [OF c] Suc.IH [of m1] Suc.prems c keeps_mail_trans by (auto split: if_splits)
qed simp

lemma connecting_call_mail: "connecting_call m m' \<Longrightarrow> keeps_mail m m'"
  by (induction rule: connecting_call.induct) (use ConnectInBackground_mail Connect_mail in blast)+

lemma AddToWWR_mail:
  assumes "AddToWWR user m = (block, m')"
  shows "keeps_mail m m'"
proof -
  let ?m = "m\<lparr>myWWRMembers := insert user (myWWRMembers m)\<rparr>"
  have "myIncomingMessages m' = myIncomingMessages m \<or> myIncomingMessages m' = myIncomingMessages (Pump ?m)"
    using assms by (auto simp: AddToWWR_def Let_def split: if_splits prod.splits option.splits dest!: same_mail(5,7))
  then show ?thesis using Pump_mail [of ?m] by (auto simp: keeps_mail_def)
qed

lemma RemoveFromWWR_mail: "keeps_mail m (RemoveFromWWR user m)"
proof -
  have "myIncomingMessages (snd (sock_Write data n)) = myIncomingMessages n" for data n
    using same_mail(7) [of data n] by (cases "sock_Write data n") simp
  then show ?thesis by (auto simp: RemoveFromWWR_def Let_def split: prod.split intro!: keeps_mail_same)
qed

lemma NextChangedUserWWR_mail: "NextChangedUserWWR m = (x, m') \<Longrightarrow> keeps_mail m m'"
  by (auto simp: NextChangedUserWWR_def Let_def split: list.splits intro!: keeps_mail_same)

section \<open>Property\<close>

text \<open>Every public call but \<open>GetMessages\<close>, which hands the queue over in three parallel lists.\<close>

inductive other_call :: "mgr \<Rightarrow> mgr \<Rightarrow> bool" where
  connecting: "connecting_call m m' \<Longrightarrow> other_call m m'"
| plainly: "plain_call m m' \<Longrightarrow> other_call m m'"
| adding: "AddToWWR user m = (block, m') \<Longrightarrow> other_call m m'"
| removing: "other_call m (RemoveFromWWR user m)"
| polling: "NextChangedUserWWR m = (x, m') \<Longrightarrow> other_call m m'"

definition received :: "string list \<Rightarrow> cint list \<Rightarrow> byte list list \<Rightarrow> IncomingMessage list" where
  "received users types messages =
     map (\<lambda>(u, t, p). \<lparr>im_user = u, im_type = t, im_payload = p\<rparr>) (zip users (zip types messages))"

inductive mail_step :: "(qmsg \<Rightarrow> mgr \<Rightarrow> mgr) \<Rightarrow> IncomingMessage list \<times> mgr \<Rightarrow> IncomingMessage list \<times> mgr \<Rightarrow> bool" for qsend where
  called: "other_call m m' \<Longrightarrow> mail_step qsend (got, m) (got, m')"
| ticked: "mail_step qsend (got, m) (got, SendOrdinaryMessages qsend m)"
| collected: "GetMessages m = (users, types, messages, m') \<Longrightarrow>
    mail_step qsend (got, m) (got @ received users types messages, m')"

inductive_cases mail_stepE: "mail_step qsend s s'"

definition leaves_mail :: "(qmsg \<Rightarrow> mgr \<Rightarrow> mgr) \<Rightarrow> bool" where
  "leaves_mail qsend \<longleftrightarrow> (\<forall>q m. other_call\<^sup>*\<^sup>* m (qsend q m))"

lemma other_call_step: "other_call m m' \<Longrightarrow> call_step m m'"
  by (auto simp: call_step_def elim!: other_call.cases intro: quiet_call.intros)

lemma other_calls_good: "other_call\<^sup>*\<^sup>* m m' \<Longrightarrow> good m \<Longrightarrow> good m'"
  by (induction rule: rtranclp_induct) (use other_call_step call_step_good in blast)+

lemma other_call_mail: "other_call m m' \<Longrightarrow> good m \<Longrightarrow> keeps_mail m m'"
  by (erule other_call.cases)
    (simp_all add: connecting_call_mail mail.plain_call_R AddToWWR_mail RemoveFromWWR_mail NextChangedUserWWR_mail)

lemma other_calls_mail: "other_call\<^sup>*\<^sup>* m m' \<Longrightarrow> good m \<Longrightarrow> keeps_mail m m'"
proof (induction rule: rtranclp_induct)
  case (step a b)
  have "keeps_mail a b" using other_call_mail [OF step.hyps(2) other_calls_good [OF step.hyps(1) step.prems]] .
  then show ?case using step keeps_mail_trans by blast
qed simp

lemma received_all: "received (map im_user ms) (map im_type ms) (map im_payload ms) = ms"
  by (induction ms) (simp_all add: received_def)

lemma mail_step_keeps:
  assumes "mail_step qsend (got, m) (got', m')" "leaves_mail qsend" "good m"
  shows "good m' \<and> prefix (got @ myIncomingMessages m) (got' @ myIncomingMessages m')"
  using assms(1)
proof cases
  case called
  then show ?thesis
    using other_call_mail [OF _ assms(3)] call_step_good [OF other_call_step assms(3)] by (simp add: keeps_mail_def)
next
  case ticked
  have q: "good n \<Longrightarrow> good (qsend q n) \<and> keeps_mail n (qsend q n)" for q n
    using assms(2) other_calls_good other_calls_mail by (auto simp: leaves_mail_def)
  then show ?thesis
    using ticked SendOrdinaryMessages_good [OF assms(3)] mail.SendOrdinaryMessages_R [OF assms(3)] by (simp add: keeps_mail_def)
next
  case (collected users types messages)
  then show ?thesis
    using GetMessages_good [OF assms(3)] Pump_mail [of m]
    by (auto simp: GetMessages_def Let_def received_all keeps_mail_def)
qed



end
