(* ===== verification/NetAnswers.thy ===== *)
theory NetAnswers imports NetSafety NetDelivery
begin

text \<open>
  A query from the call that asks to the call that returns the server's answer, through the
  socket, the packet loop and the table of requests.  The response is stated as the next bytes
  the socket reads, with nothing behind it; when the server hangs up behind its response, losing
  the connection clears the table before anyone has looked, and the response is lost.
\<close>

section \<open>A response is there when the manager pumps\<close>

lemma Pump_answered:
  assumes ok: "mgr_ok m" and online: "myConnectPhase m = PHASE_ONLINE"
    and t: "myTransactions m (pticket h) = Some t" "t_kind t \<noteq> TRANS_ABANDONED"
    and op: "sock_op SocketPump m = (alive, m1)"
    and f: "0 \<le> sint (furtherData h)" "sint (furtherData h) \<le> 33554432"
    and body: "int (length body) = sint (t_fixedExtra t) + sint (furtherData h)"
    and inp: "myInput (mySocket m1) = header_bytes h @ body"
    and handled: "HandleTransactionResponse t h body (of_nat (length body)) = Some t'"
  defines "m2 \<equiv> with_input [] (m1\<lparr>myTransactions := (myTransactions m)(pticket h := Some t')\<rparr>)"
  shows "Pump m = (if alive then m2 else ConnectionLost m2)" "t_done t'"
    "m1 = m\<lparr>mySocket := mySocket m1, myOs := myOs m1\<rparr>" "os_rest (myOs m1) = os_rest (myOs m)"
proof -
  note o = sock_op_SocketPump [OF ok op]
  show "m1 = m\<lparr>mySocket := mySocket m1, myOs := myOs m1\<rparr>" "os_rest (myOs m1) = os_rest (myOs m)" by (rule o)+
  have m1: "myConnectPhase m1 = PHASE_ONLINE" "myTransactions m1 = myTransactions m"
    using online by (subst o(2), simp)+
  have "t_fixedExtra t = 0 \<or> t_fixedExtra t = 16"
    using table_okD [OF mgr_okD(2) [OF ok]] t by auto
  then have len: "int (length (myInput (mySocket m1))) \<le> INT_MAX" using f(2) body inp by auto
  from process_response [OF o(1) _ f body _ len] t inp m1(2) handled
  show "t_done t'" by auto
  from process_response [OF o(1) _ f body _ len] t inp m1(2) handled
  have p: "ProcessInput m1 = ProcessInput m2" by (auto simp: m1(2) m2_def)
  have "ProcessInput m2 = m2"
    by (simp add: m2_def ProcessInput_def process_step_def InputSize_def with_input_def consts_simps)
  with p have "ProcessInput m1 = m2" by simp
  then show "Pump m = (if alive then m2 else ConnectionLost m2)"
    using online m1(1) op by (simp add: Pump_def Let_def m2_def with_input_def)
qed

lemma ConnectionLost_poll: "PollTransaction k r (ConnectionLost m) = (True, r, False, ConnectionLost m)"
  using ConnectionLost_session_over [of m] by (simp add: session_over_def PollTransaction_def)

lemma wait_answered:
  assumes ok: "mgr_ok m" and online: "myConnectPhase m = PHASE_ONLINE"
    and t: "myTransactions m (pticket h) = Some t" "t_kind t \<noteq> TRANS_ABANDONED"
    and pump: "sock_op SocketPump (snd (mgr_now m)) = (alive, m1)"
    and f: "0 \<le> sint (furtherData h)" "sint (furtherData h) \<le> 33554432"
    and body: "int (length body) = sint (t_fixedExtra t) + sint (furtherData h)"
    and inp: "myInput (mySocket m1) = header_bytes h @ body"
    and handled: "HandleTransactionResponse t h body (of_nat (length body)) = Some t'"
  shows "\<exists>m'. WaitForTransaction (Suc n) (pticket h) timeoutMs r m =
    Some (if alive then (True, t', m') else (t_done r, r, m'))"
proof -
  obtain now m0 where now: "mgr_now m = (now, m0)" by fastforce
  have ok0: "mgr_ok m0" using mgr_now_ok [OF ok now] .
  have m0: "myConnectPhase m0 = PHASE_ONLINE" "myTransactions m0 = myTransactions m"
    using now online by (auto simp: mgr_now_eq)
  have op: "sock_op SocketPump m0 = (alive, m1)" using pump now by simp
  note pa = Pump_answered [OF ok0 m0(1) t(1) [folded m0(2)] t(2) op f body inp handled]
  show ?thesis
    using pa(1,2) by (cases alive) (simp_all add: WaitForTransaction_def now Let_def ConnectionLost_poll, simp add: PollTransaction_def with_input_def)
qed

section \<open>Polled queries\<close>

lemma ConnectionLost_keeps:
  "myStatusQuery (ConnectionLost m) = myStatusQuery m"
  "myPendingUserFetches (ConnectionLost m) = myPendingUserFetches m"
  "myRandomUserQuery (ConnectionLost m) = myRandomUserQuery m"
  "myConnectedAtMs (ConnectionLost m) = myConnectedAtMs m"
  "os_clock (myOs (ConnectionLost m)) = os_clock (myOs m)"
  "myBytesSent (mySocket (ConnectionLost m)) = myBytesSent (mySocket m)"
  "myBytesReceived (mySocket (ConnectionLost m)) = myBytesReceived (mySocket m)"
proof -
  let ?n = "m\<lparr>myLastError := ERROR_OFFLINE, myRawError := - myLastSystemError (mySocket m)\<rparr>"
  obtain s w where c: "Close (mySocket ?n) (myOs ?n) = (s, w)" "sock_Close ?n = ?n\<lparr>mySocket := s, myOs := w\<rparr>"
    using sock_Close_eq by blast
  then show "myStatusQuery (ConnectionLost m) = myStatusQuery m"
    "myPendingUserFetches (ConnectionLost m) = myPendingUserFetches m"
    "myRandomUserQuery (ConnectionLost m) = myRandomUserQuery m"
    "myConnectedAtMs (ConnectionLost m) = myConnectedAtMs m"
    "os_clock (myOs (ConnectionLost m)) = os_clock (myOs m)"
    "myBytesSent (mySocket (ConnectionLost m)) = myBytesSent (mySocket m)"
    "myBytesReceived (mySocket (ConnectionLost m)) = myBytesReceived (mySocket m)"
    using Close_fields [OF c(1)] by (simp_all add: ConnectionLost_def MarkEveryoneOffline_def Let_def os_rest_def os_clock_def)
qed

text \<open>Pumping and then polling, as every polled query does.\<close>

lemma Poll_answered:
  assumes ok: "mgr_ok m" and online: "myConnectPhase m = PHASE_ONLINE"
    and t: "myTransactions m (pticket h) = Some t" "t_kind t \<noteq> TRANS_ABANDONED"
    and op: "sock_op SocketPump m = (alive, m1)"
    and f: "0 \<le> sint (furtherData h)" "sint (furtherData h) \<le> 33554432"
    and body: "int (length body) = sint (t_fixedExtra t) + sint (furtherData h)"
    and inp: "myInput (mySocket m1) = header_bytes h @ body"
    and handled: "HandleTransactionResponse t h body (of_nat (length body)) = Some t'"
  obtains m3 where "\<And>r. PollTransaction (pticket h) r (Pump m) = (True, if alive then t' else r, False, m3)"
    "myStatusQuery (Pump m) = myStatusQuery m" "myRandomUserQuery (Pump m) = myRandomUserQuery m"
    "myPendingUserFetches (Pump m) = myPendingUserFetches m"
    "myStatusQuery m3 = myStatusQuery m" "myConnectedAtMs m3 = myConnectedAtMs m"
    "os_clock (myOs m3) = os_clock (myOs m)"
    "myBytesSent (mySocket m3) = myBytesSent (mySocket m1)" "myBytesReceived (mySocket m3) = myBytesReceived (mySocket m1)"
    "myPendingUserFetches m3 = myPendingUserFetches m" "alive \<Longrightarrow> myPresence m3 = myPresence m"
proof -
  note pa = Pump_answered [OF assms]
  let ?m2 = "with_input [] (m1\<lparr>myTransactions := (myTransactions m)(pticket h := Some t')\<rparr>)"
  let ?m3 = "with_input [] (m1\<lparr>myTransactions := (myTransactions m)(pticket h := None)\<rparr>)"
  have keep: "myStatusQuery m1 = myStatusQuery m" "myRandomUserQuery m1 = myRandomUserQuery m"
    "myPendingUserFetches m1 = myPendingUserFetches m" "myConnectedAtMs m1 = myConnectedAtMs m" "myPresence m1 = myPresence m"
    by (subst pa(3), simp)+
  have ck: "os_clock (myOs m1) = os_clock (myOs m)" using pa(4) by (simp add: os_rest_def os_clock_def)
  show thesis
  proof (cases alive)
    case True
    with pa(1,2) have "PollTransaction (pticket h) r (Pump m) = (True, if alive then t' else r, False, ?m3)" for r
      by (simp add: PollTransaction_def with_input_def)
    then show thesis
      using True pa(1) keep ck by (intro that [of ?m3]) (simp_all add: with_input_def)
  next
    case False
    with pa(1) show thesis
      using keep ck ConnectionLost_keeps [of ?m2]
      by (intro that [of "ConnectionLost ?m2"]) (simp_all add: ConnectionLost_poll, simp_all add: with_input_def)
  qed
qed

text \<open>The call that asks leaves the request, typed for its response, under the query's ticket.\<close>

lemma asked_request:
  assumes "mgr_ok m0" "myConnectPhase m0 = PHASE_ONLINE" "StartTransaction kind extra m0 = (k, m1)"
    and "extra = (if kind = TRANS_STATUS then 16 else 0)" "sock_Write data m2 = (True, m)"
    and "mgr_ok m1 \<Longrightarrow> mgr_ok m2" "myTransactions m2 = myTransactions m1" "myConnectPhase m2 = myConnectPhase m1"
  shows "mgr_ok m" "Online m" "k \<noteq> 0"
    "myTransactions m k = Some (Transaction_new\<lparr>t_kind := kind, t_fixedExtra := extra\<rparr>)"
proof -
  note fr = sock_Write_frame [OF assms(5)]
  have m: "myTransactions m = myTransactions m2" "myConnectPhase m = myConnectPhase m2"
    by (subst conjunct1 [OF fr], simp)+
  show "mgr_ok m" using StartTransaction_ok [OF assms(1,3,4)] assms(6) sock_Write_ok [OF _ assms(5)] by simp
  show "Online m" using fr m assms(2,3,8) by (auto simp: Online_def StartTransaction_eq)
  show "k \<noteq> 0" using assms(3) next_ticket_number_nonzero by (auto simp: StartTransaction_eq)
  show "myTransactions m k = Some (Transaction_new\<lparr>t_kind := kind, t_fixedExtra := extra\<rparr>)"
    using m assms(3,7) by (auto simp: StartTransaction_eq)
qed

lemma GetStatus_asked:
  assumes "mgr_ok m0" "q_ticket (myStatusQuery m0) = 0" "GetStatus out m0 = (out1, True, m)"
  shows "out1 = out" "mgr_ok m" "Online m" "q_ticket (myStatusQuery m) \<noteq> 0" "myConnectedAtMs m = myConnectedAtMs m0"
    "myTransactions m (q_ticket (myStatusQuery m)) = Some (Transaction_new\<lparr>t_kind := TRANS_STATUS, t_fixedExtra := 16\<rparr>)"
proof -
  let ?a = "m0\<lparr>myCurrentAction := ''Fetching connection statistics''\<rparr>"
  have on: "Online m0" using assms(3) by (auto simp: GetStatus_def split: if_splits)
  obtain k m1 where st: "StartTransaction TRANS_STATUS 16 ?a = (k, m1)" by fastforce
  obtain now m2 where nw: "mgr_now (m1\<lparr>myStatusQuery := (myStatusQuery m1)\<lparr>q_ticket := k\<rparr>\<rparr>) = (now, m2)" by fastforce
  let ?b = "m2\<lparr>myStatusQuery := (myStatusQuery m2)\<lparr>q_deadline := now + QUERY_TIMEOUT_MS\<rparr>\<rparr>"
  obtain ok m3 where w: "sock_Write (BuildGetStatus (myServerUIN ?b) (q_ticket (myStatusQuery ?b))) ?b = (ok, m3)" by fastforce
  have r: "ok" "m = m3" "out1 = out" using assms(2,3) on st nw w by (auto simp: GetStatus_def Let_def split: if_splits)
  have b: "myTransactions ?b = myTransactions m1" "myConnectPhase ?b = myConnectPhase m1" "q_ticket (myStatusQuery ?b) = k"
    "myConnectedAtMs ?b = myConnectedAtMs m0" "mgr_ok m1 \<Longrightarrow> mgr_ok ?b"
    using st nw mgr_now_ok [OF _ nw] by (auto simp: mgr_now_eq StartTransaction_eq)
  have m: "q_ticket (myStatusQuery m) = k" "myConnectedAtMs m = myConnectedAtMs m0"
    using b by (subst conjunct1 [OF sock_Write_frame [OF w [folded r(2)]]], simp)+
  have "mgr_ok ?a" "myConnectPhase ?a = PHASE_ONLINE" using assms(1) on by (simp_all add: Online_def)
  from asked_request [OF this st _ _ b(5,1,2)] w r(1,2)
  show "out1 = out" "mgr_ok m" "Online m" "q_ticket (myStatusQuery m) \<noteq> 0" "myConnectedAtMs m = myConnectedAtMs m0"
    "myTransactions m (q_ticket (myStatusQuery m)) = Some (Transaction_new\<lparr>t_kind := TRANS_STATUS, t_fixedExtra := 16\<rparr>)"
    using r(3) m by simp_all
qed

lemma FetchUserData_asked:
  assumes "mgr_ok m0" "myPendingUserFetches m0 user = None" "FetchUserData user m0 = (nick, True, m)"
  obtains q u where "BabelUIN_FromString user = (True, u)" "myPendingUserFetches m user = Some q" "mgr_ok m" "Online m" "q_ticket q \<noteq> 0"
    "myTransactions m (q_ticket q) = Some (Transaction_new\<lparr>t_kind := TRANS_CLIENT_INFO, t_fixedExtra := 0\<rparr>)"
proof -
  let ?a = "m0\<lparr>myCurrentAction := ''Fetching details of user '' @ user\<rparr>"
  obtain valid u where fs: "BabelUIN_FromString user = (valid, u)" by fastforce
  have on: "valid" "Online m0" using assms(2,3) fs by (auto simp: FetchUserData_def split: if_splits)
  obtain k m1 where st: "StartTransaction TRANS_CLIENT_INFO 0 ?a = (k, m1)" by fastforce
  obtain now m2 where nw: "mgr_now m1 = (now, m2)" by fastforce
  let ?q = "\<lparr>q_ticket = k, q_deadline = now + QUERY_TIMEOUT_MS\<rparr>"
  obtain ok m3 where w: "sock_Write (BuildGetClientInfo (myServerUIN m2) u k) m2 = (ok, m3)" by fastforce
  have r: "ok" "m = m3\<lparr>myPendingUserFetches := (myPendingUserFetches m3)(user \<mapsto> ?q)\<rparr>"
    using assms(2,3) on fs st nw w by (auto simp: FetchUserData_def Let_def split: if_splits)
  have b: "myTransactions m2 = myTransactions m1" "myConnectPhase m2 = myConnectPhase m1" "mgr_ok m1 \<Longrightarrow> mgr_ok m2"
    using nw mgr_now_ok [OF _ nw] by (auto simp: mgr_now_eq)
  have "mgr_ok ?a" "myConnectPhase ?a = PHASE_ONLINE" using assms(1) on by (simp_all add: Online_def)
  from asked_request [OF this st _ _ b(3,1,2)] w r(1)
  show thesis using that [of u ?q] r(2) fs on(1) by (simp add: Online_def)
qed

lemma DSFetchRandomUser_asked:
  assumes "mgr_ok m0" "q_ticket (myRandomUserQuery m0) = 0" "DSFetchRandomUser m0 = (r, True, m)"
  shows "mgr_ok m" "Online m" "q_ticket (myRandomUserQuery m) \<noteq> 0"
    "myTransactions m (q_ticket (myRandomUserQuery m)) = Some (Transaction_new\<lparr>t_kind := TRANS_RANDOM_USER, t_fixedExtra := 0\<rparr>)"
proof -
  let ?a = "m0\<lparr>myCurrentAction := ''Fetching a random online user''\<rparr>"
  have on: "Online m0" using assms(2,3) by (auto simp: DSFetchRandomUser_def split: if_splits)
  obtain k m1 where st: "StartTransaction TRANS_RANDOM_USER 0 ?a = (k, m1)" by fastforce
  obtain now m2 where nw: "mgr_now (m1\<lparr>myRandomUserQuery := (myRandomUserQuery m1)\<lparr>q_ticket := k\<rparr>\<rparr>) = (now, m2)" by fastforce
  let ?b = "m2\<lparr>myRandomUserQuery := (myRandomUserQuery m2)\<lparr>q_deadline := now + QUERY_TIMEOUT_MS\<rparr>\<rparr>"
  obtain ok m3 where w: "sock_Write (BuildFetchRandomUser (myServerUIN ?b) (myUserUIN ?b) (q_ticket (myRandomUserQuery ?b))) ?b = (ok, m3)"
    by fastforce
  have r: "ok" "m = m3" using assms(2,3) on st nw w by (auto simp: DSFetchRandomUser_def Let_def split: if_splits)
  have b: "myTransactions ?b = myTransactions m1" "myConnectPhase ?b = myConnectPhase m1" "q_ticket (myRandomUserQuery ?b) = k"
    "mgr_ok m1 \<Longrightarrow> mgr_ok ?b"
    using st nw mgr_now_ok [OF _ nw] by (auto simp: mgr_now_eq StartTransaction_eq)
  have m: "q_ticket (myRandomUserQuery m) = k"
    using b by (subst conjunct1 [OF sock_Write_frame [OF w [folded r(2)]]], simp)
  have "mgr_ok ?a" "myConnectPhase ?a = PHASE_ONLINE" using assms(1) on by (simp_all add: Online_def)
  from asked_request [OF this st _ _ b(4,1,2)] w r
  show "mgr_ok m" "Online m" "q_ticket (myRandomUserQuery m) \<noteq> 0"
    "myTransactions m (q_ticket (myRandomUserQuery m)) = Some (Transaction_new\<lparr>t_kind := TRANS_RANDOM_USER, t_fixedExtra := 0\<rparr>)"
    using m by simp_all
qed

text \<open>The upload of a history waits for its response, and is confirmed by any that arrives.\<close>

lemma history_answered:
  assumes "good m" "Online m" "0 < length blob" "length blob \<le> 33554432"
    and asked: "StartTransaction TRANS_FEED_HISTORY 0 (m\<lparr>myCurrentAction := ''Uploading creature history''\<rparr>) = (ticket, m1)"
      "sock_Write (BuildFeedHistory (myServerUIN m) (myUserUIN m) ticket blob) m1 = (True, m2)"
    and answered: "sock_op SocketPump (snd (mgr_now m2)) = (alive, m3)" "myInput (mySocket m3) = header_bytes h"
      "pticket h = ticket" "furtherData h = 0"
  shows "\<exists>m'. DSFeedHistory (Suc n) (Some blob) (of_nat (length blob)) m = Some (alive, m')"
proof -
  let ?a = "m\<lparr>myCurrentAction := ''Uploading creature history''\<rparr>"
  let ?t = "Transaction_new\<lparr>t_kind := TRANS_FEED_HISTORY, t_fixedExtra := 0\<rparr>"
  let ?t' = "?t\<lparr>t_done := True, t_success := True\<rparr>"
  have "mgr_ok ?a" "myConnectPhase ?a = PHASE_ONLINE" using assms(1,2) by (simp_all add: good_def Online_def)
  note ask = asked_request [OF this asked(1) _ asked(2)]
  have m1: "myServerUIN m1 = myServerUIN m" "myUserUIN m1 = myUserUIN m" using asked(1) by (auto simp: StartTransaction_eq)
  have sz: "sint (of_nat (length blob) :: cint) = int (length blob)" using assms(4) by (intro sint_of_nat_id) simp
  have "HandleTransactionResponse ?t h [] (of_nat (length [])) = Some ?t'"
    by (simp add: HandleTransactionResponse_def Let_def)
  from wait_answered [OF ask(1) _ _ _ answered(1) _ _ _ _ this, of n HISTORY_TIMEOUT_MS Transaction_new]
  obtain m' where w: "WaitForTransaction (Suc n) ticket HISTORY_TIMEOUT_MS Transaction_new m2 =
      Some (if alive then (True, ?t', m') else (False, Transaction_new, m'))"
    using ask(2,4) answered by (auto simp: Transaction_new_def Online_def)
  have "read_cint_bytes blob 0 (of_nat (length blob)) = Some blob" using sz by (simp add: read_cint_bytes_def read_bytes_def)
  then show ?thesis
    using assms(2,3) asked w m1 sz by (cases alive) (simp_all add: DSFeedHistory_def Let_def Transaction_new_def)
qed

section \<open>A server for the concrete instances\<close>

text \<open>The bytes \<open>xs\<close> are what the server will send; the clock has been read \<open>k\<close> times.\<close>

definition example_server :: "byte list \<Rightarrow> nat \<Rightarrow> os" where
  "example_server xs k = example_system\<lparr>osRecvs := [Received xs], osClockReads := k\<rparr>"

definition example_asking :: "byte list \<Rightarrow> mgr" where
  "example_asking xs = example_online\<lparr>myOs := example_server xs 0\<rparr>"

lemma example_asking_good: "good (example_asking xs)" "Online (example_asking xs)"
  by (simp_all add: example_asking_def example_server_def good_def example_defs ok_parts sock_ok_def live_def settled_def
      Online_def IsConnected_def table_ok_def)

lemma example_write:
  assumes "mySocket m = example_socket" "myOs m = example_server xs k" "p \<noteq> []"
  shows "sock_Write p m = (True, m\<lparr>mySocket := example_socket\<lparr>myOutput := p\<rparr>\<rparr>)"
  using example_writes [OF assms(1)] assms(2) by (simp add: example_server_def example_system_def)

lemma example_pump:
  assumes "mySocket m = example_socket\<lparr>myOutput := p\<rparr>" "myOs m = example_server xs k" "xs \<noteq> []" "length xs \<le> 4096"
  shows "sock_op SocketPump m = (True, m\<lparr>mySocket := example_socket\<lparr>myOutput := p, myBytesReceived := of_nat (length xs), myInput := xs\<rparr>,
    myOs := example_system\<lparr>osClockReads := k\<rparr>\<rparr>)"
proof -
  let ?s = "example_socket\<lparr>myOutput := p, myBytesReceived := of_nat (length xs), myInput := xs\<rparr>"
  let ?w = "example_system\<lparr>osClockReads := k\<rparr>"
  have "ReadInput_loop ?s ?w = (True, ?s, ?w)"
    by (simp add: ReadInput_loop.simps os_recv_def example_system_def consts_simps)
  then have "ReadInput_loop (example_socket\<lparr>myOutput := p\<rparr>) (example_server xs k) = (True, ?s, ?w)"
    using assms(3,4) by (subst ReadInput_loop.simps) (simp add: os_recv_def example_server_def example_defs)
  moreover have "FlushOutput_loop (example_socket\<lparr>myOutput := p\<rparr>) (example_server xs k) = (True, example_socket\<lparr>myOutput := p\<rparr>, example_server xs k)"
    by (rule example_flush) (simp add: example_server_def example_system_def)
  moreover have "myState (example_socket\<lparr>myOutput := p\<rparr>) = STATE_CONNECTED" by (simp add: example_socket_def)
  ultimately show ?thesis
    using assms(1,2) by (simp add: sock_op_def SocketPump_def FlushOutput_def ReadInput_def)
qed

lemma example_time: "mgr_now m = (osClock (myOs m) (osClockReads (myOs m)), m\<lparr>myOs := (myOs m)\<lparr>osClockReads := Suc (osClockReads (myOs m))\<rparr>\<rparr>)"
  by (simp add: mgr_now_eq NowMs_def)

lemma header_bytes_nonempty: "header_bytes h \<noteq> []"
  by (simp add: header_bytes_def PacketHeader_Write_def PutInt_def le_bytes_def)

section \<open>Properties\<close>

text \<open>C14: Whether a user is online who is not watched is the server's answer.  When the request could be
  written and what the next pump reads is the response, it is the only one waited for, and it
  says yes when it carries an address or field E is set; a server that hangs up behind its
  response takes it back.\<close>

theorem online_question_answered:
  assumes "good m" "Online m"
    and user: "BabelUIN_FromString user = (True, u)" "u \<noteq> myUserUIN m" "myPresence m user = None"
    and asked: "StartTransaction TRANS_CONNECTION_DETAIL 0 (m\<lparr>myCurrentAction := ''Checking whether '' @ user @ '' is online''\<rparr>) = (ticket, m1)"
      "sock_Write (BuildGetConnectionDetail (myServerUIN m) u ticket) m1 = (True, m2)"
    and answered: "sock_op SocketPump (snd (mgr_now m2)) = (alive, m3)" "myInput (mySocket m3) = header_bytes h"
      "pticket h = ticket" "furtherData h = 0"
  shows "\<exists>m'. IsUserOnline (Suc n) user m =
    Some (alive \<and> (fieldA h \<noteq> 0 \<and> fieldB h \<noteq> 0 \<or> fieldE h \<noteq> 0), m')"
proof -
  let ?t = "Transaction_new\<lparr>t_kind := TRANS_CONNECTION_DETAIL, t_fixedExtra := 0\<rparr>"
  let ?t' = "?t\<lparr>t_done := True, t_success := fieldA h \<noteq> 0 \<and> fieldB h \<noteq> 0 \<or> fieldE h \<noteq> 0\<rparr>"
  have "mgr_ok (m\<lparr>myCurrentAction := ''Checking whether '' @ user @ '' is online''\<rparr>)" using assms(1) by (simp add: good_def)
  then have ok: "mgr_ok m2" using StartTransaction_ok [OF _ asked(1)] sock_Write_ok [OF _ asked(2)] by simp
  have m2: "myTransactions m2 = myTransactions m1" "myConnectPhase m2 = myConnectPhase m1"
    by (subst conjunct1 [OF sock_Write_frame [OF asked(2)]], simp)+
  have m1: "myTransactions m1 ticket = Some ?t" "myConnectPhase m1 = PHASE_ONLINE" "myServerUIN m1 = myServerUIN m"
    using asked(1) assms(2) by (auto simp: StartTransaction_eq Online_def)
  have "HandleTransactionResponse ?t h [] (of_nat (length [])) = Some ?t'"
    by (simp add: HandleTransactionResponse_def Let_def)
  from wait_answered [OF ok _ _ _ answered(1) _ _ _ _ this, of n USER_ONLINE_TIMEOUT_MS Transaction_new]
  obtain m' where w: "WaitForTransaction (Suc n) ticket USER_ONLINE_TIMEOUT_MS Transaction_new m2 =
      Some (if alive then (True, ?t', m') else (False, Transaction_new, m'))"
    using m1 m2 answered by (auto simp: Transaction_new_def)
  show ?thesis
    using assms(2) user asked w m1(3) by (simp add: IsUserOnline_def Let_def del: append.simps split: if_splits)
qed

theorem online_question_answered_witness:
  "let h = PacketHeader_new\<lparr>ptype := 0x13, pticket := 1, fieldE := 1\<rparr> in
   \<exists>m'. IsUserOnline 1 ''5+1'' (example_asking (header_bytes h)) = Some (True, m')"
proof -
  let ?h = "PacketHeader_new\<lparr>ptype := 0x13, pticket := 1, fieldE := 1\<rparr>"
  let ?m = "example_asking (header_bytes ?h)"
  let ?asking = "?m\<lparr>myCurrentAction := ''Checking whether '' @ ''5+1'' @ '' is online''\<rparr>"
  let ?asked = "?asking\<lparr>myNextTicketNumber := 1, myTransactions := [1 \<mapsto> Transaction_new\<lparr>t_kind := TRANS_CONNECTION_DETAIL, t_fixedExtra := 0\<rparr>]\<rparr>"
  let ?p = "BuildGetConnectionDetail (myServerUIN ?m) \<lparr>uid = 5, hid = 1\<rparr> 1"
  let ?sent = "?asked\<lparr>mySocket := example_socket\<lparr>myOutput := ?p\<rparr>\<rparr>"
  have st: "StartTransaction TRANS_CONNECTION_DETAIL 0 ?asking = (1, ?asked)"
    by (simp add: StartTransaction_eq next_ticket_number_def example_asking_def example_online_def DSNetManager_new_def)
  have wr: "sock_Write ?p ?asked = (True, ?sent)"
    by (rule example_write) (simp_all add: example_asking_def example_online_def DSNetManager_new_def
      BuildGetConnectionDetail_def PacketHeader_Write_def PutInt_def le_bytes_def)
  have pu: "sock_op SocketPump (snd (mgr_now ?sent)) = (True, (snd (mgr_now ?sent))\<lparr>mySocket := example_socket\<lparr>myOutput := ?p,
      myBytesReceived := of_nat (length (header_bytes ?h)), myInput := header_bytes ?h\<rparr>, myOs := example_system\<lparr>osClockReads := 1\<rparr>\<rparr>)"
    by (rule example_pump) (simp_all add: example_time example_asking_def example_server_def header_bytes_nonempty)
  have "\<exists>m'. IsUserOnline (Suc 0) ''5+1'' ?m = Some (True \<and> (fieldA ?h \<noteq> 0 \<and> fieldB ?h \<noteq> 0 \<or> fieldE ?h \<noteq> 0), m')"
    by (rule online_question_answered [OF example_asking_good FromString_example _ _ st wr pu])
      (simp_all add: example_asking_def example_defs PacketHeader_new_def)
  then show ?thesis by (simp add: PacketHeader_new_def)
qed







end
