(* ===== verification/NetOutbox.thy ===== *)
theory NetOutbox imports NetSpool NetInvariant
begin

text \<open>
  A whole scan of the outbox on a connection that lasts: which packets go into the stream, and
  what is left on the disk.
\<close>

section \<open>One file\<close>

lemma UserFromSpoolName_valid: "UserFromSpoolName name \<noteq> [] \<Longrightarrow> fst (BabelUIN_FromString (UserFromSpoolName name))"
  by (auto simp: UserFromSpoolName_def Let_def split: option.splits if_splits)

lemma ReadWholeFile_there: "osIo w = [] \<Longrightarrow> os_file w path = Some c \<Longrightarrow> ReadWholeFile path [] w = (True, c, w)"
  by (simp add: ReadWholeFile_def os_fopen_rb_def os_io_def)

lemma os_remove_there:
  assumes "osIo w = []"
  shows "os_file (os_remove path w) q = (if q = path then None else os_file w q)"
    "osIo (os_remove path w) = []" "osWire (os_remove path w) = osWire w"
  using assms os_net_calls(5) [of path w]
  by (simp_all add: os_remove_def os_io_def os_file_def delete_conv os_net_def)

text \<open>The packet a file of the outbox goes out in.\<close>

definition outbox_packet :: "mgr \<Rightarrow> string \<Rightarrow> byte list" where
  "outbox_packet m path = BuildMessage (myServerUIN m) (myUserUIN m)
     (snd (BabelUIN_FromString (UserFromSpoolName (BaseName path)))) (pray_payload (the (os_file (myOs m) path)))"

definition addressed :: "os \<Rightarrow> string \<Rightarrow> bool" where
  "addressed w path \<longleftrightarrow> UserFromSpoolName (BaseName path) \<noteq> []
     \<and> (\<exists>c. os_file w path = Some c \<and> length c \<le> 33554000)"

lemma SendOutboxFile_clean:
  assumes "osIo (myOs m) = []" "addressed (myOs m) path" "SendOutboxFile path m = (ok, m')"
  shows "if ok then written (mySocket m') (myOs m') = written (mySocket m) (myOs m) @ outbox_packet m path
      \<and> os_file (myOs m') = (os_file (myOs m))(path := None) \<and> osIo (myOs m') = []
      \<and> myServerUIN m' = myServerUIN m \<and> myUserUIN m' = myUserUIN m \<and> myOutboxDirectory m' = myOutboxDirectory m
    else \<not> Online m'"
proof -
  let ?t = "UserFromSpoolName (BaseName path)"
  obtain c where c: "?t \<noteq> []" "os_file (myOs m) path = Some c" "length c \<le> 33554000"
    using assms(2) by (auto simp: addressed_def)
  let ?p = "pray_payload c"
  obtain u where u: "BabelUIN_FromString ?t = (True, u)" using UserFromSpoolName_valid [OF c(1)] by (cases "BabelUIN_FromString ?t") auto
  have len: "length ?p = 12 + length c" by (simp add: pray_payload_def PutInt_def)
  then have sz: "sint (of_nat (length ?p) :: cint) = int (length ?p)" using c(3) by (intro sint_of_nat_id) simp
  then have rd: "read_cint_bytes ?p 0 (of_nat (length ?p)) = Some ?p" by (simp add: read_cint_bytes_def read_bytes_def)
  obtain ok1 m1 where w: "sock_Write (BuildMessage (myServerUIN m) (myUserUIN m) u ?p) m = (ok1, m1)" by fastforce
  note fr = sock_Write_frame [OF w]
  have m1: "myServerUIN m1 = myServerUIN m" "myUserUIN m1 = myUserUIN m" "myOutboxDirectory m1 = myOutboxDirectory m"
    by (subst conjunct1 [OF fr], simp)+
  have os: "osIo (myOs m1) = []" "osFiles (myOs m1) = osFiles (myOs m)" using fr assms(1) by (simp_all add: os_rest_def)
  have run: "(ok, m') = (if \<not> Online m then (False, m) else if ok1 then (True, m1\<lparr>myOs := os_remove path (myOs m1)\<rparr>)
      else (False, ConnectionLost m1))"
    using assms(1,3) c(1,2) u rd sz w ReadWholeFile_there [OF assms(1) c(2)]
    by (auto simp: SendOutboxFile_def PostDirectMessage_def Let_def split: if_splits)
  have "\<not> Online (ConnectionLost m1)" using ConnectionLost_session_over session_over_offline by blast
  then show ?thesis
    using run os_remove_there [OF os(1), of path] os m1 mgr_transport.write_True [of _ m m1] w u c(2)
    by (auto simp: outbox_packet_def written_def os_file_def fun_eq_iff split: if_splits)
qed

section \<open>All of them\<close>

lemma SendOutboxFiles_clean:
  "osIo (myOs m) = [] \<Longrightarrow> distinct names \<Longrightarrow> \<forall>name \<in> set names. addressed (myOs m) (myOutboxDirectory m @ name) \<Longrightarrow>
   Online (SendOutboxFiles names m) \<Longrightarrow>
   written (mySocket (SendOutboxFiles names m)) (myOs (SendOutboxFiles names m)) = written (mySocket m) (myOs m)
     @ concat (map (\<lambda>name. outbox_packet m (myOutboxDirectory m @ name)) names)
   \<and> os_file (myOs (SendOutboxFiles names m)) = os_file (myOs m) |` (- (\<lambda>name. myOutboxDirectory m @ name) ` set names)
   \<and> osIo (myOs (SendOutboxFiles names m)) = []"
proof (induction names arbitrary: m)
  case (Cons name names)
  let ?path = "myOutboxDirectory m @ name"
  obtain ok m1 where s: "SendOutboxFile ?path m = (ok, m1)" by fastforce
  have on: "Online m" using Cons.prems(4) by (auto split: if_splits)
  have ok: ok using SendOutboxFile_clean [OF Cons.prems(1) _ s] Cons.prems(3,4) on s by (auto split: if_splits)
  then have m1: "written (mySocket m1) (myOs m1) = written (mySocket m) (myOs m) @ outbox_packet m ?path"
    "os_file (myOs m1) = (os_file (myOs m))(?path := None)" "osIo (myOs m1) = []"
    "myServerUIN m1 = myServerUIN m" "myUserUIN m1 = myUserUIN m" "myOutboxDirectory m1 = myOutboxDirectory m"
    using SendOutboxFile_clean [OF Cons.prems(1) _ s] Cons.prems(3) by auto
  have other: "os_file (myOs m1) (myOutboxDirectory m @ n) = os_file (myOs m) (myOutboxDirectory m @ n)" if "n \<in> set names" for n
    using that Cons.prems(2) m1(2) by auto
  have r: "SendOutboxFiles (name # names) m = SendOutboxFiles names m1" using on ok s by simp
  have "\<forall>n \<in> set names. addressed (myOs m1) (myOutboxDirectory m1 @ n)"
    using Cons.prems(3) other m1(6) by (simp add: addressed_def)
  then have IH: "written (mySocket (SendOutboxFiles names m1)) (myOs (SendOutboxFiles names m1)) = written (mySocket m1) (myOs m1)
      @ concat (map (\<lambda>name. outbox_packet m1 (myOutboxDirectory m1 @ name)) names)"
    "os_file (myOs (SendOutboxFiles names m1)) = os_file (myOs m1) |` (- (\<lambda>name. myOutboxDirectory m1 @ name) ` set names)"
    "osIo (myOs (SendOutboxFiles names m1)) = []"
    using Cons.IH [OF m1(3)] Cons.prems(2,4) r by simp_all
  have "concat (map (\<lambda>name. outbox_packet m1 (myOutboxDirectory m1 @ name)) names)
      = concat (map (\<lambda>name. outbox_packet m (myOutboxDirectory m @ name)) names)"
    using other m1(4-6) by (intro arg_cong [where f = concat] map_cong) (simp_all add: outbox_packet_def)
  then have "written (mySocket (SendOutboxFiles names m1)) (myOs (SendOutboxFiles names m1)) = written (mySocket m) (myOs m)
      @ concat (map (\<lambda>name. outbox_packet m (myOutboxDirectory m @ name)) (name # names))"
    using IH(1) m1(1) by (simp only: list.map concat.simps append_assoc)
  moreover have "os_file (myOs (SendOutboxFiles names m1))
      = os_file (myOs m) |` (- (\<lambda>name. myOutboxDirectory m @ name) ` set (name # names))"
    unfolding IH(2) m1(2,6) by (auto simp: restrict_map_def fun_eq_iff)
  ultimately show ?case unfolding r using IH(3) by simp
qed (simp add: restrict_map_def)

section \<open>The directory\<close>

lemma ListFiles_quiet:
  "osIo w = [] \<Longrightarrow> ListFilesWithExtension dir extension w = (fst (ListFilesWithExtension dir extension w), w)"
  by (simp add: ListFilesWithExtension_def os_list_directory_def os_io_def)

lemma mem_ListFiles:
  assumes "osIo w = []"
  shows "name \<in> set (fst (ListFilesWithExtension dir extension w)) \<longleftrightarrow> os_file w (dir @ name) \<noteq> None
    \<and> CHR ''/'' \<notin> set name \<and> length extension < length name \<and> drop (length name - length extension) name = extension"
proof -
  have "(\<exists>p \<in> fst ` set (osFiles w). take (length dir) p = dir \<and> P (drop (length dir) p) \<and> name = drop (length dir) p)
      \<longleftrightarrow> dir @ name \<in> fst ` set (osFiles w) \<and> P name" for P
    by (metis append_eq_conv_conj append_take_drop_id)
  from this [of "\<lambda>n. CHR ''/'' \<notin> set n"] show ?thesis
    using assms by (auto simp: ListFilesWithExtension_def os_list_directory_def os_io_def os_file_def map_of_eq_None_iff)
qed

lemma distinct_ListFiles:
  assumes "osIo w = []" "distinct (map fst (osFiles w))"
  shows "distinct (fst (ListFilesWithExtension dir extension w))"
proof -
  have "inj_on (drop (length dir)) {p. take (length dir) p = dir}"
    by (rule inj_onI) (metis append_take_drop_id mem_Collect_eq)
  then show ?thesis
    using assms by (auto simp: ListFilesWithExtension_def os_list_directory_def os_io_def distinct_map
      intro!: distinct_filter inj_on_subset [of _ "{p. take (length dir) p = dir}"])
qed

section \<open>An example\<close>

text \<open>An outbox with one file, to \<open>5+1\<close>, which the sender \<open>7+1\<close> manages to send, and a file of
  another kind.\<close>

definition example_sender :: mgr where
  "example_sender = example_online\<lparr>myOutboxDirectory := ''out/'', myOutboxDirty := True,
     myOs := example_system\<lparr>osFiles := [(''out/note.txt'', ''x''), (''out/7T-5+1.warp'', ''PRAY'')]\<rparr>\<rparr>"

lemma example_sends:
  assumes "mySocket m = example_socket" "myConnectPhase m = PHASE_ONLINE" "osSends (myOs m) = []" "osIo (myOs m) = []"
    and "os_file (myOs m) ''out/7T-5+1.warp'' = Some ''PRAY''"
  shows "\<exists>m'. SendOutboxFile ''out/7T-5+1.warp'' m = (True, m') \<and> Online m'"
proof -
  let ?p = "pray_payload ''PRAY''"
  have l: "length ?p = 16" by (simp add: pray_payload_def PutInt_def)
  then have "read_cint_bytes ?p 0 (of_nat (length ?p)) = Some ?p" "\<not> sint (of_nat (length ?p) :: cint) < 0"
    by (simp_all add: read_cint_bytes_def read_bytes_def)
  moreover have on: "Online m" "Online (m\<lparr>mySocket := example_socket\<lparr>myOutput := p\<rparr>\<rparr>)" for p
    using assms(1,2) by (simp_all add: Online_def IsConnected_def example_defs)
  ultimately obtain p where "PostDirectMessage ''5+1'' ?p (of_nat (length ?p)) m = (True, m\<lparr>mySocket := example_socket\<lparr>myOutput := p\<rparr>\<rparr>)"
    using example_writes [OF assms(1,3)]
    by (simp only: PostDirectMessage_def FromString_example Let_def prod.case option.case simp_thms if_False if_True)
  moreover have "Online (n\<lparr>myOs := w\<rparr>) = Online n" for n w by (simp add: Online_def)
  ultimately show ?thesis
    using ReadWholeFile_there [OF assms(4,5)] on(2) by (simp add: SendOutboxFile_def example_outbox Let_def)
qed

section \<open>Properties\<close>

text \<open>C10: A scan of the outbox on a connection that lasts sends everything: one packet per file, with
  its contents and to the user its name says, in the order of the directory, and nothing else;
  the files sent are gone, every other file is as it was, and the outbox is empty.\<close>

theorem outbox_emptied:
  assumes "myOutboxDirectory m \<noteq> []" "myOutboxDirty m" "Online (ScanOutbox m)"
    and "osIo (myOs m) = []" "distinct (map fst (osFiles (myOs m)))"
    and "names = fst (ListFilesWithExtension (myOutboxDirectory m) ''.warp'' (myOs m))"
    and "\<forall>name \<in> set names. addressed (myOs m) (myOutboxDirectory m @ name)"
  shows "let m' = ScanOutbox m in
    written (mySocket m') (myOs m') = written (mySocket m) (myOs m)
      @ concat (map (\<lambda>name. outbox_packet m (myOutboxDirectory m @ name)) names)
    \<and> os_file (myOs m') = os_file (myOs m) |` (- (\<lambda>name. myOutboxDirectory m @ name) ` set names)
    \<and> fst (ListFilesWithExtension (myOutboxDirectory m) ''.warp'' (myOs m')) = []"
proof -
  obtain now w where t: "mgr_now m = (now, m\<lparr>myOs := w\<rparr>)" and w: "w = (myOs m)\<lparr>osClockReads := Suc (osClockReads (myOs m))\<rparr>"
    by (simp add: mgr_now_def os_op_def NowMs_def)
  let ?n = "m\<lparr>myOutboxDirty := False, myNextOutboxScan := now + OUTBOX_RESCAN_MS, myOs := w\<rparr>"
  have n: "osIo w = []" "os_file w = os_file (myOs m)" "written (mySocket ?n) w = written (mySocket m) (myOs m)"
    using assms(4) by (simp_all add: w os_file_def written_def fun_eq_iff)
  have l: "fst (ListFilesWithExtension (myOutboxDirectory m) ''.warp'' w) = names"
    unfolding assms(6) using assms(4) by (simp add: w ListFilesWithExtension_def os_list_directory_def os_io_def)
  have run: "ScanOutbox m = SendOutboxFiles names ?n"
    using assms(1,2) t l ListFiles_quiet [OF n(1), of "myOutboxDirectory m" "''.warp''"]
    by (simp add: ScanOutbox_def os_op_def Let_def)
  have a: "\<forall>name \<in> set names. addressed (myOs ?n) (myOutboxDirectory ?n @ name)"
    using assms(7) n(2) by (simp add: addressed_def)
  have pk: "outbox_packet ?n = outbox_packet m" using n(2) by (simp add: outbox_packet_def fun_eq_iff)
  have "distinct names" using distinct_ListFiles [OF assms(4,5)] by (simp add: assms(6))
  note c = SendOutboxFiles_clean [of ?n, OF _ this a assms(3) [unfolded run]]
  have c: "written (mySocket (ScanOutbox m)) (myOs (ScanOutbox m)) = written (mySocket m) (myOs m)
      @ concat (map (\<lambda>name. outbox_packet m (myOutboxDirectory m @ name)) names)"
    "os_file (myOs (ScanOutbox m)) = os_file (myOs m) |` (- (\<lambda>name. myOutboxDirectory m @ name) ` set names)"
    "osIo (myOs (ScanOutbox m)) = []"
    using c n pk unfolding run by simp_all
  have "name \<notin> set (fst (ListFilesWithExtension (myOutboxDirectory m) ''.warp'' (myOs (ScanOutbox m))))" for name
    by (auto simp: mem_ListFiles [OF c(3)] c(2) restrict_map_def assms(6) mem_ListFiles [OF assms(4)] split: if_splits)
  then have "fst (ListFilesWithExtension (myOutboxDirectory m) ''.warp'' (myOs (ScanOutbox m))) = []"
    using last_in_set by blast
  then show ?thesis using c by (simp add: Let_def)
qed

theorem outbox_emptied_witness:
  "let m = example_sender; m' = ScanOutbox m in
   written (mySocket m') (myOs m')
      = BuildMessage \<lparr>uid = 9, hid = 1\<rparr> \<lparr>uid = 7, hid = 1\<rparr> \<lparr>uid = 5, hid = 1\<rparr> (pray_payload ''PRAY'')
   \<and> os_file (myOs m') ''out/7T-5+1.warp'' = None \<and> os_file (myOs m') ''out/note.txt'' = Some ''x''"
proof -
  let ?m = example_sender
  have names: "fst (ListFilesWithExtension (myOutboxDirectory ?m) ''.warp'' (myOs ?m)) = [''7T-5+1.warp'']"
    by (simp add: example_sender_def example_system_def ListFilesWithExtension_def os_list_directory_def os_io_def)
  have f: "osIo (myOs ?m) = []" "os_file (myOs ?m) ''out/7T-5+1.warp'' = Some ''PRAY''" "osSends (myOs ?m) = []"
    "os_file (myOs ?m) ''out/note.txt'' = Some ''x''"
    "myOutboxDirectory ?m = ''out/''" "myOutboxDirty ?m" "distinct (map fst (osFiles (myOs ?m)))"
    "mySocket ?m = example_socket" "myConnectPhase ?m = PHASE_ONLINE" "written (mySocket ?m) (myOs ?m) = []"
    "myServerUIN ?m = \<lparr>uid = 9, hid = 1\<rparr>" "myUserUIN ?m = \<lparr>uid = 7, hid = 1\<rparr>"
    by (simp_all add: example_sender_def example_system_def example_online_def os_file_def written_def
        example_socket_def NetNatsueSocket_new_def)
  have adr: "addressed (myOs ?m) ''out/7T-5+1.warp''" using f(2) by (simp add: addressed_def example_outbox)
  let ?n = "snd (mgr_now ?m)\<lparr>myOutboxDirty := False, myNextOutboxScan := fst (mgr_now ?m) + OUTBOX_RESCAN_MS\<rparr>"
  have n: "mySocket ?n = example_socket" "myConnectPhase ?n = PHASE_ONLINE" "osSends (myOs ?n) = []" "osIo (myOs ?n) = []"
    "os_file (myOs ?n) ''out/7T-5+1.warp'' = Some ''PRAY''"
    using f by (simp_all add: mgr_now_def os_op_def NowMs_def os_file_def)
  have "ListFilesWithExtension ''out/'' ''.warp'' (myOs ?n) = ([''7T-5+1.warp''], myOs ?n)"
    using names f(5) ListFiles_quiet [OF n(4), of "''out/''" "''.warp''"] f(1)
    by (simp add: mgr_now_def os_op_def NowMs_def ListFilesWithExtension_def os_list_directory_def os_io_def)
  moreover obtain m1 where "SendOutboxFile ''out/7T-5+1.warp'' ?n = (True, m1)" "Online m1" using example_sends [OF n] by blast
  moreover have "myOutboxDirectory (snd (mgr_now ?m)) = ''out/''" using f(5) by (simp add: mgr_now_def os_op_def NowMs_def)
  ultimately have on: "Online (ScanOutbox ?m)"
    using f(5,6) n(1,2) by (simp add: ScanOutbox_def os_op_def case_prod_beta Let_def Online_def IsConnected_def
        example_socket_def NetNatsueSocket_new_def)
  have "outbox_packet ?m ''out/7T-5+1.warp''
      = BuildMessage \<lparr>uid = 9, hid = 1\<rparr> \<lparr>uid = 7, hid = 1\<rparr> \<lparr>uid = 5, hid = 1\<rparr> (pray_payload ''PRAY'')"
    using f(2,11,12) by (simp add: outbox_packet_def example_outbox FromString_example)
  then show ?thesis
    using outbox_emptied [OF _ f(6) on f(1,7) refl] f names adr by (simp add: Let_def restrict_map_def)
qed

end
