(* ===== verification/NetMemory.thy ===== *)
theory NetMemory imports NetCodec
begin

text \<open>
  \<open>NetMemoryPack\<close> and \<open>NetMemoryUnpack\<close>: the fixed-size packer and the reader of packed
  blobs.  An \<open>int\<close> copied with \<open>memcpy\<close> is its little-endian bytes, as on every host the
  library is built for.  The block \<open>new\<close> returns is not initialised; \<open>junk\<close> stands for what
  it holds.  A \<open>memcpy\<close> outside a block makes the result \<open>None\<close>.

  Both classes compare a sum of two \<open>int\<close>s with the size, so the sum can wrap.  The lemmas
  say exactly when: below \<open>INT_MAX\<close> the classes append and read back faithfully, and past it
  the bounds check is defeated.
\<close>

section \<open>NetMemoryPack\<close>

record NetMemoryPack =
  p_myBuffer :: "byte list"
  p_mySize :: cint
  p_myUsed :: cint

text \<open>\<open>new char[mySize + 1]\<close>; a negative array size is an exception, no object.\<close>

definition NetMemoryPack_new :: "cint \<Rightarrow> (nat \<Rightarrow> byte) \<Rightarrow> NetMemoryPack option" where
  "NetMemoryPack_new sz junk =
     (let mySize = (if sint sz < 0 then 0 else sz) in
      if sint (mySize + 1) < 0 then None
      else Some \<lparr>p_myBuffer = map junk [0..<nat (sint (mySize + 1))], p_mySize = mySize, p_myUsed = 0\<rparr>)"

definition write_bytes :: "byte list \<Rightarrow> cint \<Rightarrow> byte list \<Rightarrow> byte list option" where
  "write_bytes buf off xs =
     (if sint off < 0 \<or> length buf < nat (sint off) + length xs then None
      else Some (take (nat (sint off)) buf @ xs @ drop (nat (sint off) + length xs) buf))"

definition NetMemoryPack_PackIn :: "NetMemoryPack \<Rightarrow> byte list \<Rightarrow> cint \<Rightarrow> NetMemoryPack option" where
  "NetMemoryPack_PackIn p data sz =
     (if sint sz \<le> 0 then Some p
      else if sint (p_myUsed p + sz) > sint (p_mySize p) then Some p
      else do {
        xs \<leftarrow> read_cint_bytes data 0 sz;
        buf \<leftarrow> write_bytes (p_myBuffer p) (p_myUsed p) xs;
        Some (p\<lparr>p_myBuffer := buf, p_myUsed := p_myUsed p + sz\<rparr>) })"

definition NetMemoryPack_PackInString :: "NetMemoryPack \<Rightarrow> string \<Rightarrow> NetMemoryPack option" where
  "NetMemoryPack_PackInString p str =
     (let len = (of_nat (length str) :: cint) in do {
        p \<leftarrow> NetMemoryPack_PackIn p (le_bytes len) 4;
        if sint len > 0 then NetMemoryPack_PackIn p str len else Some p })"

definition NetMemoryPack_PackInInt :: "NetMemoryPack \<Rightarrow> cint \<Rightarrow> NetMemoryPack option" where
  "NetMemoryPack_PackInInt p v = NetMemoryPack_PackIn p (le_bytes v) 4"

definition NetMemoryPack_GetAddress :: "NetMemoryPack \<Rightarrow> byte list" where
  "NetMemoryPack_GetAddress p = p_myBuffer p"

definition NetMemoryPack_GetLength :: "NetMemoryPack \<Rightarrow> cint" where
  "NetMemoryPack_GetLength p = p_myUsed p"

text \<open>What a caller reads: \<open>GetLength\<close> bytes at \<open>GetAddress\<close>.\<close>

definition pack_contents :: "NetMemoryPack \<Rightarrow> byte list" where
  "pack_contents p = take (nat (sint (NetMemoryPack_GetLength p))) (NetMemoryPack_GetAddress p)"

definition pack_ok :: "NetMemoryPack \<Rightarrow> bool" where
  "pack_ok p \<longleftrightarrow> 0 \<le> sint (p_myUsed p) \<and> sint (p_myUsed p) \<le> sint (p_mySize p)
     \<and> length (p_myBuffer p) = nat (sint (p_mySize p)) + 1"

lemma pack_new_ok:
  assumes "sint sz < INT_MAX"
  shows "\<exists>p. NetMemoryPack_new sz junk = Some p \<and> pack_ok p \<and> pack_contents p = []
     \<and> sint (p_mySize p) = max 0 (sint sz)"
proof -
  have "sint (sz + 1) = sint sz + 1" if "0 \<le> sint sz"
    using that assms by (subst sint_add_id) simp_all
  then show ?thesis
    by (auto simp: NetMemoryPack_new_def pack_ok_def pack_contents_def NetMemoryPack_GetLength_def
        nat_add_distrib Let_def)
qed

lemma PackIn_appends:
  assumes ok: "pack_ok p" and sz: "0 < sint sz" "nat (sint sz) \<le> length data"
    and fits: "sint (p_myUsed p) + sint sz \<le> sint (p_mySize p)"
  shows "\<exists>p'. NetMemoryPack_PackIn p data sz = Some p' \<and> pack_ok p' \<and> p_mySize p' = p_mySize p
     \<and> pack_contents p' = pack_contents p @ take (nat (sint sz)) data
     \<and> sint (p_myUsed p') = sint (p_myUsed p) + sint sz"
proof -
  have used: "sint (p_myUsed p + sz) = sint (p_myUsed p) + sint sz"
    using ok sz fits cint_range [of "p_mySize p"] by (subst sint_add_id) (simp_all add: pack_ok_def)
  have rd: "read_cint_bytes data 0 sz = Some (take (nat (sint sz)) data)"
    using sz by (simp add: read_cint_bytes_def read_bytes_def)
  have room: "nat (sint (p_myUsed p)) + nat (sint sz) \<le> length (p_myBuffer p)"
    using ok fits by (simp add: pack_ok_def) linarith
  then have wr: "write_bytes (p_myBuffer p) (p_myUsed p) (take (nat (sint sz)) data)
      = Some (take (nat (sint (p_myUsed p))) (p_myBuffer p) @ take (nat (sint sz)) data
          @ drop (nat (sint (p_myUsed p)) + nat (sint sz)) (p_myBuffer p))"
    using ok sz by (simp add: write_bytes_def pack_ok_def min_absorb2)
  let ?p' = "p\<lparr>p_myBuffer := take (nat (sint (p_myUsed p))) (p_myBuffer p) @ take (nat (sint sz)) data
          @ drop (nat (sint (p_myUsed p)) + nat (sint sz)) (p_myBuffer p), p_myUsed := p_myUsed p + sz\<rparr>"
  have "NetMemoryPack_PackIn p data sz = Some ?p'"
    using sz fits by (simp add: NetMemoryPack_PackIn_def used rd wr not_less)
  moreover have "pack_ok ?p'"
    using ok sz fits room by (simp add: pack_ok_def used)
  moreover have "pack_contents ?p' = pack_contents p @ take (nat (sint sz)) data"
    using ok sz fits room
    by (simp add: pack_contents_def NetMemoryPack_GetLength_def NetMemoryPack_GetAddress_def used
        pack_ok_def nat_add_distrib min_absorb2)
  ultimately show ?thesis by (simp add: used)
qed

lemma PackIn_full:
  assumes ok: "pack_ok p" and sz: "0 < sint sz" "nat (sint sz) \<le> length data"
    and full: "sint (p_mySize p) < sint (p_myUsed p) + sint sz"
    and nowrap: "sint (p_myUsed p) + sint sz \<le> INT_MAX"
  shows "NetMemoryPack_PackIn p data sz = Some p"
proof -
  have "sint (p_myUsed p + sz) = sint (p_myUsed p) + sint sz"
    using ok sz nowrap by (subst sint_add_id) (simp_all add: pack_ok_def)
  with full sz show ?thesis by (simp add: NetMemoryPack_PackIn_def)
qed

lemma sint_add_wraps:
  fixes a b :: cint
  assumes "0 \<le> sint a" "0 \<le> sint b" "INT_MAX < sint a + sint b"
  shows "sint (a + b) < 0"
proof -
  have "sint (a + b) = (sint a + sint b + 2147483648) mod 4294967296 - 2147483648"
    by (simp add: sint_word_add signed_take_bit_eq_take_bit_shift take_bit_eq_mod)
  moreover have "(sint a + sint b + 2147483648) mod 4294967296 = sint a + sint b + 2147483648 - 4294967296"
    using assms cint_range [of a] cint_range [of b] by (simp add: mod_pos_geq)
  ultimately show ?thesis
    using assms cint_range [of a] cint_range [of b] by linarith
qed

text \<open>Past \<open>INT_MAX\<close> the sum wraps to a negative number, the check passes, and the copy overruns.\<close>

lemma PackIn_wraps:
  assumes ok: "pack_ok p" and sz: "0 < sint sz" "nat (sint sz) \<le> length data"
    and wrap: "INT_MAX < sint (p_myUsed p) + sint sz" and small: "sint (p_mySize p) < INT_MAX"
  shows "NetMemoryPack_PackIn p data sz = None"
proof -
  have neg: "sint (p_myUsed p + sz) < 0"
    using ok sz wrap by (intro sint_add_wraps) (simp_all add: pack_ok_def)
  then have check: "\<not> sint (p_mySize p) < sint (p_myUsed p + sz)"
    using ok by (simp add: pack_ok_def)
  have rd: "read_cint_bytes data 0 sz = Some (take (nat (sint sz)) data)"
    using sz by (simp add: read_cint_bytes_def read_bytes_def)
  have "length (p_myBuffer p) < nat (sint (p_myUsed p)) + nat (sint sz)"
    using ok wrap small sz by (simp add: pack_ok_def)
  then have "write_bytes (p_myBuffer p) (p_myUsed p) (take (nat (sint sz)) data) = None"
    using sz by (simp add: write_bytes_def min_absorb2)
  with check sz rd show ?thesis
    by (simp add: NetMemoryPack_PackIn_def)
qed

lemma PackInString_appends:
  assumes ok: "pack_ok p" and len: "int (length str) \<le> INT_MAX"
    and fits: "sint (p_myUsed p) + 4 + int (length str) \<le> sint (p_mySize p)"
  shows "\<exists>p'. NetMemoryPack_PackInString p str = Some p' \<and> pack_ok p' \<and> p_mySize p' = p_mySize p
     \<and> pack_contents p' = pack_contents p @ le_bytes (of_nat (length str)) @ str"
proof -
  have slen: "sint (of_nat (length str) :: cint) = int (length str)"
    using len by (rule sint_of_nat_id)
  obtain p1 where p1: "NetMemoryPack_PackIn p (le_bytes (of_nat (length str))) 4 = Some p1"
    "pack_ok p1" "p_mySize p1 = p_mySize p"
    "pack_contents p1 = pack_contents p @ le_bytes (of_nat (length str))"
    "sint (p_myUsed p1) = sint (p_myUsed p) + 4"
    using PackIn_appends [OF ok, of 4 "le_bytes (of_nat (length str))"] fits by auto
  show ?thesis
  proof (cases "str = []")
    case True
    with p1 show ?thesis by (simp add: NetMemoryPack_PackInString_def)
  next
    case False
    with p1 fits slen obtain p2 where "NetMemoryPack_PackIn p1 str (of_nat (length str)) = Some p2"
      "pack_ok p2" "p_mySize p2 = p_mySize p" "pack_contents p2 = pack_contents p1 @ str"
      using PackIn_appends [OF p1(2), of "of_nat (length str)" str] by auto
    with p1 slen False show ?thesis by (simp add: NetMemoryPack_PackInString_def)
  qed
qed

section \<open>NetMemoryUnpack\<close>

record NetMemoryUnpack =
  u_myBuffer :: "byte list"
  u_mySize :: cint
  u_myRead :: cint

definition NetMemoryUnpack_new :: "byte list \<Rightarrow> cint \<Rightarrow> NetMemoryUnpack" where
  "NetMemoryUnpack_new data sz =
     \<lparr>u_myBuffer = data, u_mySize = (if sint sz < 0 then 0 else sz), u_myRead = 0\<rparr>"

text \<open>The result, the bytes stored through the pointer on success, and the new state.\<close>

definition NetMemoryUnpack_PackOut ::
  "NetMemoryUnpack \<Rightarrow> cint \<Rightarrow> (bool \<times> byte list \<times> NetMemoryUnpack) option" where
  "NetMemoryUnpack_PackOut u sz =
     (if sint sz < 0 then Some (False, [], u)
      else if sint (u_myRead u + sz) > sint (u_mySize u) then Some (False, [], u)
      else do {
        xs \<leftarrow> read_cint_bytes (u_myBuffer u) (u_myRead u) sz;
        Some (True, xs, u\<lparr>u_myRead := u_myRead u + sz\<rparr>) })"

definition NetMemoryUnpack_PackOutString ::
  "NetMemoryUnpack \<Rightarrow> string \<Rightarrow> (bool \<times> string \<times> NetMemoryUnpack) option" where
  "NetMemoryUnpack_PackOutString u str = do {
     (ok, xs, u) \<leftarrow> NetMemoryUnpack_PackOut u 4;
     if \<not> ok then Some (False, str, u)
     else do {
       len \<leftarrow> GetInt xs 0;
       if sint len < 0 \<or> sint (u_myRead u + len) > sint (u_mySize u) then Some (False, str, u)
       else do {
         ys \<leftarrow> read_cint_bytes (u_myBuffer u) (u_myRead u) len;
         Some (True, ys, u\<lparr>u_myRead := u_myRead u + len\<rparr>) } } }"

definition NetMemoryUnpack_Remaining :: "NetMemoryUnpack \<Rightarrow> cint" where
  "NetMemoryUnpack_Remaining u = u_mySize u - u_myRead u"

definition unpack_ok :: "NetMemoryUnpack \<Rightarrow> bool" where
  "unpack_ok u \<longleftrightarrow> 0 \<le> sint (u_myRead u) \<and> sint (u_myRead u) \<le> sint (u_mySize u)
     \<and> length (u_myBuffer u) = nat (sint (u_mySize u))"

lemma unpack_new_ok:
  "length data = nat (sint sz) \<Longrightarrow> unpack_ok (NetMemoryUnpack_new data sz)"
  by (simp add: unpack_ok_def NetMemoryUnpack_new_def)

lemma PackOut_reads:
  assumes ok: "unpack_ok u" and sz: "0 \<le> sint sz" and fits: "sint (u_myRead u) + sint sz \<le> sint (u_mySize u)"
  shows "NetMemoryUnpack_PackOut u sz =
      Some (True, take (nat (sint sz)) (drop (nat (sint (u_myRead u))) (u_myBuffer u)),
            u\<lparr>u_myRead := u_myRead u + sz\<rparr>)"
    and "sint (u_myRead u + sz) = sint (u_myRead u) + sint sz"
proof -
  show rd: "sint (u_myRead u + sz) = sint (u_myRead u) + sint sz"
    using ok sz fits cint_range [of "u_mySize u"] by (subst sint_add_id) (simp_all add: unpack_ok_def)
  have "nat (sint (u_myRead u)) + nat (sint sz) \<le> length (u_myBuffer u)"
    using ok sz fits by (simp add: unpack_ok_def) linarith
  with ok sz fits rd show "NetMemoryUnpack_PackOut u sz =
      Some (True, take (nat (sint sz)) (drop (nat (sint (u_myRead u))) (u_myBuffer u)),
            u\<lparr>u_myRead := u_myRead u + sz\<rparr>)"
    by (simp add: NetMemoryUnpack_PackOut_def read_cint_bytes_def read_bytes_def unpack_ok_def not_less)
qed

lemma PackOut_short:
  assumes "unpack_ok u" "0 \<le> sint sz" "sint (u_mySize u) < sint (u_myRead u) + sint sz"
    "sint (u_myRead u) + sint sz \<le> INT_MAX"
  shows "NetMemoryUnpack_PackOut u sz = Some (False, [], u)"
proof -
  have "sint (u_myRead u + sz) = sint (u_myRead u) + sint sz"
    using assms by (subst sint_add_id) (simp_all add: unpack_ok_def)
  with assms show ?thesis by (simp add: NetMemoryUnpack_PackOut_def)
qed

text \<open>
  The length the blob claims for the next string, and what becomes of the read: refused when
  it is negative or past the end, read when it fits, and out of bounds when adding it to the
  read position passes \<open>INT_MAX\<close>.
\<close>

definition claimed_length :: "NetMemoryUnpack \<Rightarrow> int" where
  "claimed_length u = sint (int_at (u_myBuffer u) (nat (sint (u_myRead u))))"

lemma PackOutString_cases:
  assumes ok: "unpack_ok u" and four: "sint (u_myRead u) + 4 \<le> sint (u_mySize u)"
  defines "L \<equiv> claimed_length u" and "pos \<equiv> sint (u_myRead u) + 4"
    and "u' \<equiv> u\<lparr>u_myRead := u_myRead u + 4\<rparr>"
  shows "NetMemoryUnpack_PackOutString u str =
     (if L < 0 then Some (False, str, u')
      else if INT_MAX < pos + L then None
      else if sint (u_mySize u) < pos + L then Some (False, str, u')
      else Some (True, take (nat L) (drop (nat pos) (u_myBuffer u)),
                 u'\<lparr>u_myRead := u_myRead u + 4 + of_int L\<rparr>))"
proof -
  let ?len = "int_at (u_myBuffer u) (nat (sint (u_myRead u)))"
  have L: "L = sint ?len" by (simp add: L_def claimed_length_def)
  have out: "NetMemoryUnpack_PackOut u 4 =
      Some (True, take 4 (drop (nat (sint (u_myRead u))) (u_myBuffer u)), u')"
    and rd: "sint (u_myRead u + 4) = pos"
    using PackOut_reads [OF ok, of 4] four by (simp_all add: u'_def pos_def)
  have room: "nat (sint (u_myRead u)) + 4 \<le> length (u_myBuffer u)"
    using ok four by (simp add: unpack_ok_def) linarith
  then have len: "GetInt (take 4 (drop (nat (sint (u_myRead u))) (u_myBuffer u))) 0 = Some ?len"
    using GetInt_prefix [of 0 "take 4 (drop (nat (sint (u_myRead u))) (u_myBuffer u))"
        "drop 4 (drop (nat (sint (u_myRead u))) (u_myBuffer u))"]
      GetInt_int_at [OF room] by (simp add: GetInt_drop del: drop_drop)
  have pos0: "0 \<le> pos" using ok by (simp add: pos_def unpack_ok_def)
  have step: "NetMemoryUnpack_PackOutString u str =
      (if L < 0 \<or> sint (u_myRead u + 4 + ?len) > sint (u_mySize u) then Some (False, str, u')
       else do {
         ys \<leftarrow> read_cint_bytes (u_myBuffer u) (u_myRead u + 4) ?len;
         Some (True, ys, u'\<lparr>u_myRead := u_myRead u + 4 + ?len\<rparr>) })"
    by (simp add: NetMemoryUnpack_PackOutString_def out len L u'_def)
  show ?thesis
  proof (cases "L < 0")
    case True
    then show ?thesis by (simp add: step)
  next
    case pos_L: False
    show ?thesis
    proof (cases "INT_MAX < pos + L")
      case True
      have "sint (u_myRead u + 4 + ?len) < 0"
        using True pos0 pos_L by (intro sint_add_wraps) (simp_all add: rd L)
      moreover have "int (length (u_myBuffer u)) < pos + L"
        using True ok cint_range [of "u_mySize u"] by (simp add: unpack_ok_def)
      then have "read_cint_bytes (u_myBuffer u) (u_myRead u + 4) ?len = None"
        using pos0 pos_L by (simp add: read_cint_bytes_def read_bytes_def rd L [symmetric])
      ultimately show ?thesis
        using True pos_L ok by (simp add: step unpack_ok_def)
    next
      case False
      then have sum: "sint (u_myRead u + 4 + ?len) = pos + L"
        using pos0 pos_L by (subst sint_add_id) (simp_all add: rd L)
      have "read_cint_bytes (u_myBuffer u) (u_myRead u + 4) ?len =
          Some (take (nat L) (drop (nat pos) (u_myBuffer u)))" if "pos + L \<le> sint (u_mySize u)"
        using that pos0 pos_L ok
        by (simp add: read_cint_bytes_def read_bytes_def rd L [symmetric] unpack_ok_def)
      with False pos_L show ?thesis
        by (simp add: step sum L)
    qed
  qed
qed

text \<open>What \<open>PackInString\<close> appended is what \<open>PackOutString\<close> returns, and the reader stands behind it.\<close>

lemma PackOutString_packed:
  assumes buf: "u_myBuffer u = pre @ le_bytes (of_nat (length str)) @ str @ post"
    and pos: "sint (u_myRead u) = int (length pre)" and ok: "unpack_ok u"
  shows "NetMemoryUnpack_PackOutString u s0 =
      Some (True, str, u\<lparr>u_myRead := u_myRead u + 4 + of_nat (length str)\<rparr>)"
proof -
  have len: "int (length pre + 4 + length str) \<le> sint (u_mySize u)"
    using ok buf by (simp add: unpack_ok_def) linarith
  then have small: "int (length str) \<le> INT_MAX"
    using cint_range [of "u_mySize u"] by simp
  have L: "claimed_length u = int (length str)"
    using small by (simp add: claimed_length_def buf pos int_at_def GetInt_at sint_of_nat_id)
  show ?thesis
    using len small cint_range [of "u_mySize u"]
    by (subst PackOutString_cases [OF ok]) (simp_all add: L pos buf nat_add_distrib)
qed

section \<open>Properties\<close>

text \<open>Packing a list of strings one after the other, and taking as many out again.\<close>

fun pack_strings :: "string list \<Rightarrow> NetMemoryPack \<Rightarrow> NetMemoryPack option" where
  "pack_strings [] p = Some p"
| "pack_strings (s # ss) p = do { p \<leftarrow> NetMemoryPack_PackInString p s; pack_strings ss p }"

fun unpack_strings :: "nat \<Rightarrow> NetMemoryUnpack \<Rightarrow> (string list \<times> NetMemoryUnpack) option" where
  "unpack_strings 0 u = Some ([], u)"
| "unpack_strings (Suc n) u = do {
     (ok, s, u) \<leftarrow> NetMemoryUnpack_PackOutString u [];
     if ok then do { (ss, u) \<leftarrow> unpack_strings n u; Some (s # ss, u) } else None }"

definition strings_size :: "string list \<Rightarrow> int" where
  "strings_size ss = (\<Sum>s\<leftarrow>ss. 4 + int (length s))"

definition packed_strings :: "string list \<Rightarrow> byte list" where
  "packed_strings ss = concat (map (\<lambda>s. le_bytes (of_nat (length s)) @ s) ss)"

lemma strings_size_nonneg: "0 \<le> strings_size ss"
  by (induction ss) (simp_all add: strings_size_def)

lemma length_packed_strings: "int (length (packed_strings ss)) = strings_size ss"
  by (induction ss) (simp_all add: strings_size_def packed_strings_def)

lemma pack_used: "pack_ok p \<Longrightarrow> sint (p_myUsed p) = int (length (pack_contents p))"
proof -
  assume ok: "pack_ok p"
  then have "nat (sint (p_myUsed p)) \<le> length (p_myBuffer p)" by (simp add: pack_ok_def) linarith
  then show ?thesis
    using ok by (simp add: pack_ok_def pack_contents_def NetMemoryPack_GetLength_def NetMemoryPack_GetAddress_def min_absorb2)
qed

lemma pack_strings_appends:
  "pack_ok p \<Longrightarrow> sint (p_myUsed p) + strings_size ss \<le> sint (p_mySize p) \<Longrightarrow>
   \<exists>p'. pack_strings ss p = Some p' \<and> pack_ok p' \<and> p_mySize p' = p_mySize p
     \<and> pack_contents p' = pack_contents p @ packed_strings ss"
proof (induction ss arbitrary: p)
  case Nil
  then show ?case by (simp add: packed_strings_def)
next
  case (Cons s ss)
  have sz: "sint (p_myUsed p) + 4 + int (length s) + strings_size ss \<le> sint (p_mySize p)"
    using Cons.prems(2) by (simp add: strings_size_def)
  have u0: "0 \<le> sint (p_myUsed p)" using Cons.prems(1) by (simp add: pack_ok_def)
  have l: "int (length s) \<le> INT_MAX"
    using sz u0 strings_size_nonneg [of ss] cint_range [of "p_mySize p"] by linarith
  have f: "sint (p_myUsed p) + 4 + int (length s) \<le> sint (p_mySize p)" using sz strings_size_nonneg [of ss] by linarith
  obtain p1 where p1: "NetMemoryPack_PackInString p s = Some p1" "pack_ok p1" "p_mySize p1 = p_mySize p"
    "pack_contents p1 = pack_contents p @ le_bytes (of_nat (length s)) @ s"
    using PackInString_appends [OF Cons.prems(1) l f] by blast
  have "sint (p_myUsed p1) = sint (p_myUsed p) + 4 + int (length s)"
    using pack_used [OF p1(2)] pack_used [OF Cons.prems(1)] p1(4) by simp
  then obtain p' where "pack_strings ss p1 = Some p'" "pack_ok p'" "p_mySize p' = p_mySize p1"
    "pack_contents p' = pack_contents p1 @ packed_strings ss"
    using Cons.IH [OF p1(2)] sz p1(3) by auto
  then show ?case using p1 by (simp add: packed_strings_def)
qed

lemma unpack_strings_packed:
  "unpack_ok u \<Longrightarrow> u_myBuffer u = pre @ packed_strings ss @ post \<Longrightarrow> sint (u_myRead u) = int (length pre) \<Longrightarrow>
   \<exists>u'. unpack_strings (length ss) u = Some (ss, u') \<and> sint (u_myRead u') = int (length pre) + strings_size ss
     \<and> u_mySize u' = u_mySize u"
proof (induction ss arbitrary: pre u)
  case Nil
  then show ?case by (simp add: strings_size_def)
next
  case (Cons s ss)
  have buf: "u_myBuffer u = pre @ le_bytes (of_nat (length s)) @ s @ packed_strings ss @ post"
    using Cons.prems(2) by (simp add: packed_strings_def)
  let ?u = "u\<lparr>u_myRead := u_myRead u + 4 + of_nat (length s)\<rparr>"
  have out: "NetMemoryUnpack_PackOutString u [] = Some (True, s, ?u)"
    using PackOutString_packed [OF buf Cons.prems(3,1)] .
  have tot: "int (length pre) + 4 + int (length s) \<le> sint (u_mySize u)"
    using Cons.prems(1) buf by (simp add: unpack_ok_def) linarith
  have "sint (of_nat (length pre + 4 + length s) :: cint) = int (length pre + 4 + length s)"
    using tot cint_range [of "u_mySize u"] by (intro sint_of_nat_id) simp
  moreover have "u_myRead u = of_nat (length pre)"
    using Cons.prems(3) by (metis of_int_of_nat_eq of_int_sint scast_id)
  ultimately have rd: "sint (u_myRead ?u) = int (length (pre @ le_bytes (of_nat (length s)) @ s))"
    by (simp add: add.assoc)
  then have ok: "unpack_ok ?u" using Cons.prems(1) tot by (simp add: unpack_ok_def)
  from Cons.IH [OF ok _ rd] buf obtain u' where "unpack_strings (length ss) ?u = Some (ss, u')"
    "sint (u_myRead u') = int (length (pre @ le_bytes (of_nat (length s)) @ s)) + strings_size ss" "u_mySize u' = u_mySize u"
    by auto
  then show ?case using out by (simp add: strings_size_def)
qed



text \<open>C40: A string is taken out of bounds exactly when the length the blob claims, added to the read
  position, passes \<open>INT_MAX\<close>: the guard's sum wraps, which the class comment says cannot happen.\<close>

theorem unpack_string_out_of_bounds:
  assumes "unpack_ok u" "sint (u_myRead u) + 4 \<le> sint (u_mySize u)"
  shows "NetMemoryUnpack_PackOutString u str = None \<longleftrightarrow> INT_MAX < sint (u_myRead u) + 4 + claimed_length u"
proof -
  have "claimed_length u < 0 \<Longrightarrow> \<not> INT_MAX < sint (u_myRead u) + 4 + claimed_length u"
    using assms cint_range [of "u_mySize u"] by simp
  then show ?thesis using PackOutString_cases [OF assms, of str] by (auto split: if_splits)
qed

definition malicious_blob :: "byte list" where
  "malicious_blob = [CHR 0xFF, CHR 0xFF, CHR 0xFF, CHR 0x7F, CHR 0x00, CHR 0x00]"

theorem unpack_string_out_of_bounds_witness:
  "NetMemoryUnpack_PackOutString (NetMemoryUnpack_new malicious_blob 6) [] = None"
proof -
  let ?u = "NetMemoryUnpack_new malicious_blob 6"
  have "unpack_ok ?u" by (rule unpack_new_ok) (simp add: malicious_blob_def)
  moreover have "sint (u_myRead ?u) + 4 \<le> sint (u_mySize ?u)" by (simp add: NetMemoryUnpack_new_def)
  moreover have "claimed_length ?u = INT_MAX"
    by (simp add: claimed_length_def NetMemoryUnpack_new_def malicious_blob_def int_at_def GetInt_def word_of_def)
  ultimately show ?thesis
    using unpack_string_out_of_bounds [of ?u "[]"] by (simp add: NetMemoryUnpack_new_def)
qed

end
