(* ===== verification/NetHistory.thy ===== *)
theory NetHistory imports NetCodec
begin

text \<open>
  \<open>HistoryTransferOut\<close> of \<open>compat/\<close>: the packer of creature histories.  \<open>CreatureHistory\<close> and
  \<open>LifeEvent\<close> are classes of the engine; the records hold the fields this code reads.

  \<open>decode_history\<close> is the reader the layout in the header comment describes.  The lemmas show
  that it recovers everything that was written, and what the cached blob misses.
\<close>

section \<open>The data taken from the engine\<close>

record CreatureHistory =
  ch_myGender :: cint
  ch_myGenus :: cint
  ch_myVariant :: cint
  ch_myCrossoverMutationCount :: cint
  ch_myCrossoverCrossCount :: cint

record LifeEvent =
  le_myEventType :: cint
  le_myWorldTick :: cint
  le_myAgeInTicks :: cint
  le_myRealWorldTime :: cint
  le_myLifeStage :: cint
  le_myRelatedMoniker1 :: string
  le_myRelatedMoniker2 :: string
  le_myWorldName :: string
  le_myWorldUniqueIdentifier :: string
  le_myNetworkUser :: string

section \<open>HistoryTransferOut\<close>

record HistoryTransferOut =
  myMoniker :: string
  myHaveCreatureState :: bool
  myGender :: cint
  myGenus :: cint
  myVariant :: cint
  myPointMutations :: cint
  myCrossoverPoints :: cint
  myLifeEventsToSend :: "LifeEvent list"
  mySolidIndices :: "cint list"
  myName :: string
  myUserTexts :: "string list"
  myUserTextIndices :: "cint list"
  mySerialised :: bool
  hto_myBuffer :: "byte list"

definition HistoryTransferOut_new :: HistoryTransferOut where
  "HistoryTransferOut_new = \<lparr>myMoniker = [], myHaveCreatureState = False, myGender = 0, myGenus = 0,
     myVariant = 0, myPointMutations = 0, myCrossoverPoints = 0, myLifeEventsToSend = [],
     mySolidIndices = [], myName = [], myUserTexts = [], myUserTextIndices = [],
     mySerialised = False, hto_myBuffer = []\<rparr>"

definition WriteMoniker :: "string \<Rightarrow> HistoryTransferOut \<Rightarrow> HistoryTransferOut" where
  "WriteMoniker moniker h = h\<lparr>myMoniker := moniker\<rparr>"

definition WriteCreatureHistory :: "CreatureHistory \<Rightarrow> HistoryTransferOut \<Rightarrow> HistoryTransferOut" where
  "WriteCreatureHistory history h = h\<lparr>myHaveCreatureState := True,
     myGender := ch_myGender history, myGenus := ch_myGenus history,
     myVariant := ch_myVariant history,
     myPointMutations := ch_myCrossoverMutationCount history,
     myCrossoverPoints := ch_myCrossoverCrossCount history\<rparr>"

definition WriteLifeEvent :: "LifeEvent \<Rightarrow> cint \<Rightarrow> HistoryTransferOut \<Rightarrow> HistoryTransferOut" where
  "WriteLifeEvent event solidIndex h =
     h\<lparr>myLifeEventsToSend := myLifeEventsToSend h @ [event],
       mySolidIndices := mySolidIndices h @ [solidIndex]\<rparr>"

definition WriteName :: "string \<Rightarrow> HistoryTransferOut \<Rightarrow> HistoryTransferOut" where
  "WriteName name h = h\<lparr>myName := name\<rparr>"

definition WriteUserText :: "cint \<Rightarrow> string \<Rightarrow> HistoryTransferOut \<Rightarrow> HistoryTransferOut" where
  "WriteUserText solidIndex userText h =
     h\<lparr>myUserTexts := myUserTexts h @ [userText],
       myUserTextIndices := myUserTextIndices h @ [solidIndex]\<rparr>"

definition hto_PutInt :: "byte list \<Rightarrow> cint \<Rightarrow> byte list" where
  "hto_PutInt buf v = buf @ le_bytes v"

definition hto_PutByte :: "byte list \<Rightarrow> byte \<Rightarrow> byte list" where
  "hto_PutByte buf v = buf @ [v]"

definition hto_PutString :: "byte list \<Rightarrow> string \<Rightarrow> byte list" where
  "hto_PutString buf str = hto_PutInt buf (of_nat (length str)) @ str"

definition put_event :: "byte list \<Rightarrow> LifeEvent \<Rightarrow> cint \<Rightarrow> byte list" where
  "put_event buf event solidIndex =
     (let buf = hto_PutInt buf (le_myEventType event);
          buf = hto_PutInt buf (le_myWorldTick event);
          buf = hto_PutInt buf (le_myAgeInTicks event);
          buf = hto_PutInt buf (le_myRealWorldTime event);
          buf = hto_PutInt buf (le_myLifeStage event);
          buf = hto_PutString buf (le_myRelatedMoniker1 event);
          buf = hto_PutString buf (le_myRelatedMoniker2 event);
          buf = hto_PutString buf (le_myWorldName event);
          buf = hto_PutString buf (le_myWorldUniqueIdentifier event);
          buf = hto_PutString buf (le_myNetworkUser event)
      in hto_PutInt buf solidIndex)"

text \<open>The loops read the vector of indices in step with the other one; \<open>None\<close> past its end.\<close>

fun put_events :: "byte list \<Rightarrow> LifeEvent list \<Rightarrow> cint list \<Rightarrow> byte list option" where
  "put_events buf [] _ = Some buf"
| "put_events buf (e # es) (i # is) = put_events (put_event buf e i) es is"
| "put_events buf (e # es) [] = None"

fun put_user_texts :: "byte list \<Rightarrow> string list \<Rightarrow> cint list \<Rightarrow> byte list option" where
  "put_user_texts buf [] _ = Some buf"
| "put_user_texts buf (t # ts) (i # is) = put_user_texts (hto_PutInt (hto_PutString buf t) i) ts is"
| "put_user_texts buf (t # ts) [] = None"

definition Serialise :: "HistoryTransferOut \<Rightarrow> HistoryTransferOut option" where
  "Serialise h =
     (if mySerialised h then Some h
      else do {
        let buf = hto_PutString [] (myMoniker h);
        let buf = hto_PutByte buf (if myHaveCreatureState h then CHR 0x01 else CHR 0x00);
        let buf = (if myHaveCreatureState h
                   then hto_PutInt (hto_PutInt (hto_PutInt (hto_PutInt (hto_PutInt buf
                          (myGender h)) (myGenus h)) (myVariant h)) (myPointMutations h)) (myCrossoverPoints h)
                   else buf);
        let buf = hto_PutInt buf (of_nat (length (myLifeEventsToSend h)));
        buf \<leftarrow> put_events buf (myLifeEventsToSend h) (mySolidIndices h);
        let buf = hto_PutString buf (myName h);
        let buf = hto_PutInt buf (of_nat (length (myUserTexts h)));
        buf \<leftarrow> put_user_texts buf (myUserTexts h) (myUserTextIndices h);
        Some (h\<lparr>mySerialised := True, hto_myBuffer := buf\<rparr>) })"

text \<open>\<open>GetAddress\<close> and \<open>GetLength\<close>: \<open>None\<close> inside the pair is the \<open>NULL\<close> pointer.\<close>

definition HistoryTransferOut_GetAddress ::
  "HistoryTransferOut \<Rightarrow> (byte list option \<times> HistoryTransferOut) option" where
  "HistoryTransferOut_GetAddress h =
     (if myMoniker h = [] then Some (None, h)
      else do { h \<leftarrow> Serialise h; Some (Some (hto_myBuffer h), h) })"

definition HistoryTransferOut_GetLength :: "HistoryTransferOut \<Rightarrow> (cint \<times> HistoryTransferOut) option" where
  "HistoryTransferOut_GetLength h =
     (if myMoniker h = [] then Some (0, h)
      else do { h \<leftarrow> Serialise h; Some (of_nat (length (hto_myBuffer h)), h) })"

lemmas hto_write_defs = WriteMoniker_def WriteCreatureHistory_def WriteLifeEvent_def WriteName_def
  WriteUserText_def

definition indices_match :: "HistoryTransferOut \<Rightarrow> bool" where
  "indices_match h \<longleftrightarrow> length (mySolidIndices h) = length (myLifeEventsToSend h)
     \<and> length (myUserTextIndices h) = length (myUserTexts h)"

lemma indices_match_new: "indices_match HistoryTransferOut_new"
  by (simp add: indices_match_def HistoryTransferOut_new_def)

lemma indices_match_write [intro]:
  "indices_match h \<Longrightarrow> indices_match (WriteMoniker m h)"
  "indices_match h \<Longrightarrow> indices_match (WriteCreatureHistory c h)"
  "indices_match h \<Longrightarrow> indices_match (WriteLifeEvent e i h)"
  "indices_match h \<Longrightarrow> indices_match (WriteName m h)"
  "indices_match h \<Longrightarrow> indices_match (WriteUserText i m h)"
  by (simp_all add: indices_match_def hto_write_defs)

section \<open>The bytes of a blob\<close>

definition str_bytes :: "string \<Rightarrow> byte list" where
  "str_bytes s = le_bytes (of_nat (length s)) @ s"

definition event_bytes :: "LifeEvent \<times> cint \<Rightarrow> byte list" where
  "event_bytes = (\<lambda>(e, i). le_bytes (le_myEventType e) @ le_bytes (le_myWorldTick e)
     @ le_bytes (le_myAgeInTicks e) @ le_bytes (le_myRealWorldTime e) @ le_bytes (le_myLifeStage e)
     @ str_bytes (le_myRelatedMoniker1 e) @ str_bytes (le_myRelatedMoniker2 e)
     @ str_bytes (le_myWorldName e) @ str_bytes (le_myWorldUniqueIdentifier e)
     @ str_bytes (le_myNetworkUser e) @ le_bytes i)"

definition text_bytes :: "string \<times> cint \<Rightarrow> byte list" where
  "text_bytes = (\<lambda>(t, i). str_bytes t @ le_bytes i)"

lemma hto_PutString_eq: "hto_PutString buf s = buf @ str_bytes s"
  by (simp add: hto_PutString_def hto_PutInt_def str_bytes_def)

lemma put_event_eq: "put_event buf e i = buf @ event_bytes (e, i)"
  by (simp add: put_event_def event_bytes_def hto_PutInt_def hto_PutString_eq Let_def)

lemma put_events_eq:
  "length is = length es \<Longrightarrow> put_events buf es is = Some (buf @ concat (map event_bytes (zip es is)))"
  by (induction buf es "is" rule: put_events.induct) (simp_all add: put_event_eq)

lemma put_user_texts_eq:
  "length is = length ts \<Longrightarrow> put_user_texts buf ts is = Some (buf @ concat (map text_bytes (zip ts is)))"
  by (induction buf ts "is" rule: put_user_texts.induct)
    (simp_all add: hto_PutString_eq hto_PutInt_def text_bytes_def)

definition state_bytes :: "HistoryTransferOut \<Rightarrow> byte list" where
  "state_bytes h = (if myHaveCreatureState h
     then CHR 0x01 # le_bytes (myGender h) @ le_bytes (myGenus h) @ le_bytes (myVariant h)
            @ le_bytes (myPointMutations h) @ le_bytes (myCrossoverPoints h)
     else [CHR 0x00])"

definition history_bytes :: "HistoryTransferOut \<Rightarrow> byte list" where
  "history_bytes h = str_bytes (myMoniker h) @ state_bytes h
     @ le_bytes (of_nat (length (myLifeEventsToSend h)))
     @ concat (map event_bytes (zip (myLifeEventsToSend h) (mySolidIndices h)))
     @ str_bytes (myName h) @ le_bytes (of_nat (length (myUserTexts h)))
     @ concat (map text_bytes (zip (myUserTexts h) (myUserTextIndices h)))"

lemma Serialise_eq:
  "indices_match h \<Longrightarrow> \<not> mySerialised h \<Longrightarrow>
   Serialise h = Some (h\<lparr>mySerialised := True, hto_myBuffer := history_bytes h\<rparr>)"
  by (simp add: Serialise_def indices_match_def put_events_eq put_user_texts_eq hto_PutString_eq
      hto_PutInt_def hto_PutByte_def history_bytes_def state_bytes_def Let_def)

section \<open>The reader of the documented layout\<close>

definition rd_int :: "byte list \<Rightarrow> (cint \<times> byte list) option" where
  "rd_int xs = do { v \<leftarrow> GetInt xs 0; Some (v, drop 4 xs) }"

definition rd_string :: "byte list \<Rightarrow> (string \<times> byte list) option" where
  "rd_string xs = do {
     (n, xs) \<leftarrow> rd_int xs;
     s \<leftarrow> read_cint_bytes xs 0 n;
     Some (s, drop (nat (sint n)) xs) }"

definition rd_byte :: "byte list \<Rightarrow> (byte \<times> byte list) option" where
  "rd_byte xs = (case xs of [] \<Rightarrow> None | x # xs \<Rightarrow> Some (x, xs))"

fun rd_list :: "(byte list \<Rightarrow> ('a \<times> byte list) option) \<Rightarrow> nat \<Rightarrow> byte list \<Rightarrow> ('a list \<times> byte list) option" where
  "rd_list rd 0 xs = Some ([], xs)"
| "rd_list rd (Suc n) xs = do {
     (y, xs) \<leftarrow> rd xs;
     (ys, xs) \<leftarrow> rd_list rd n xs;
     Some (y # ys, xs) }"

definition rd_event :: "byte list \<Rightarrow> ((LifeEvent \<times> cint) \<times> byte list) option" where
  "rd_event xs = do {
     (ty, xs) \<leftarrow> rd_int xs;
     (tick, xs) \<leftarrow> rd_int xs;
     (age, xs) \<leftarrow> rd_int xs;
     (time, xs) \<leftarrow> rd_int xs;
     (stage, xs) \<leftarrow> rd_int xs;
     (m1, xs) \<leftarrow> rd_string xs;
     (m2, xs) \<leftarrow> rd_string xs;
     (wn, xs) \<leftarrow> rd_string xs;
     (wu, xs) \<leftarrow> rd_string xs;
     (nu, xs) \<leftarrow> rd_string xs;
     (i, xs) \<leftarrow> rd_int xs;
     Some ((\<lparr>le_myEventType = ty, le_myWorldTick = tick, le_myAgeInTicks = age,
             le_myRealWorldTime = time, le_myLifeStage = stage, le_myRelatedMoniker1 = m1,
             le_myRelatedMoniker2 = m2, le_myWorldName = wn, le_myWorldUniqueIdentifier = wu,
             le_myNetworkUser = nu\<rparr>, i), xs) }"

definition rd_text :: "byte list \<Rightarrow> ((string \<times> cint) \<times> byte list) option" where
  "rd_text xs = do { (t, xs) \<leftarrow> rd_string xs; (i, xs) \<leftarrow> rd_int xs; Some ((t, i), xs) }"

definition rd_state :: "byte list \<Rightarrow> (cint list option \<times> byte list) option" where
  "rd_state xs = do {
     (b, xs) \<leftarrow> rd_byte xs;
     if b = CHR 0x00 then Some (None, xs)
     else do { (vs, xs) \<leftarrow> rd_list rd_int 5 xs; Some (Some vs, xs) } }"

record history_blob =
  hb_moniker :: string
  hb_state :: "cint list option"
  hb_events :: "(LifeEvent \<times> cint) list"
  hb_name :: string
  hb_texts :: "(string \<times> cint) list"

definition decode_history :: "byte list \<Rightarrow> (history_blob \<times> byte list) option" where
  "decode_history xs = do {
     (m, xs) \<leftarrow> rd_string xs;
     (st, xs) \<leftarrow> rd_state xs;
     (n, xs) \<leftarrow> rd_int xs;
     (evs, xs) \<leftarrow> rd_list rd_event (unat n) xs;
     (nm, xs) \<leftarrow> rd_string xs;
     (k, xs) \<leftarrow> rd_int xs;
     (txs, xs) \<leftarrow> rd_list rd_text (unat k) xs;
     Some (\<lparr>hb_moniker = m, hb_state = st, hb_events = evs, hb_name = nm, hb_texts = txs\<rparr>, xs) }"

section \<open>Reading back\<close>

text \<open>
  A reader undoes a printer on the values of a set: it returns the value and leaves exactly
  the rest.  The contract is closed under repetition, which is what the two loops need.
\<close>

locale reader =
  fixes print :: "'a \<Rightarrow> byte list"
    and rd :: "byte list \<Rightarrow> ('a \<times> byte list) option"
    and valid :: "'a \<Rightarrow> bool"
  assumes rd_print: "valid x \<Longrightarrow> rd (print x @ rest) = Some (x, rest)"
begin

lemma rd_list_print:
  "\<forall>x\<in>set xs. valid x \<Longrightarrow> rd_list rd (length xs) (concat (map print xs) @ rest) = Some (xs, rest)"
  by (induction xs) (simp_all add: rd_print)

lemma print_unambiguous:
  "valid x \<Longrightarrow> valid y \<Longrightarrow> print x @ a = print y @ b \<Longrightarrow> x = y \<and> a = b"
  by (metis rd_print option.inject prod.inject)

end

definition short_string :: "string \<Rightarrow> bool" where
  "short_string s \<longleftrightarrow> int (length s) \<le> INT_MAX"

definition short_event :: "LifeEvent \<times> cint \<Rightarrow> bool" where
  "short_event = (\<lambda>(e, _). short_string (le_myRelatedMoniker1 e) \<and> short_string (le_myRelatedMoniker2 e)
     \<and> short_string (le_myWorldName e) \<and> short_string (le_myWorldUniqueIdentifier e)
     \<and> short_string (le_myNetworkUser e))"

lemma rd_int_print: "rd_int (le_bytes v @ rest) = Some (v, rest)"
  by (simp add: rd_int_def GetInt_head)

lemma rd_string_print: "short_string s \<Longrightarrow> rd_string (str_bytes s @ rest) = Some (s, rest)"
  by (simp add: rd_string_def str_bytes_def rd_int_print short_string_def sint_of_nat_id
      read_cint_bytes_def read_bytes_def)

interpretation int_reader: reader le_bytes rd_int "\<lambda>_. True"
  by unfold_locales (rule rd_int_print)

interpretation string_reader: reader str_bytes rd_string short_string
  by unfold_locales (rule rd_string_print)

interpretation event_reader: reader event_bytes rd_event short_event
proof unfold_locales
  fix x :: "LifeEvent \<times> cint" and rest
  assume "short_event x"
  then show "rd_event (event_bytes x @ rest) = Some (x, rest)"
    by (cases x) (simp add: rd_event_def event_bytes_def short_event_def rd_int_print rd_string_print)
qed

interpretation text_reader: reader text_bytes rd_text "\<lambda>(t, _). short_string t"
  by unfold_locales (auto simp: rd_text_def text_bytes_def rd_int_print rd_string_print)

definition history_of :: "HistoryTransferOut \<Rightarrow> history_blob" where
  "history_of h = \<lparr>hb_moniker = myMoniker h,
     hb_state = (if myHaveCreatureState h
       then Some [myGender h, myGenus h, myVariant h, myPointMutations h, myCrossoverPoints h] else None),
     hb_events = zip (myLifeEventsToSend h) (mySolidIndices h), hb_name = myName h,
     hb_texts = zip (myUserTexts h) (myUserTextIndices h)\<rparr>"

definition short_history :: "HistoryTransferOut \<Rightarrow> bool" where
  "short_history h \<longleftrightarrow> short_string (myMoniker h) \<and> short_string (myName h)
     \<and> (\<forall>e\<in>set (myLifeEventsToSend h). short_event (e, 0))
     \<and> (\<forall>t\<in>set (myUserTexts h). short_string t)
     \<and> int (length (myLifeEventsToSend h)) \<le> INT_MAX \<and> int (length (myUserTexts h)) \<le> INT_MAX"

lemma rd_state_print: "rd_state (state_bytes h @ rest) = Some (hb_state (history_of h), rest)"
proof (cases "myHaveCreatureState h")
  case True
  then show ?thesis
    by (simp add: rd_state_def state_bytes_def rd_byte_def history_of_def numeral_eq_Suc rd_int_print)
next
  case False
  then show ?thesis by (simp add: rd_state_def state_bytes_def rd_byte_def history_of_def)
qed

lemma unat_count: "int n \<le> INT_MAX \<Longrightarrow> unat (of_nat n :: cint) = n"
  by (simp add: unat_of_nat)

lemma decode_history_bytes:
  assumes idx: "indices_match h" and sh: "short_history h"
  shows "decode_history (history_bytes h @ rest) = Some (history_of h, rest)"
proof -
  let ?evs = "zip (myLifeEventsToSend h) (mySolidIndices h)"
  let ?txs = "zip (myUserTexts h) (myUserTextIndices h)"
  have lens: "length ?evs = length (myLifeEventsToSend h)" "length ?txs = length (myUserTexts h)"
    using idx by (simp_all add: indices_match_def)
  have counts: "unat (of_nat (length (myLifeEventsToSend h)) :: cint) = length ?evs"
    "unat (of_nat (length (myUserTexts h)) :: cint) = length ?txs"
    unfolding lens using sh by (intro unat_count; simp add: short_history_def)+
  have "\<forall>x\<in>set ?evs. short_event x" "\<forall>x\<in>set ?txs. (\<lambda>(t, _). short_string t) x"
    using sh by (auto simp: short_history_def short_event_def dest!: set_zip_leftD)
  note lists = event_reader.rd_list_print [OF this(1)] text_reader.rd_list_print [OF this(2)]
  with sh show ?thesis
    by (simp add: decode_history_def history_bytes_def short_history_def rd_string_print rd_int_print
        rd_state_print counts lists del: length_zip) (simp add: history_of_def)
qed

section \<open>Properties\<close>

text \<open>The calls the engine makes on a packer, and what a run of them means to say.\<close>

datatype hto_call = CallMoniker string | CallCreatureHistory CreatureHistory | CallLifeEvent LifeEvent cint
  | CallName string | CallUserText cint string

fun hto_do :: "hto_call \<Rightarrow> HistoryTransferOut \<Rightarrow> HistoryTransferOut" where
  "hto_do (CallMoniker moniker) h = WriteMoniker moniker h"
| "hto_do (CallCreatureHistory history) h = WriteCreatureHistory history h"
| "hto_do (CallLifeEvent event i) h = WriteLifeEvent event i h"
| "hto_do (CallName name) h = WriteName name h"
| "hto_do (CallUserText i t) h = WriteUserText i t h"

definition history_written :: "hto_call list \<Rightarrow> history_blob" where
  "history_written calls = \<lparr>
     hb_moniker = foldl (\<lambda>x c. case c of CallMoniker s \<Rightarrow> s | _ \<Rightarrow> x) [] calls,
     hb_state = foldl (\<lambda>x c. case c of CallCreatureHistory ch \<Rightarrow> Some [ch_myGender ch, ch_myGenus ch,
         ch_myVariant ch, ch_myCrossoverMutationCount ch, ch_myCrossoverCrossCount ch] | _ \<Rightarrow> x) None calls,
     hb_events = concat (map (\<lambda>c. case c of CallLifeEvent e i \<Rightarrow> [(e, i)] | _ \<Rightarrow> []) calls),
     hb_name = foldl (\<lambda>x c. case c of CallName s \<Rightarrow> s | _ \<Rightarrow> x) [] calls,
     hb_texts = concat (map (\<lambda>c. case c of CallUserText i t \<Rightarrow> [(t, i)] | _ \<Rightarrow> []) calls)\<rparr>"

lemma hto_do_indices: "indices_match h \<Longrightarrow> indices_match (hto_do c h)"
  by (cases c) auto

lemma history_of_calls:
  "indices_match (fold hto_do calls HistoryTransferOut_new)
   \<and> history_of (fold hto_do calls HistoryTransferOut_new) = history_written calls
   \<and> \<not> mySerialised (fold hto_do calls HistoryTransferOut_new)"
proof (induction calls rule: rev_induct)
  case Nil
  then show ?case
    by (simp add: indices_match_new) (simp add: HistoryTransferOut_new_def history_of_def history_written_def)
next
  case (snoc c calls)
  let ?h = "fold hto_do calls HistoryTransferOut_new"
  have "indices_match (hto_do c ?h)" using snoc hto_do_indices by blast
  then show ?case
    using snoc by (cases c) (auto simp: history_of_def history_written_def hto_write_defs indices_match_def)
qed

text \<open>C37: Whatever was written to a packer before its blob is taken, in whatever order, a reader of
  the documented layout gets all of it back from the blob, and the length reported is the blob's.\<close>

theorem history_round_trip:
  assumes "myMoniker (fold hto_do calls HistoryTransferOut_new) \<noteq> []"
    and "short_history (fold hto_do calls HistoryTransferOut_new)"
  shows "\<exists>blob h. HistoryTransferOut_GetAddress (fold hto_do calls HistoryTransferOut_new) = Some (Some blob, h)
    \<and> HistoryTransferOut_GetLength h = Some (of_nat (length blob), h)
    \<and> decode_history (blob @ rest) = Some (history_written calls, rest)"
proof -
  let ?h = "fold hto_do calls HistoryTransferOut_new"
  note c = history_of_calls [of calls]
  have "Serialise ?h = Some (?h\<lparr>mySerialised := True, hto_myBuffer := history_bytes ?h\<rparr>)"
    using c by (intro Serialise_eq) auto
  then show ?thesis
    using decode_history_bytes [of ?h rest] c assms
    by (simp add: HistoryTransferOut_GetAddress_def HistoryTransferOut_GetLength_def Serialise_def)
qed

theorem history_round_trip_witness:
  "\<exists>blob h. HistoryTransferOut_GetAddress (fold hto_do [CallUserText 2 ''hi'', CallMoniker ''001-mo''] HistoryTransferOut_new)
      = Some (Some blob, h)
    \<and> HistoryTransferOut_GetLength h = Some (of_nat (length blob), h)
    \<and> decode_history (blob @ ''more'') = Some (history_written [CallUserText 2 ''hi'', CallMoniker ''001-mo''], ''more'')"
  by (rule history_round_trip)
    (simp_all add: hto_write_defs HistoryTransferOut_new_def short_history_def short_string_def)

text \<open>C38: Once a blob was taken, nothing written later reaches the server: the packer hands out the
  same bytes again.\<close>

theorem history_written_late_is_lost:
  assumes "HistoryTransferOut_GetAddress h = Some (Some blob, h1)"
    and "myMoniker (fold hto_do calls h1) \<noteq> []"
  shows "HistoryTransferOut_GetAddress (fold hto_do calls h1) = Some (Some blob, fold hto_do calls h1)"
proof -
  have 1: "mySerialised h1 \<and> hto_myBuffer h1 = blob"
    using assms(1) by (auto simp: HistoryTransferOut_GetAddress_def Serialise_def bind_eq_Some_conv Let_def split: if_splits)
  have "mySerialised (hto_do c h) = mySerialised h \<and> hto_myBuffer (hto_do c h) = hto_myBuffer h" for c h
    by (cases c) (simp_all add: hto_write_defs)
  then have "mySerialised (fold hto_do calls h1) \<and> hto_myBuffer (fold hto_do calls h1) = blob"
    using 1 by (induction calls arbitrary: h1) simp_all
  then show ?thesis using assms(2) by (simp add: HistoryTransferOut_GetAddress_def Serialise_def)
qed

theorem history_written_late_is_lost_witness:
  "let h = HistoryTransferOut_new\<lparr>myMoniker := ''m''\<rparr>; h1 = h\<lparr>mySerialised := True, hto_myBuffer := history_bytes h\<rparr> in
   HistoryTransferOut_GetAddress (fold hto_do [CallName ''Eve''] h1) = Some (Some (history_bytes h), fold hto_do [CallName ''Eve''] h1)"
  unfolding Let_def
proof (rule history_written_late_is_lost)
  let ?h = "HistoryTransferOut_new\<lparr>myMoniker := ''m''\<rparr>"
  have "Serialise ?h = Some (?h\<lparr>mySerialised := True, hto_myBuffer := history_bytes ?h\<rparr>)"
    by (rule Serialise_eq) (simp_all add: indices_match_def HistoryTransferOut_new_def)
  then show "HistoryTransferOut_GetAddress ?h
      = Some (Some (history_bytes ?h), ?h\<lparr>mySerialised := True, hto_myBuffer := history_bytes ?h\<rparr>)"
    by (simp add: HistoryTransferOut_GetAddress_def)
  show "myMoniker (fold hto_do [CallName ''Eve''] (?h\<lparr>mySerialised := True, hto_myBuffer := history_bytes ?h\<rparr>)) \<noteq> []"
    by (simp add: WriteName_def)
qed

end
