(* ===== verification/Spec2Isabelle.thy ===== *)
theory Spec2Isabelle imports NetPolling NetMail NetAnswers NetOutbox NetMemory NetHistory
begin

text \<open>
  \<^bold>\<open>A verification library of Netnatsue\<close>, the client library for the network of the Creatures
  games: a TCP client that logs in to a server, watches which users are online, exchanges
  messages and warp files with them and answers queries of the game.

  \<^bold>\<open>The program and its model.\<close>  \<open>DSNetManager\<close> is the object the game talks to.  It owns a
  non-blocking socket (\<open>NetNatsueSocket\<close>), builds and parses packets with the functions of
  \<open>NetNatsueProtocol\<close>, and uses two spool directories for warp files.  The game calls it once
  a tick and polls: a call with a \<open>bool& block\<close> parameter is repeated while that is true.  All
  of this is single threaded, so a run is a sequence of public calls.
    \<^item> \<open>NetPrelude\<close>: machine types, reads of a block, collections of rules.
    \<^item> \<open>NetCodec\<close>, \<open>NetUin\<close>, \<open>NetPackets\<close>, \<open>NetParsers\<close>: \<open>NetNatsueProtocol.h\<close> and \<open>.cpp\<close>.
    \<^item> \<open>NetMemory\<close>: \<open>NetMemoryPack\<close>, \<open>NetMemoryUnpack\<close>.  \<open>NetHistory\<close>: \<open>compat/HistoryTransferOut\<close>.
      The engine uses both beside the manager; a history then goes out through it (C9).
    \<^item> \<open>NetOs\<close>: the operating system, a record of scripted answers; \<open>NetSocket\<close>:
      \<open>NetNatsueSocket\<close>; \<open>NetFiles\<close>: the file helpers at the top of \<open>DSNetManager.cpp\<close>.
    \<^item> \<open>NetState\<close>: the record \<open>mgr\<close> of all data members of \<open>DSNetManager\<close>, accessors, counters.
    \<^item> \<open>NetPresence\<close> (\<open>UpdatePresence\<close>, \<open>NextChangedUserWWR\<close>, ...), \<open>NetTransactions\<close>
      (\<open>StartTransaction\<close>, ..., \<open>Disconnect\<close>, \<open>ConnectionLost\<close>), \<open>NetDispatch\<close> (\<open>ProcessInput\<close>
      and the handlers), \<open>NetConnect\<close> (\<open>ConnectInBackground\<close>, \<open>Pump\<close>, \<open>WaitForTransaction\<close>),
      \<open>NetQueries\<close> (the calls of the game), \<open>NetSpool\<close> (outbox and queue): \<open>DSNetManager.cpp\<close>.
    \<^item> \<open>NetInvariant\<close>, \<open>NetInput\<close>, \<open>NetFrames\<close>, \<open>NetWaiting\<close>, \<open>NetSafety\<close>: the invariant of the
      manager, kept by every operation, and that waiting ends.  \<open>NetChunks\<close>, \<open>NetDelivery\<close>,
      \<open>NetAnswers\<close>: what the packet loop makes of a stream, from a packet to what the game gets.
    \<^item> \<open>NetOutbox\<close>: a whole scan of the outbox.  \<open>NetPolling\<close>: the calls with a \<open>bool& block\<close>
      parameter, repeated until they no longer block, end; one contract for all four of them.
    \<^item> \<open>NetCalls\<close>: the public calls as a step relation, and the contract of a relation they all
      keep; its instances are the phases (\<open>NetSystem\<close>), the game's picture of who is online
      (\<open>NetWatch\<close>) and the received messages (\<open>NetMail\<close>).

  A method takes the object (and what it uses) and returns its result, its out-parameters and
  the object; the name is the source's.  \<open>NetState.mgr\<close> holds the object, the socket, the
  static configuration and the system, so one value is the whole state.  The long functions
  are split at their comments: \<open>PumpConnectPhase\<close> into \<open>pump_connecting\<close>, \<open>pump_handshake\<close>,
  \<open>pump_deadline\<close>; \<open>ProcessInput\<close> into \<open>frame_size\<close> and \<open>handle_frame\<close>; the server list out of
  \<open>HandleHandshakeResponse\<close>.

  \<^bold>\<open>What can go wrong\<close> is a value.  A read outside a block is \<open>None\<close> in the functions that take a
  block and sets \<open>myFault\<close> in the manager, as does a loop that runs out of fuel; theorem
  \<open>every_run_is_safe\<close> says that neither ever happens.  A \<open>32 word\<close> stands for \<open>int\<close> and
  \<open>unsigned\<close>, so a sum wraps where the machine's does.

  \<^bold>\<open>Theorems.\<close>
    \<^item> The manager as a whole: it is safe in every run (C1), follows the machine of its phases
      (C2), keeps the game's picture of the users up to date (C3), loses no message (C4), keeps
      its table of requests well typed (C5), and does not see how the stream was cut (C6).
    \<^item> Between two managers: warp files and messages arrive (C7, C8).  From the packer of histories
      to the server (C9), and from the outbox to the server (C10).
    \<^item> Requests and login: C11 to C13, C22; the queries of the game end to end: C14 to C17.
    \<^item> Calls that wait return: C18, C19; calls that are polled end: C20, C21.
    \<^item> Spools and files: C23, C27 to C29.  The socket: C24 to C26.
    \<^item> Counters and servers: C30 to C32.
    \<^item> The wire formats: C33 to C36; history and memory blobs: C37 to C40.

  The interfaces are locales, each interpreted on the code's own definitions: \<open>fixed_codec\<close>
  (integers, the packet header), \<open>transport\<close> (the socket, and the manager's socket),
  \<open>fresh_search\<close> (spool names), \<open>id_counter\<close> (tickets, virtual socket numbers),
  \<open>request_table\<close> (the open requests), \<open>reader\<close> (the parts of a history blob),
  \<open>session_relation\<close> (what public calls keep: phases, presence, messages), \<open>polled_call\<close> (a call
  repeated until it no longer blocks: the three queries and the registration).

  \<^bold>\<open>Bounds.\<close>
    \<^item> \<open>ProcessInput\<close> has one unit of fuel more than there are buffered bytes; each pass that goes
      round consumes at least a header or ends the session.
    \<^item> \<open>unique_path\<close> has one more than there are files; the pigeonhole lemma shows that a free name
      is met.  With 2^32 files there may be none (\<open>NoFreeName\<close>; the source would not return).
    \<^item> The loops of \<open>Connect\<close>, \<open>WaitForTransaction\<close> and the blocking \<open>DSFetchRandomUser\<close>, and the
      repetition of a polled call (\<open>poll_until\<close>), end by the clock.  The clock is a function of the
      number of readings; the theorems say how much fuel is enough when it has passed the deadline
      from some reading on.  \<open>SleepMs\<close> is not a step of its own.
    \<^item> Buffers and blocks are shorter than 2^31 bytes, the range of the \<open>int\<close> that counts them;
      where a theorem needs this it says so.
    \<^item> The system is a script of answers.  A script is finite, and a run is: when it is used up,
      a call has nothing to report.  Nothing is assumed of what the script says.

  \<^bold>\<open>Assumed of code outside the repository.\<close>  The server forwards the packed part of a message
  behind a header of its own (\<open>message_header\<close>, in C7 and C8).  What a queued message of the
  engine does when sent is the parameter \<open>qsend\<close>; \<open>well_behaved\<close> says that what it does
  is a sequence of public calls, \<open>never_dials\<close> that none of them connects, \<open>sends_plainly\<close> and
  \<open>leaves_mail\<close> that none takes from a queue the game reads.

  \<^bold>\<open>Not modelled.\<close>  Every function of the implementation that computes or changes state has its
  definition, or is part of its caller's (\<open>RecordSystemError\<close>, \<open>SetNonBlocking\<close> and other calls of
  the system); left out are:
    \<^item> The log: \<open>DSNetManager::Log\<close> only formats text for an interface of the engine, and
      nothing flows back.
    \<^item> The Windows branches: the model is the other build, whose numbers stand for \<open>errno\<close>.
    \<^item> Name resolution, which is one answer of the script, and the fatal signal \<open>SIGPIPE\<close>, which
      the code does not ignore: the host is taken to, so that \<open>send\<close> returns its error.
    \<^item> \<open>QueuedMessage\<close> and \<open>MessageThread\<close>, interfaces of the engine with a debug text and a
      pointer; getters that return a data member, which the record's fields are.
    \<^item> The test driver and the build files.
  Signed overflow of \<open>myServerRotation\<close>, of the socket's byte counts and of a size is undefined in
  C++ and wraps here.
\<close>

section \<open>Properties that span components\<close>

text \<open>C1: No run of public calls, against whatever server, network, disk and clock, ever reads outside a
  buffer, runs out of the fuel of the packet loop, leaks a descriptor or is stuck between
  phases: what every reachable state of the manager satisfies.\<close>

theorem every_run_is_safe:
  assumes "reachable qsend m" "well_behaved qsend"
  shows "(myFault m = None \<or> myFault m = Some NoFreeName)
    \<and> osFds (myOs m) = (case myHandle (mySocket m) of None \<Rightarrow> [] | Some fd \<Rightarrow> [fd])
    \<and> (myHandle (mySocket m) \<noteq> None \<longleftrightarrow> live (mySocket m))
    \<and> (case myConnectPhase m of PHASE_IDLE \<Rightarrow> \<not> live (mySocket m) | PHASE_FAILED \<Rightarrow> \<not> live (mySocket m)
       | PHASE_CONNECTING \<Rightarrow> live (mySocket m) | PHASE_AWAIT_HANDSHAKE \<Rightarrow> IsConnected (mySocket m)
       | PHASE_ONLINE \<Rightarrow> uid (myServerUIN m) \<noteq> 0)
    \<and> distinct (myChangedUsers m) \<and> dom (myPendingWWRAdds m) \<subseteq> myWWRMembers m
    \<and> myTransactions m 0 = None"
proof -
  have g: "mgr_ok m" "settled m" using reachable_good [OF assms] by (simp_all add: good_def)
  note p = mgr_okD [OF g(1)]
  have "myTransactions m 0 = None" using p(2) by (cases "myTransactions m 0") (auto dest: table_okD(1))
  then show ?thesis
    using p g(2) by (cases "myConnectPhase m")
      (simp_all add: quiet_def sock_ok_def live_def register_ok_def phase_ok_def settled_def)
qed

text \<open>A queued message that takes a user off the register, as an engine's message might.\<close>

definition example_message :: "qmsg \<Rightarrow> mgr \<Rightarrow> mgr" where
  "example_message q m = RemoveFromWWR ''5+1'' m"

definition example_world :: mgr where
  "example_world = DSNetManager_new ''localhost'' 0 CLIENT_MODE_MODERN (example_system\<lparr>osFds := []\<rparr>)"

lemma example_message_ok: "well_behaved example_message"
  using quiet_call.remove_from_wwr by (auto simp: well_behaved_def example_message_def call_step_def)

lemma example_world_fresh: "fresh example_world"
proof -
  have "osFds (example_system\<lparr>osFds := []\<rparr>) = []" by simp
  then show ?thesis unfolding fresh_def example_world_def by blast
qed

theorem every_run_is_safe_witness:
  "let m = SendOrdinaryMessages example_message (QueueMessage 4 (SetUser ''Ann'' ''secret'' example_world)) in
   (myFault m = None \<or> myFault m = Some NoFreeName) \<and> osFds (myOs m) = (case myHandle (mySocket m) of None \<Rightarrow> [] | Some fd \<Rightarrow> [fd])"
proof -
  have "(api_step example_message)\<^sup>*\<^sup>* example_world (SendOrdinaryMessages example_message (QueueMessage 4 (SetUser ''Ann'' ''secret'' example_world)))"
    using api_step.call plain_call.set_user plain_call.queue_message quiet_call.plain api_step.tick unfolding call_step_def
    by (meson converse_rtranclp_into_rtranclp r_into_rtranclp)
  then have "reachable example_message (SendOrdinaryMessages example_message (QueueMessage 4 (SetUser ''Ann'' ''secret'' example_world)))"
    using example_world_fresh by (auto simp: reachable_def)
  then show ?thesis using every_run_is_safe example_message_ok unfolding Let_def by blast
qed

text \<open>C5: The table of requests is well typed in every reachable state: it is finite, has no entry for
  "no ticket", and each entry has its four results and expects the extra bytes that go with its
  kind; so the results a caller polls are there to be read.\<close>

theorem requests_well_typed:
  assumes "reachable qsend m" "well_behaved qsend"
  shows "finite (dom (myTransactions m))
    \<and> (\<forall>ticket t. myTransactions m ticket = Some t \<longrightarrow> ticket \<noteq> 0 \<and> length (t_resultInts t) = 4
        \<and> t_fixedExtra t \<in> (case t_kind t of TRANS_STATUS \<Rightarrow> {16} | TRANS_ABANDONED \<Rightarrow> {0, 16} | _ \<Rightarrow> {0}))
    \<and> (case PollTransaction k Transaction_new m of (completed, result, stillPending, m') \<Rightarrow> length (t_resultInts result) = 4)"
proof -
  have "mgr_ok m" using reachable_good [OF assms] by (simp add: good_def)
  then have t: "table_ok (myTransactions m)" by (rule mgr_okD(2))
  then have "finite (dom (myTransactions m))" by (simp add: table_ok_def)
  moreover have "ticket \<noteq> 0 \<and> length (t_resultInts t) = 4
      \<and> t_fixedExtra t \<in> (case t_kind t of TRANS_STATUS \<Rightarrow> {16} | TRANS_ABANDONED \<Rightarrow> {0, 16} | _ \<Rightarrow> {0})"
    if "myTransactions m ticket = Some t" for ticket t
    using table_okD [OF t that] by (cases "t_kind t") (auto simp: transaction_ok_def)
  ultimately show ?thesis by (auto simp: PollTransaction_def Transaction_new_def split: option.split)
qed

theorem requests_well_typed_witness:
  "let m = SendOrdinaryMessages example_message (SetUser ''Ann'' ''secret'' example_world) in
   finite (dom (myTransactions m)) \<and> length (t_resultInts (fst (snd (PollTransaction 7 Transaction_new m)))) = 4"
proof -
  have "(api_step example_message)\<^sup>*\<^sup>* example_world (SendOrdinaryMessages example_message (SetUser ''Ann'' ''secret'' example_world))"
    using api_step.call quiet_call.plain [OF plain_call.set_user] api_step.tick unfolding call_step_def
    by (meson converse_rtranclp_into_rtranclp r_into_rtranclp)
  then have "reachable example_message (SendOrdinaryMessages example_message (SetUser ''Ann'' ''secret'' example_world))"
    using example_world_fresh by (auto simp: reachable_def)
  from requests_well_typed [OF this example_message_ok, of 7] show ?thesis
    unfolding Let_def by (simp add: case_prod_beta)
qed

text \<open>C6: How the network cuts the stream into pieces does not matter: handling what has arrived and
  then the rest leaves the manager in the same state as handling everything at once, as long as
  the first piece did not end the session.\<close>

theorem chunks_do_not_matter:
  assumes "mgr_ok m" "int (length (myInput (mySocket m) @ later)) \<le> INT_MAX"
    and "myConnectPhase (ProcessInput m) \<noteq> PHASE_IDLE"
  shows "ProcessInput (feed later (ProcessInput m)) = ProcessInput (feed later m)"
  using assms by (rule ProcessInput_chunks)

theorem chunks_do_not_matter_witness:
  "let m = feed (replicate 20 CHR 0x09) example_online in
   ProcessInput (feed (replicate 30 CHR 0x00) (ProcessInput m)) = ProcessInput (feed (replicate 30 CHR 0x00) m)"
proof -
  let ?m = "feed (replicate 20 CHR 0x09) example_online"
  have ok: "mgr_ok ?m"
    using example_online_ok(1) unfolding feed_def by (auto simp: ok_parts sock_ok_def live_def)
  have len: "length (myInput (mySocket ?m)) = 20" by (simp add: feed_def example_defs)
  have "process_step ?m = (False, ?m)"
    using len by (simp add: process_step_def InputSize_def consts_simps)
  then have "ProcessInput ?m = ?m" using ProcessInput_unfold [OF ok] by simp
  then have "myConnectPhase (ProcessInput ?m) \<noteq> PHASE_IDLE" by (simp add: feed_def example_online_def)
  then show ?thesis unfolding Let_def using len by (intro chunks_do_not_matter [OF ok]) simp_all
qed

text \<open>C8: A message that one manager has sent reaches the engine of another.  The server forwards the
  packed message behind a header of its own; whatever stands behind it in the stream is handled
  as if the packet had not been there, with the message appended to the queue: sender, type and
  body as they were sent.\<close>

theorem message_arrives:
  assumes "mgr_ok m" "message_header h (36 + length body)" "messageType \<noteq> MESG_PRAY_FILE"
    and "myInput (mySocket m) = header_bytes h @ drop 40 (BuildMessage server user target (c2e_payload messageType body)) @ rest"
    and "int (length (myInput (mySocket m))) \<le> INT_MAX"
  shows "ProcessInput m = ProcessInput (with_input rest
    (m\<lparr>myIncomingMessages := myIncomingMessages m @
        [\<lparr>im_user = BabelUIN_ToString \<lparr>uid = uid user, hid = hid user AND 0xFFFF\<rparr>, im_type = messageType, im_payload = body\<rparr>]\<rparr>))"
  using process_message [OF assms(1,2,4,5)] assms(3) by (simp add: sender_of_def)

definition forwarding_header :: "nat \<Rightarrow> PacketHeader" where
  "forwarding_header size_of_body = PacketHeader_new\<lparr>ptype := PACKET_MESSAGE, furtherData := of_nat size_of_body\<rparr>"

lemma message_header_forwarding: "n \<le> 33554432 \<Longrightarrow> message_header (forwarding_header n) n"
  by (simp add: message_header_def forwarding_header_def PacketHeader_new_def consts_simps)

lemma with_input_ok: "mgr_ok m \<Longrightarrow> mgr_ok (with_input xs m)"
  by (auto simp: with_input_def ok_parts sock_ok_def live_def)

lemmas with_input_example = with_input_ok [OF example_online_ok(1)]

theorem message_arrives_witness:
  "let h = forwarding_header 41;
       m = with_input (header_bytes h @ drop 40 (BuildMessage \<lparr>uid = 9, hid = 1\<rparr> \<lparr>uid = 5, hid = 1\<rparr> \<lparr>uid = 7, hid = 1\<rparr> (c2e_payload 1 ''hello'')))
             example_online in
   myIncomingMessages (ProcessInput m) = [\<lparr>im_user = ''5+1'', im_type = 1, im_payload = ''hello''\<rparr>]"
proof -
  let ?in = "header_bytes (forwarding_header 41) @ drop 40 (BuildMessage \<lparr>uid = 9, hid = 1\<rparr> \<lparr>uid = 5, hid = 1\<rparr> \<lparr>uid = 7, hid = 1\<rparr> (c2e_payload 1 ''hello''))"
  let ?m = "with_input ?in example_online"
  let ?msg = "\<lparr>im_user = BabelUIN_ToString \<lparr>uid = 5, hid = 1\<rparr>, im_type = 1, im_payload = ''hello''\<rparr>"
  let ?m1 = "with_input [] (?m\<lparr>myIncomingMessages := [?msg]\<rparr>)"
  have "ProcessInput ?m = ProcessInput ?m1"
    using message_arrives [where m = ?m and h = "forwarding_header 41" and body = "''hello''" and messageType = 1 and rest = "[]"
        and server = "\<lparr>uid = 9, hid = 1\<rparr>" and user = "\<lparr>uid = 5, hid = 1\<rparr>" and target = "\<lparr>uid = 7, hid = 1\<rparr>"]
      with_input_example message_header_forwarding [of 41]
    by (simp add: MESG_PRAY_FILE_def BuildMessage_packed) (simp add: with_input_def example_online_def DSNetManager_new_def)
  moreover have "mgr_ok ?m1" by (rule with_input_ok) (simp only: mgr_ok_upd with_input_example)
  then have "ProcessInput ?m1 = ?m1" by (rule ProcessInput_empty) (simp add: with_input_def)
  ultimately show ?thesis by (simp add: Let_def with_input_def ToString_example)
qed


definition example_receiver :: "byte list \<Rightarrow> mgr" where
  "example_receiver xs = with_input xs (example_online\<lparr>myInboxDirectory := ''in/''\<rparr>)"


text \<open>C11: A packet that carries the ticket of a request is its response, whatever its type says: it is as
  long as the request expects, completes the request, or drops it when nobody waits any more,
  and the next packet is looked for right behind it.\<close>

theorem response_completes_request:
  assumes "mgr_ok m" "myTransactions m (pticket h) = Some t"
    and "0 \<le> sint (furtherData h)" "sint (furtherData h) \<le> 33554432"
    and "int (length body) = sint (t_fixedExtra t) + sint (furtherData h)"
    and "myInput (mySocket m) = header_bytes h @ body @ rest" "int (length (myInput (mySocket m))) \<le> INT_MAX"
  shows "\<exists>t'. HandleTransactionResponse t h body (of_nat (length body)) = Some t' \<and> t_done t'
    \<and> ProcessInput m = ProcessInput (with_input rest (m\<lparr>myTransactions := (myTransactions m)(pticket h :=
        (if t_kind t = TRANS_ABANDONED then None else Some t'))\<rparr>))"
  using assms by (rule process_response)

theorem response_completes_request_witness:
  "let h = PacketHeader_new\<lparr>ptype := 0x18, pticket := 1\<rparr>; body = concat (map le_bytes [7, 42, 0, 0]);
       t = Transaction_new\<lparr>t_kind := TRANS_STATUS, t_fixedExtra := 16\<rparr>;
       m = with_input (header_bytes h @ body) (example_online\<lparr>myTransactions := [1 \<mapsto> t]\<rparr>) in
   \<exists>t'. HandleTransactionResponse t h body (of_nat (length body)) = Some t' \<and> t_done t'
    \<and> ProcessInput m = ProcessInput (with_input [] (m\<lparr>myTransactions := (myTransactions m)(1 := Some t')\<rparr>))"
proof -
  let ?h = "PacketHeader_new\<lparr>ptype := 0x18, pticket := 1\<rparr>" and ?body = "concat (map le_bytes [7, 42, 0, 0])"
  let ?t = "Transaction_new\<lparr>t_kind := TRANS_STATUS, t_fixedExtra := 16\<rparr>"
  let ?m = "with_input (header_bytes ?h @ ?body) (example_online\<lparr>myTransactions := [1 \<mapsto> ?t]\<rparr>)"
  have "mgr_ok ?m"
    by (rule with_input_ok, rule mgr_ok_table [OF example_online_ok(1)]) (simp add: table_ok_def transaction_ok_def Transaction_new_def)
  moreover have "myTransactions ?m (pticket ?h) = Some ?t" "myInput (mySocket ?m) = header_bytes ?h @ ?body @ []"
    by (simp_all add: with_input_def)
  ultimately have "\<exists>t'. HandleTransactionResponse ?t ?h ?body (of_nat (length ?body)) = Some t' \<and> t_done t'
    \<and> ProcessInput ?m = ProcessInput (with_input [] (?m\<lparr>myTransactions := (myTransactions ?m)(pticket ?h :=
        (if t_kind ?t = TRANS_ABANDONED then None else Some t'))\<rparr>))"
    by (intro response_completes_request) (simp_all add: PacketHeader_new_def with_input_def)
  then show ?thesis unfolding Let_def by simp
qed

text \<open>C12: The outcome of a login.  With error code 0 and a server identity the manager is online as the
  user the server names and has registered the users it was given, in order; otherwise it has
  closed the connection, has stopped trying, and reports the error the code stands for.\<close>

theorem login_outcome:
  assumes "48 \<le> length raw" "nat (sint rawSize) \<le> length raw" "myConnectPhase m = PHASE_AWAIT_HANDSHAKE"
  shows "let m' = HandleHandshakeResponse h raw rawSize m; code = word_of (raw ! 1) in
    if code = 0 \<and> fieldA h \<noteq> 0
    then myConnectPhase m' = PHASE_ONLINE \<and> myLastError m' = ERROR_OK
      \<and> myUserUIN m' = \<lparr>uid = fieldC h, hid = fieldD h\<rparr> \<and> myServerUIN m' = \<lparr>uid = fieldA h, hid = fieldB h\<rparr>
      \<and> myUsersForWWR m' = [] \<and> myOutboxDirty m'
      \<and> (IsConnected (mySocket m') \<longrightarrow> written (mySocket m') (myOs m') = written (mySocket m) (myOs m)
          @ concat (registration_packets (myServerUIN m') (myUsersForWWR m))
          \<and> myWWRMembers m' = myWWRMembers m \<union> {user \<in> set (myUsersForWWR m). fst (BabelUIN_FromString user)})
    else myConnectPhase m' = PHASE_FAILED \<and> myLastError m' = MapHandshakeError code \<and> myRawError m' = code
      \<and> myState (mySocket m') = STATE_CLOSED"
  using assms by (rule HandleHandshakeResponse_result)

theorem login_outcome_witness:
  "let m = example_online\<lparr>myConnectPhase := PHASE_AWAIT_HANDSHAKE, myUsersForWWR := [''bad'', ''5+1'']\<rparr>;
       refused = HandleHandshakeResponse PacketHeader_new (CHR 0x0A # CHR 0x03 # replicate 46 CHR 0x00) 48 m;
       accepted = HandleHandshakeResponse (PacketHeader_new\<lparr>fieldA := 8, fieldC := 6\<rparr>) (CHR 0x0A # CHR 0x00 # replicate 46 CHR 0x00) 48 m in
   myConnectPhase refused = PHASE_FAILED \<and> myLastError refused = ERROR_BAD_USER
    \<and> myConnectPhase accepted = PHASE_ONLINE \<and> uid (myUserUIN accepted) = 6 \<and> myUsersForWWR accepted = []"
proof -
  let ?m = "example_online\<lparr>myConnectPhase := PHASE_AWAIT_HANDSHAKE, myUsersForWWR := [''bad'', ''5+1'']\<rparr>"
  note l = login_outcome [where rawSize = 48 and m = ?m]
  show ?thesis
    using l [of "CHR 0x0A # CHR 0x03 # replicate 46 CHR 0x00" PacketHeader_new]
      l [of "CHR 0x0A # CHR 0x00 # replicate 46 CHR 0x00" "PacketHeader_new\<lparr>fieldA := 8, fieldC := 6\<rparr>"]
    by (simp add: Let_def word_of_def MapHandshakeError_def)
qed

text \<open>C13: The servers a handshake response lists, in the layout the parser documents, become the list
  that later connections use, from its beginning.\<close>

theorem server_list_learned:
  assumes "length pre = 48" "word_of (pre ! 1) = 0" "fieldA h \<noteq> 0" "myConnectPhase m = PHASE_AWAIT_HANDSHAKE"
    and "\<forall>i \<in> set servers. no_nul i" "0 < length servers" "length servers < 1000"
    and "int (length (pre @ server_list_bytes servers)) \<le> INT_MAX"
  shows "let m' = HandleHandshakeResponse h (pre @ server_list_bytes servers) (of_nat (length (pre @ server_list_bytes servers))) m in
    myServers m' = servers \<and> myServerRotation m' = 0"
proof -
  let ?raw = "pre @ server_list_bytes servers"
  have "48 \<le> length ?raw" "nat (sint (of_nat (length ?raw) :: cint)) \<le> length ?raw"
    using assms(1) sint_of_nat_id [OF assms(8)] by simp_all
  then show ?thesis using assms(4)
  proof (cases rule: HandleHandshakeResponse_cases [where h = h])
    case (refused code)
    then show ?thesis using assms(1-3) by (auto simp: nth_append)
  next
    case (accepted now w servers' m1)
    have s: "servers' = servers" using accepted(4) handshake_servers_eq [OF assms(1,5-8)] by simp
    have "myServers (SendWWRRegistrations users m1) = myServers m1 \<and> myServerRotation (SendWWRRegistrations users m1) = myServerRotation m1" for users
      by (subst SendWWRRegistrations_frame, subst (2) SendWWRRegistrations_frame) simp
    moreover have "myServers m1 = servers" "myServerRotation m1 = 0" using assms(6) by (auto simp: accepted(5) s)
    ultimately show ?thesis unfolding accepted(6) Let_def by simp
  qed
qed

theorem server_list_learned_witness:
  "let servers = [SetServer ''a.example'' ''A'' 49152 1, SetServer ''b.example'' ''B'' 0 2]; raw = replicate 48 CHR 0x00 @ server_list_bytes servers;
       m' = HandleHandshakeResponse (PacketHeader_new\<lparr>fieldA := 9\<rparr>) raw (of_nat (length raw)) (example_online\<lparr>myConnectPhase := PHASE_AWAIT_HANDSHAKE\<rparr>) in
   myServers m' = servers \<and> myServerRotation m' = 0"
  unfolding Let_def
  by (rule server_list_learned [unfolded Let_def])
    (simp_all add: word_of_def no_nul_def SetServer_def server_list_bytes_def server_entry_def)

lemma example_message_quiet: "never_dials example_message"
  using quiet_call.remove_from_wwr by (auto simp: never_dials_def example_message_def)




end
